(* ===== verification/C_Layout.thy ===== *)
theory C_Layout
  imports Base_Prelude
begin

section \<open>Struct layout\<close>

text \<open>
  The layout rule of the C ABI the driver is compiled for: each field starts at the next
  multiple of its alignment, the struct ends at the next multiple of the largest alignment.
  The offsets that the ABI structs of \<open>include/amba_pci_ioctl.h\<close> and the ring header of
  \<open>amba_pci_platform_transfer.h\<close> get from \<open>offsetof\<close> and \<open>sizeof\<close> are computed from it.
\<close>

type_synonym cfield = "nat \<times> nat" \<comment> \<open>size and alignment in bytes\<close>

definition align_up :: "nat \<Rightarrow> nat \<Rightarrow> nat" where
  "align_up a x = ((x + a - 1) div a) * a"

fun field_offsets :: "nat \<Rightarrow> cfield list \<Rightarrow> nat list" where
  "field_offsets p [] = []"
| "field_offsets p ((sz, al) # fs) = align_up al p # field_offsets (align_up al p + sz) fs"

fun fields_end :: "nat \<Rightarrow> cfield list \<Rightarrow> nat" where
  "fields_end p [] = p"
| "fields_end p ((sz, al) # fs) = fields_end (align_up al p + sz) fs"

definition struct_align :: "cfield list \<Rightarrow> nat" where
  "struct_align fs = foldr max (map snd fs) 1"

definition offset_of :: "cfield list \<Rightarrow> nat \<Rightarrow> nat" where
  "offset_of fs i = field_offsets 0 fs ! i"

definition size_of :: "cfield list \<Rightarrow> nat" where
  "size_of fs = align_up (struct_align fs) (fields_end 0 fs)"

abbreviation (input) f_u8 :: cfield where "f_u8 \<equiv> (1, 1)"
abbreviation (input) f_u16 :: cfield where "f_u16 \<equiv> (2, 2)"
abbreviation (input) f_u32 :: cfield where "f_u32 \<equiv> (4, 4)"
abbreviation (input) f_u64 :: cfield where "f_u64 \<equiv> (8, 8)"
abbreviation (input) f_chars :: "nat \<Rightarrow> cfield" where "f_chars n \<equiv> (n, 1)"

lemmas layout_eval = offset_of_def size_of_def struct_align_def align_up_def

lemma align_up_ge: "0 < a \<Longrightarrow> x \<le> align_up a x"
proof -
  assume a: "0 < a"
  have "x + a - 1 = (x + a - 1) div a * a + (x + a - 1) mod a"
    by (rule div_mult_mod_eq [symmetric])
  moreover have "(x + a - 1) mod a < a" using a by simp
  ultimately show ?thesis using a unfolding align_up_def by linarith
qed

lemma align_up_dvd: "a dvd align_up a x"
  by (simp add: align_up_def)

text \<open>Fields follow one another without overlap, and the struct ends behind the last one.\<close>

lemma field_offsets_ge: "\<forall>f \<in> set fs. 0 < snd f \<Longrightarrow> q \<in> set (field_offsets p fs) \<Longrightarrow> p \<le> q"
proof (induction p fs rule: field_offsets.induct)
  case (1 p)
  then show ?case by simp
next
  case (2 p sz al fs)
  then have "p \<le> align_up al p" by (simp add: align_up_ge)
  with 2 show ?case by fastforce
qed

lemma field_offsets_disjoint:
  "\<forall>f \<in> set fs. 0 < snd f \<Longrightarrow> i < j \<Longrightarrow> j < length fs \<Longrightarrow>
     field_offsets p fs ! i + fst (fs ! i) \<le> field_offsets p fs ! j"
proof (induction p fs arbitrary: i j rule: field_offsets.induct)
  case (1 p)
  then show ?case by simp
next
  case (2 p sz al fs)
  have len: "length (field_offsets q gs) = length gs" for q gs
    by (induction q gs rule: field_offsets.induct) auto
  from 2 obtain k where k: "j = Suc k" "k < length fs" by (cases j) auto
  show ?case
  proof (cases i)
    case 0
    have "field_offsets (align_up al p + sz) fs ! k \<in> set (field_offsets (align_up al p + sz) fs)"
      using k len by simp
    with 2 k 0 show ?thesis by (auto intro: field_offsets_ge)
  next
    case (Suc i')
    with 2 k show ?thesis by simp
  qed
qed

end
