(* ===== verification/Amba_Ioctl_Abi.thy ===== *)
theory Amba_Ioctl_Abi
  imports C_Layout
begin

section \<open>The ioctl ABI\<close>

text \<open>
  \<open>include/amba_pci_ioctl.h\<close>: the device states, the request and answer structs, their
  byte layout as \<open>copy_from_user\<close> and \<open>copy_to_user\<close> move it, and the ioctl numbers as the
  \<open>_IOC\<close> macros of \<open>linux/ioctl.h\<close> build them (direction, argument size, magic, number).
\<close>

subsection \<open>Limits and identifiers\<close>

abbreviation (input) AMBA_PCI_NAME_MAX :: nat where "AMBA_PCI_NAME_MAX \<equiv> 32"
abbreviation (input) AMBA_PCI_DEV_MAX :: nat where "AMBA_PCI_DEV_MAX \<equiv> 4"
abbreviation (input) AMBA_PCI_FW_IMAGE_MAX :: nat where "AMBA_PCI_FW_IMAGE_MAX \<equiv> 3"
abbreviation (input) AMBA_PCI_PATH_MAX :: nat where "AMBA_PCI_PATH_MAX \<equiv> 256"
abbreviation (input) AMBA_PCI_TARGET_VENDOR_ID :: u16 where "AMBA_PCI_TARGET_VENDOR_ID \<equiv> 0x2134"
abbreviation (input) AMBA_PCI_TARGET_DEVICE_ID :: u16 where "AMBA_PCI_TARGET_DEVICE_ID \<equiv> 0x0006"

subsection \<open>Device states\<close>

datatype amba_pci_dev_state =
    AMBA_PCI_STATE_DISCONNECTED
  | AMBA_PCI_STATE_BOOTING
  | AMBA_PCI_STATE_REBOOTING
  | AMBA_PCI_STATE_CONNECTED
  | AMBA_PCI_STATE_BOOT_FAILED

fun dev_state_val :: "amba_pci_dev_state \<Rightarrow> u32" where
  "dev_state_val AMBA_PCI_STATE_DISCONNECTED = 0"
| "dev_state_val AMBA_PCI_STATE_BOOTING = 1"
| "dev_state_val AMBA_PCI_STATE_REBOOTING = 2"
| "dev_state_val AMBA_PCI_STATE_CONNECTED = 3"
| "dev_state_val AMBA_PCI_STATE_BOOT_FAILED = 4"

lemma dev_state_val_inject [simp]: "dev_state_val s = dev_state_val t \<longleftrightarrow> s = t"
  by (cases s; cases t) simp_all

instantiation amba_pci_dev_state :: linorder
begin

definition less_eq_amba_pci_dev_state :: "amba_pci_dev_state \<Rightarrow> amba_pci_dev_state \<Rightarrow> bool" where
  "less_eq_amba_pci_dev_state s t \<longleftrightarrow> dev_state_val s \<le> dev_state_val t"

definition less_amba_pci_dev_state :: "amba_pci_dev_state \<Rightarrow> amba_pci_dev_state \<Rightarrow> bool" where
  "less_amba_pci_dev_state s t \<longleftrightarrow> dev_state_val s < dev_state_val t"

instance
  by standard
     (auto simp: less_eq_amba_pci_dev_state_def less_amba_pci_dev_state_def antisym_conv order.strict_iff_order)

end

subsection \<open>Structs\<close>

record amba_pci_dev_info =
  di_id :: u32
  di_slot_id :: u32
  di_state :: amba_pci_dev_state
  di_is_valid :: u32
  di_ip :: u32
  di_poc :: u32
  di_dram_size_mb :: u32
  di_vendor :: u32
  di_device :: u32
  di_dram_type :: "u8 list"
  di_fw_vers :: "u8 list"

record amba_pci_platform_info =
  pi_version :: u32
  pi_dev_num :: u32
  pi_devs :: "amba_pci_dev_info list"

abbreviation (input) AMBA_PCI_FW_IMAGE_DTB :: u32 where "AMBA_PCI_FW_IMAGE_DTB \<equiv> 0"
abbreviation (input) AMBA_PCI_FW_IMAGE_ROOTFS :: u32 where "AMBA_PCI_FW_IMAGE_ROOTFS \<equiv> 1"
abbreviation (input) AMBA_PCI_FW_IMAGE_KERNEL :: u32 where "AMBA_PCI_FW_IMAGE_KERNEL \<equiv> 2"

record amba_pci_fw_image_desc =
  img_type :: u32
  img_reserved :: u32
  img_offset :: u64
  img_length :: u64

record amba_pci_fw_xfer =
  fx_slot_id :: u32
  fx_fw_size :: u64
  fx_fw_user_ptr :: u64
  fx_images :: "amba_pci_fw_image_desc list"

record amba_pci_h2d_send_file =
  sf_slot_id :: u32
  sf_reserved :: u32
  sf_ep_addr :: u64
  sf_path :: "u8 list"

record amba_pci_h2d_send_buffer =
  sb_slot_id :: u32
  sb_reserved :: u32
  sb_src_user_ptr :: u64
  sb_size :: u64
  sb_ep_addr :: u64

subsection \<open>Layout\<close>

definition dev_info_layout :: "cfield list" where
  "dev_info_layout = replicate 9 f_u32 @ [f_chars AMBA_PCI_NAME_MAX, f_chars AMBA_PCI_NAME_MAX]"

definition platform_info_layout :: "cfield list" where
  "platform_info_layout = [f_u32, f_u32, (AMBA_PCI_DEV_MAX * size_of dev_info_layout, struct_align dev_info_layout)]"

definition fw_image_desc_layout :: "cfield list" where
  "fw_image_desc_layout = [f_u32, f_u32, f_u64, f_u64]"

definition fw_xfer_layout :: "cfield list" where
  "fw_xfer_layout = [f_u32, f_u64, f_u64,
     (AMBA_PCI_FW_IMAGE_MAX * size_of fw_image_desc_layout, struct_align fw_image_desc_layout)]"

definition h2d_send_file_layout :: "cfield list" where
  "h2d_send_file_layout = [f_u32, f_u32, f_u64, f_chars AMBA_PCI_PATH_MAX]"

definition h2d_send_buffer_layout :: "cfield list" where
  "h2d_send_buffer_layout = [f_u32, f_u32, f_u64, f_u64, f_u64]"

lemmas abi_layouts = dev_info_layout_def platform_info_layout_def fw_image_desc_layout_def
  fw_xfer_layout_def h2d_send_file_layout_def h2d_send_buffer_layout_def

lemma size_of_abi [abi]:
  "size_of dev_info_layout = 100"
  "size_of platform_info_layout = 408"
  "size_of fw_image_desc_layout = 24"
  "size_of fw_xfer_layout = 96"
  "size_of h2d_send_file_layout = 272"
  "size_of h2d_send_buffer_layout = 32"
  by code_simp+

subsection \<open>Decoding and encoding\<close>

text \<open>A struct of the ABI as the bytes of its fields at their offsets.\<close>

definition fw_image_desc_of_bytes :: "u8 list \<Rightarrow> amba_pci_fw_image_desc" where
  "fw_image_desc_of_bytes bs =
     \<lparr>img_type = from_le (slice 0 4 bs), img_reserved = from_le (slice 4 4 bs),
      img_offset = from_le (slice 8 8 bs), img_length = from_le (slice 16 8 bs)\<rparr>"

definition fw_xfer_of_bytes :: "u8 list \<Rightarrow> amba_pci_fw_xfer" where
  "fw_xfer_of_bytes bs =
     \<lparr>fx_slot_id = from_le (slice 0 4 bs), fx_fw_size = from_le (slice 8 8 bs),
      fx_fw_user_ptr = from_le (slice 16 8 bs),
      fx_images = map (\<lambda>i. fw_image_desc_of_bytes (slice (24 + 24 * i) 24 bs)) [0..<AMBA_PCI_FW_IMAGE_MAX]\<rparr>"

definition h2d_send_file_of_bytes :: "u8 list \<Rightarrow> amba_pci_h2d_send_file" where
  "h2d_send_file_of_bytes bs =
     \<lparr>sf_slot_id = from_le (slice 0 4 bs), sf_reserved = from_le (slice 4 4 bs),
      sf_ep_addr = from_le (slice 8 8 bs), sf_path = slice 16 256 bs\<rparr>"

definition h2d_send_buffer_of_bytes :: "u8 list \<Rightarrow> amba_pci_h2d_send_buffer" where
  "h2d_send_buffer_of_bytes bs =
     \<lparr>sb_slot_id = from_le (slice 0 4 bs), sb_reserved = from_le (slice 4 4 bs),
      sb_src_user_ptr = from_le (slice 8 8 bs), sb_size = from_le (slice 16 8 bs),
      sb_ep_addr = from_le (slice 24 8 bs)\<rparr>"

definition dev_info_to_bytes :: "amba_pci_dev_info \<Rightarrow> u8 list" where
  "dev_info_to_bytes d =
     to_le 4 (di_id d) @ to_le 4 (di_slot_id d) @ to_le 4 (dev_state_val (di_state d)) @
     to_le 4 (di_is_valid d) @ to_le 4 (di_ip d) @ to_le 4 (di_poc d) @
     to_le 4 (di_dram_size_mb d) @ to_le 4 (di_vendor d) @ to_le 4 (di_device d) @
     di_dram_type d @ di_fw_vers d"

definition platform_info_to_bytes :: "amba_pci_platform_info \<Rightarrow> u8 list" where
  "platform_info_to_bytes p =
     to_le 4 (pi_version p) @ to_le 4 (pi_dev_num p) @ concat (map dev_info_to_bytes (pi_devs p))"

subsection \<open>The ioctl numbers\<close>

definition IOC :: "u32 \<Rightarrow> u32 \<Rightarrow> u32 \<Rightarrow> nat \<Rightarrow> u32" where
  "IOC dir ty nr sz = push_bit 30 dir OR push_bit 16 (of_nat sz) OR push_bit 8 ty OR nr"

definition IOW :: "u32 \<Rightarrow> u32 \<Rightarrow> nat \<Rightarrow> u32" where
  "IOW ty nr sz = IOC 1 ty nr sz"

definition IOWR :: "u32 \<Rightarrow> u32 \<Rightarrow> nat \<Rightarrow> u32" where
  "IOWR ty nr sz = IOC 3 ty nr sz"

abbreviation (input) AMBA_PCI_IOC_MAGIC :: u32 where "AMBA_PCI_IOC_MAGIC \<equiv> 0x50"

definition AMBA_PCI_QUERY_PLATFORM_INFO :: u32 where
  "AMBA_PCI_QUERY_PLATFORM_INFO = IOWR AMBA_PCI_IOC_MAGIC 1 (size_of platform_info_layout)"

definition AMBA_PCI_XFER_FIRMWARE :: u32 where
  "AMBA_PCI_XFER_FIRMWARE = IOW AMBA_PCI_IOC_MAGIC 4 (size_of fw_xfer_layout)"

definition AMBA_PCI_H2D_SEND_FILE :: u32 where
  "AMBA_PCI_H2D_SEND_FILE = IOW AMBA_PCI_IOC_MAGIC 2 (size_of h2d_send_file_layout)"

definition AMBA_PCI_H2D_SEND_BUFFER :: u32 where
  "AMBA_PCI_H2D_SEND_BUFFER = IOW AMBA_PCI_IOC_MAGIC 3 (size_of h2d_send_buffer_layout)"

lemmas ioctl_number_defs = AMBA_PCI_QUERY_PLATFORM_INFO_def AMBA_PCI_XFER_FIRMWARE_def
  AMBA_PCI_H2D_SEND_FILE_def AMBA_PCI_H2D_SEND_BUFFER_def IOC_def IOW_def IOWR_def

lemma ioctl_numbers [abi]:
  "AMBA_PCI_QUERY_PLATFORM_INFO = 0xC1985001"
  "AMBA_PCI_XFER_FIRMWARE = 0x40605004"
  "AMBA_PCI_H2D_SEND_FILE = 0x41105002"
  "AMBA_PCI_H2D_SEND_BUFFER = 0x40205003"
  by (simp_all add: ioctl_number_defs size_of_abi)

end
