(* ===== verification/Kernel_Model.thy ===== *)
theory Kernel_Model
  imports Base_Prelude
begin

section \<open>The driver's environment: kernel services, endpoint, I/O memory, clock\<close>

text \<open>
  The driver runs against the Linux kernel and against firmware on the endpoint (EP) that
  shares the mapped BAR with it. None of that is under \<open>src/\<close>, so it is a parameter of the
  model: a record \<open>kernel\<close> of functions over an outside state \<open>'d\<close> that stands for everything
  the driver does not own (the PCI core, procfs, the clock, the EP firmware).

  \<^item> \<open>k_call\<close> answers a call of a kernel service with its integer result (0 or an errno for
    status results, 0 or a handle for pointer results) and the outside state after it.
  \<^item> \<open>k_ep\<close> is what the EP does to the I/O memory between two accesses of the driver; it runs
    before every access, so the memory may change at any moment as far as the driver can tell.
  \<^item> \<open>k_jiffies\<close>, \<open>k_msecs\<close> are the tick counter and \<open>msecs_to_jiffies\<close>.
  \<^item> \<open>k_user\<close> is the memory of the calling process, \<open>None\<close> where an access faults; it is taken
    as constant during one system call.
  \<^item> \<open>k_res\<close> gives the resource of a BAR, \<open>k_read\<close> the result of \<open>kernel_read\<close>,
    \<open>k_junk\<close> the old contents of a fresh kmalloc buffer.

  The driver's own state in this model is the I/O memory, the outside state and the trace of
  what it did: kernel calls with their results, register reads and writes, block copies.
\<close>

subsection \<open>Kernel services\<close>

datatype kcall =
    KC_kmalloc nat | KC_kfree | KC_vmalloc nat | KC_vfree
  | KC_msleep nat | KC_usleep_range nat nat | KC_cond_resched
  | KC_mutex_init | KC_mutex_lock | KC_mutex_unlock | KC_mutex_destroy
  | KC_pci_write_config_byte nat nat u8
  | KC_pci_iomap nat nat u64 | KC_pci_iounmap nat u64
  | KC_pci_dev_get nat | KC_pci_dev_put nat | KC_pci_set_master nat
  | KC_pci_stop_and_remove nat
  | KC_schedule_delayed_work nat nat | KC_cancel_delayed_work nat | KC_cancel_delayed_work_sync nat
  | KC_proc_mkdir string | KC_proc_create string string
  | KC_remove_proc_subtree string | KC_proc_remove
  | KC_symbol_get string | KC_symbol_put string
  | KC_filp_open "u8 list" | KC_filp_close
  | KC_h2d_xfer u32 "u8 list" u64
  | KC_net_get u32 | KC_epinfo_read u32 nat
  | KC_copy_to_user u64 "u8 list"
  | KC_alloc_chrdev_region | KC_unregister_chrdev_region u32
  | KC_class_create | KC_class_destroy
  | KC_stream_open | KC_cdev_init | KC_cdev_add u32 | KC_cdev_del
  | KC_device_create u32 | KC_device_destroy u32
  | KC_bus_register_notifier | KC_bus_unregister_notifier

datatype event =
    Call kcall int
  | Readl u64 u32
  | Writel u64 u32
  | MemcpyToio u64 "u8 list"

type_synonym iomem = "u64 \<Rightarrow> u8"

record resource =
  r_start :: u64
  r_len :: u64
  r_flags :: u64
  r_parent :: bool

record 'd kernel =
  k_call :: "kcall \<Rightarrow> 'd \<Rightarrow> int \<times> 'd"
  k_ep :: "'d \<Rightarrow> iomem \<Rightarrow> 'd \<times> iomem"
  k_jiffies :: "'d \<Rightarrow> u64"
  k_msecs :: "u32 \<Rightarrow> u64"
  k_user :: "u64 \<Rightarrow> u8 option"
  k_res :: "'d \<Rightarrow> nat \<Rightarrow> nat \<Rightarrow> resource"
  k_read :: "'d \<Rightarrow> nat \<Rightarrow> nat \<Rightarrow> int + u8 list"
  k_junk :: "nat \<Rightarrow> u8 list"

record 'd world =
  w_io :: iomem
  w_out :: 'd
  w_trc :: "event list"

definition kcall :: "'d kernel \<Rightarrow> kcall \<Rightarrow> 'd world \<Rightarrow> int \<times> 'd world" where
  "kcall K c w =
     (let (r, d) = k_call K c (w_out w)
      in (r, w\<lparr>w_out := d, w_trc := w_trc w @ [Call c r]\<rparr>))"

definition kdo :: "'d kernel \<Rightarrow> kcall \<Rightarrow> 'd world \<Rightarrow> 'd world" where
  "kdo K c w = snd (kcall K c w)"

text \<open>\<open>copy_from_user\<close>: \<open>None\<close> is a non-zero return, some byte could not be read.\<close>

fun copy_from_user :: "'d kernel \<Rightarrow> u64 \<Rightarrow> nat \<Rightarrow> u8 list option" where
  "copy_from_user K a 0 = Some []"
| "copy_from_user K a (Suc n) =
     (case k_user K a of None \<Rightarrow> None
      | Some b \<Rightarrow> map_option (\<lambda>bs. b # bs) (copy_from_user K (a + 1) n))"

definition time_before :: "u64 \<Rightarrow> u64 \<Rightarrow> bool" where
  "time_before a b \<longleftrightarrow> sint (a - b) < 0"

definition jiffies :: "'d kernel \<Rightarrow> 'd world \<Rightarrow> u64" where
  "jiffies K w = k_jiffies K (w_out w)"

subsection \<open>I/O memory\<close>

fun write_bytes :: "iomem \<Rightarrow> u64 \<Rightarrow> u8 list \<Rightarrow> iomem" where
  "write_bytes m a [] = m"
| "write_bytes m a (b # bs) = write_bytes (m(a := b)) (a + 1) bs"

fun read_bytes :: "iomem \<Rightarrow> u64 \<Rightarrow> nat \<Rightarrow> u8 list" where
  "read_bytes m a 0 = []"
| "read_bytes m a (Suc n) = m a # read_bytes m (a + 1) n"

definition ep_turn :: "'d kernel \<Rightarrow> 'd world \<Rightarrow> 'd world" where
  "ep_turn K w = (let (d, m) = k_ep K (w_out w) (w_io w) in w\<lparr>w_io := m, w_out := d\<rparr>)"

definition readl :: "'d kernel \<Rightarrow> u64 \<Rightarrow> 'd world \<Rightarrow> u32 \<times> 'd world" where
  "readl K a w =
     (let w1 = ep_turn K w; v = from_le (read_bytes (w_io w1) a 4)
      in (v, w1\<lparr>w_trc := w_trc w1 @ [Readl a v]\<rparr>))"

definition writel :: "'d kernel \<Rightarrow> u32 \<Rightarrow> u64 \<Rightarrow> 'd world \<Rightarrow> 'd world" where
  "writel K v a w =
     (let w1 = ep_turn K w
      in w1\<lparr>w_io := write_bytes (w_io w1) a (to_le 4 v), w_trc := w_trc w1 @ [Writel a v]\<rparr>)"

definition memcpy_toio :: "'d kernel \<Rightarrow> u64 \<Rightarrow> u8 list \<Rightarrow> 'd world \<Rightarrow> 'd world" where
  "memcpy_toio K a bs w =
     (let w1 = ep_turn K w
      in w1\<lparr>w_io := write_bytes (w_io w1) a bs, w_trc := w_trc w1 @ [MemcpyToio a bs]\<rparr>)"

subsection \<open>Projections of the trace\<close>

fun is_iow :: "event \<Rightarrow> bool" where
  "is_iow (Writel a v) = True"
| "is_iow (MemcpyToio a bs) = True"
| "is_iow (Readl a v) = False"
| "is_iow (Call c r) = False"

fun call_of :: "event \<Rightarrow> (kcall \<times> int) list" where
  "call_of (Call c r) = [(c, r)]"
| "call_of (Readl a v) = []"
| "call_of (Writel a v) = []"
| "call_of (MemcpyToio a bs) = []"

definition iow :: "'d world \<Rightarrow> event list" where
  "iow w = filter is_iow (w_trc w)"

definition calls :: "'d world \<Rightarrow> (kcall \<times> int) list" where
  "calls w = concat (map call_of (w_trc w))"

lemma iow_ep_turn [kframe, simp]: "iow (ep_turn K w) = iow w"
  by (simp add: ep_turn_def iow_def split: prod.splits)

lemma calls_ep_turn [kframe, simp]: "calls (ep_turn K w) = calls w"
  by (simp add: ep_turn_def calls_def split: prod.splits)

lemma trc_ep_turn [kframe, simp]: "w_trc (ep_turn K w) = w_trc w"
  by (simp add: ep_turn_def split: prod.splits)

lemma kcall_frame [kframe]:
  "iow (snd (kcall K c w)) = iow w"
  "calls (snd (kcall K c w)) = calls w @ [(c, fst (kcall K c w))]"
  "w_io (snd (kcall K c w)) = w_io w"
  by (simp_all add: kcall_def iow_def calls_def split: prod.splits)

lemma kdo_frame [kframe]:
  "iow (kdo K c w) = iow w"
  "calls (kdo K c w) = calls w @ [(c, fst (kcall K c w))]"
  "w_io (kdo K c w) = w_io w"
  by (simp_all add: kdo_def kcall_frame)

lemma readl_frame [kframe]:
  "iow (snd (readl K a w)) = iow w"
  "calls (snd (readl K a w)) = calls w"
  by (simp_all add: readl_def iow_def calls_def Let_def)

lemma writel_frame [kframe]:
  "iow (writel K v a w) = iow w @ [Writel a v]"
  "calls (writel K v a w) = calls w"
  by (simp_all add: writel_def iow_def calls_def Let_def)

lemma memcpy_toio_frame [kframe]:
  "iow (memcpy_toio K a bs w) = iow w @ [MemcpyToio a bs]"
  "calls (memcpy_toio K a bs w) = calls w"
  by (simp_all add: memcpy_toio_def iow_def calls_def Let_def)

lemma kcallD: "kcall K c w = (r, w') \<Longrightarrow> iow w' = iow w \<and> calls w' = calls w @ [(c, r)] \<and> w_io w' = w_io w"
  using kcall_frame [of K c w] by simp

lemma readlD: "readl K a w = (v, w') \<Longrightarrow> iow w' = iow w \<and> calls w' = calls w"
  using readl_frame [where K = K and a = a and w = w] by simp

subsection \<open>User memory\<close>

lemma copy_from_user_numeral [abi]:
  "copy_from_user K a (numeral n) =
     (case k_user K a of None \<Rightarrow> None
      | Some b \<Rightarrow> map_option (\<lambda>bs. b # bs) (copy_from_user K (a + 1) (pred_numeral n)))"
  by (simp add: numeral_eq_Suc)

lemma copy_from_user_length: "copy_from_user K a n = Some bs \<Longrightarrow> length bs = n"
  by (induction n arbitrary: a bs) (auto split: option.splits)

lemma copy_from_user_nth:
  "copy_from_user K a n = Some bs \<Longrightarrow> i < n \<Longrightarrow> k_user K (a + of_nat i) = Some (bs ! i)"
proof (induction n arbitrary: a bs i)
  case 0
  then show ?case by simp
next
  case (Suc n)
  then obtain b z where hd: "k_user K a = Some b" and tl: "copy_from_user K (a + 1) n = Some z"
    and bs: "bs = b # z"
    by (auto split: option.splits)
  show ?case
  proof (cases i)
    case 0
    with hd bs show ?thesis by simp
  next
    case (Suc j)
    with Suc.IH [OF tl, of j] Suc.prems bs show ?thesis by (simp add: algebra_simps)
  qed
qed

lemma copy_from_user_append:
  "copy_from_user K a (m + n) =
     (case copy_from_user K a m of None \<Rightarrow> None
      | Some xs \<Rightarrow> map_option (\<lambda>ys. xs @ ys) (copy_from_user K (a + of_nat m) n))"
proof (induction m arbitrary: a)
  case 0
  show ?case by (cases "copy_from_user K a n") simp_all
next
  case (Suc m)
  then show ?case
    by (auto split: option.splits simp: algebra_simps option.map_comp comp_def
        intro!: option.map_cong)
qed


subsection \<open>I/O memory as a store of byte ranges\<close>

definition disjoint_span :: "u64 \<Rightarrow> nat \<Rightarrow> u64 \<Rightarrow> nat \<Rightarrow> bool" where
  "disjoint_span a n b m \<longleftrightarrow> (\<forall>i<n. \<forall>j<m. a + of_nat i \<noteq> b + of_nat j)"

lemma disjoint_span_sym: "disjoint_span a n b m \<Longrightarrow> disjoint_span b m a n"
  by (auto simp: disjoint_span_def) metis

lemma of_nat_u64_inject:
  "i < 2 ^ 64 \<Longrightarrow> j < 2 ^ 64 \<Longrightarrow> (of_nat i :: u64) = of_nat j \<longleftrightarrow> i = j"
  by (simp add: word_of_nat_eq_iff take_bit_nat_eq_self)

lemma disjoint_span_offsets:
  assumes "i + n \<le> j" "j + m \<le> 2 ^ 64"
  shows "disjoint_span (base + of_nat i) n (base + of_nat j) m"
proof -
  have "base + of_nat i + of_nat x \<noteq> base + of_nat j + (of_nat y :: u64)" if "x < n" "y < m" for x y
  proof -
    have "(of_nat (i + x) :: u64) \<noteq> of_nat (j + y)"
      using assms that by (subst of_nat_u64_inject) auto
    then show ?thesis by (simp add: add.assoc)
  qed
  then show ?thesis by (simp add: disjoint_span_def)
qed

text \<open>What the ring code needs of the window: a range reads back what was written to it, and
  writing elsewhere does not change it.\<close>

locale byte_store =
  fixes rd :: "'m \<Rightarrow> u64 \<Rightarrow> nat \<Rightarrow> u8 list"
    and wr :: "'m \<Rightarrow> u64 \<Rightarrow> u8 list \<Rightarrow> 'm"
  assumes rd_wr_same: "length bs \<le> 2 ^ 64 \<Longrightarrow> rd (wr m a bs) a (length bs) = bs"
    and rd_wr_other: "disjoint_span a n b (length bs) \<Longrightarrow> rd (wr m b bs) a n = rd m a n"
begin

text \<open>Two records at increasing offsets of one base: writing the second keeps the first.\<close>

lemma rd_wr_before:
  "i + n \<le> j \<Longrightarrow> j + length bs \<le> 2 ^ 64 \<Longrightarrow>
     rd (wr m (base + of_nat j) bs) (base + of_nat i) n = rd m (base + of_nat i) n"
  by (rule rd_wr_other) (rule disjoint_span_offsets)

lemma rd_wr_after:
  "j + length bs \<le> i \<Longrightarrow> i + n \<le> 2 ^ 64 \<Longrightarrow>
     rd (wr m (base + of_nat j) bs) (base + of_nat i) n = rd m (base + of_nat i) n"
  by (rule rd_wr_other) (rule disjoint_span_sym, rule disjoint_span_offsets)

text \<open>A table of words written one after the other reads back word by word.\<close>

lemma rd_wr_words:
  assumes "\<forall>b \<in> set bss. length b = 4" "j + 4 * length bss \<le> 2 ^ 64" "k < length bss"
  shows "rd (fold (\<lambda>(i, b) m. wr m (base + of_nat (j + 4 * i)) b) (enumerate 0 bss) m)
           (base + of_nat (j + 4 * k)) 4 = bss ! k"
  using assms
proof (induction bss rule: rev_induct)
  case Nil
  then show ?case by simp
next
  case (snoc b bss)
  let ?m = "fold (\<lambda>(i, b) m. wr m (base + of_nat (j + 4 * i)) b) (enumerate 0 bss) m"
  have split: "fold (\<lambda>(i, b) m. wr m (base + of_nat (j + 4 * i)) b) (enumerate 0 (bss @ [b])) m
      = wr ?m (base + of_nat (j + 4 * length bss)) b"
    by (simp add: enumerate_append_eq)
  have len: "length b = 4" using snoc.prems(1) by simp
  show ?case
  proof (cases "k = length bss")
    case True
    have "rd (wr ?m (base + of_nat (j + 4 * k)) b) (base + of_nat (j + 4 * k)) (length b) = b"
      by (rule rd_wr_same) (simp add: len)
    with True len split show ?thesis by (simp del: of_nat_add of_nat_mult)
  next
    case False
    with snoc.prems have k: "k < length bss" by simp
    have "rd (wr ?m (base + of_nat (j + 4 * length bss)) b) (base + of_nat (j + 4 * k)) 4
        = rd ?m (base + of_nat (j + 4 * k)) 4"
      by (rule rd_wr_before) (use k snoc.prems len in simp_all)
    with snoc k split show ?thesis by (simp add: nth_append del: of_nat_add of_nat_mult)
  qed
qed

end

lemma write_bytes_other:
  "\<forall>j < length bs. x \<noteq> b + of_nat j \<Longrightarrow> write_bytes m b bs x = m x"
proof (induction bs arbitrary: m b)
  case Nil
  then show ?case by simp
next
  case (Cons c bs)
  have "x \<noteq> b" using Cons.prems [rule_format, of 0] by simp
  moreover have "\<forall>j < length bs. x \<noteq> b + 1 + of_nat j"
  proof (intro allI impI)
    fix j assume "j < length bs"
    then show "x \<noteq> b + 1 + of_nat j"
      using Cons.prems [rule_format, of "Suc j"] by (simp add: algebra_simps)
  qed
  ultimately show ?case using Cons.IH by simp
qed

lemma read_bytes_conv: "read_bytes m a n = map (\<lambda>i. m (a + of_nat i)) [0..<n]"
proof (induction n arbitrary: a)
  case 0
  then show ?case by simp
next
  case (Suc n)
  show ?case
    by (simp add: Suc map_upt_Suc algebra_simps del: upt_Suc)
qed

lemma length_read_bytes [simp]: "length (read_bytes m a n) = n"
  by (simp add: read_bytes_conv)

lemma read_write_bytes_other:
  "disjoint_span a n b (length bs) \<Longrightarrow> read_bytes (write_bytes m b bs) a n = read_bytes m a n"
  by (auto simp: read_bytes_conv disjoint_span_def intro!: write_bytes_other)

lemma read_write_bytes_same:
  "length bs \<le> 2 ^ 64 \<Longrightarrow> read_bytes (write_bytes m a bs) a (length bs) = bs"
proof (induction bs arbitrary: m a)
  case Nil
  then show ?case by simp
next
  case (Cons b bs)
  have "\<forall>j < length bs. a \<noteq> a + 1 + of_nat j"
  proof (intro allI impI notI)
    fix j assume j: "j < length bs" and "a = a + 1 + of_nat j"
    then have "(of_nat (Suc j) :: u64) = of_nat 0" by (simp add: add.assoc)
    with j Cons.prems show False by (subst (asm) of_nat_u64_inject) auto
  qed
  then have "write_bytes (m(a := b)) (a + 1) bs a = b"
    by (simp add: write_bytes_other)
  with Cons show ?case by simp
qed

interpretation io: byte_store read_bytes write_bytes
  by unfold_locales (auto simp: read_write_bytes_same read_write_bytes_other)

end
