(* ===== verification/Dev_Entry.thy ===== *)
theory Dev_Entry
  imports Amba_Ioctl_Abi Kernel_Model
begin

section \<open>Driver state and the physical slot table\<close>

text \<open>
  The structs of \<open>amba_pci_platform_internal.h\<close> and the slot table of
  \<open>amba_pci_platform_table.c\<close>. A \<open>struct pci_dev\<close> belongs to the PCI core; the record
  \<open>pci_dev\<close> holds the handle and the read-only fields the driver looks at. A NULL \<open>pdev\<close> is
  \<open>None\<close>; the pointers \<open>boot_mem_base\<close>, \<open>proc_dir\<close>, \<open>proc_root\<close>, \<open>class\<close>, \<open>ctrl_dev\<close> are
  numbers with 0 for NULL. The delayed work of an entry is the flag \<open>e_work_pending\<close>: armed by
  \<open>schedule_delayed_work\<close>, disarmed by \<open>cancel_delayed_work\<close> or by expiry.
\<close>

record pci_dev =
  pd_handle :: nat
  pd_vendor :: u16
  pd_device :: u16
  pd_class :: u32
  pd_bus :: u8
  pd_domain :: u16
  pd_devfn :: u8
  pd_name :: string

record pci_dev_board_info =
  bd_id :: u32
  bd_vers :: u32
  bd_poc :: u32
  bd_dram_size_mb :: u32
  bd_dram_type :: "u8 list"
  bd_date :: "u8 list"

definition zero_board_info :: pci_dev_board_info where
  "zero_board_info = \<lparr>bd_id = 0, bd_vers = 0, bd_poc = 0, bd_dram_size_mb = 0,
     bd_dram_type = replicate 8 0, bd_date = replicate 32 0\<rparr>"

record pcie_physical_slot =
  ps_bus :: u8
  ps_target_vendor :: u16
  ps_target_device :: u16

record pcie_dev_entry =
  e_pdev :: "pci_dev option"
  e_id :: u32
  e_proc_dir :: int
  e_proc_name :: string
  e_in_use :: bool
  e_state :: amba_pci_dev_state
  e_phy_slot :: pcie_physical_slot
  e_boot_bar :: int
  e_boot_len :: u64
  e_boot_mem_base :: u64
  e_board_info :: pci_dev_board_info
  e_board_info_is_updated :: bool
  e_work_pending :: bool

record amba_pci_platform =
  g_devs :: "pcie_dev_entry list"
  g_next_dev_id :: u32
  g_devt_base :: u32
  g_ctrl_devt :: u32
  g_major :: int
  g_class :: int
  g_ctrl_dev :: int
  g_proc_root :: int

abbreviation (input) PCIE_BOOT_TIMEOUT_MS :: nat where "PCIE_BOOT_TIMEOUT_MS \<equiv> 60000"
abbreviation (input) AMBA_PCI_VIRTIO_DEVICE_ID :: u16 where "AMBA_PCI_VIRTIO_DEVICE_ID \<equiv> 0x0500"
abbreviation (input) AMBA_PCI_NET_INFO_MAX :: nat where "AMBA_PCI_NET_INFO_MAX \<equiv> 32"
abbreviation (input) DRIVER_NAME :: string where "DRIVER_NAME \<equiv> ''amba_pci_platform''"

definition board_info_layout :: "cfield list" where
  "board_info_layout = [f_u32, f_u32, f_u32, f_u32, f_chars 8, f_chars 32]"

text \<open>Static storage starts zeroed: the state of the driver before \<open>module_init\<close>.\<close>

definition zero_entry :: pcie_dev_entry where
  "zero_entry = \<lparr>e_pdev = None, e_id = 0, e_proc_dir = 0, e_proc_name = [], e_in_use = False,
     e_state = AMBA_PCI_STATE_DISCONNECTED, e_phy_slot = \<lparr>ps_bus = 0, ps_target_vendor = 0, ps_target_device = 0\<rparr>,
     e_boot_bar = 0, e_boot_len = 0, e_boot_mem_base = 0, e_board_info = zero_board_info,
     e_board_info_is_updated = False, e_work_pending = False\<rparr>"

definition zero_platform :: amba_pci_platform where
  "zero_platform = \<lparr>g_devs = replicate AMBA_PCI_DEV_MAX zero_entry, g_next_dev_id = 0, g_devt_base = 0,
     g_ctrl_devt = 0, g_major = 0, g_class = 0, g_ctrl_dev = 0, g_proc_root = 0\<rparr>"

subsection \<open>The slot table\<close>

definition pcie_physical_slots :: "pcie_physical_slot list" where
  "pcie_physical_slots =
     [\<lparr>ps_bus = 0x01, ps_target_vendor = AMBA_PCI_TARGET_VENDOR_ID, ps_target_device = AMBA_PCI_TARGET_DEVICE_ID\<rparr>,
      \<lparr>ps_bus = 0x02, ps_target_vendor = AMBA_PCI_TARGET_VENDOR_ID, ps_target_device = AMBA_PCI_TARGET_DEVICE_ID\<rparr>,
      \<lparr>ps_bus = 0x03, ps_target_vendor = AMBA_PCI_TARGET_VENDOR_ID, ps_target_device = AMBA_PCI_TARGET_DEVICE_ID\<rparr>,
      \<lparr>ps_bus = 0x04, ps_target_vendor = AMBA_PCI_TARGET_VENDOR_ID, ps_target_device = AMBA_PCI_TARGET_DEVICE_ID\<rparr>]"

lemma length_slots [simp]: "length pcie_physical_slots = AMBA_PCI_DEV_MAX"
  by (simp add: pcie_physical_slots_def)

text \<open>\<open>get_pci_slot_id\<close>: the loop over the table, -1 when no slot has the device's bus.\<close>

fun slot_scan :: "pci_dev \<Rightarrow> pcie_physical_slot list \<Rightarrow> int \<Rightarrow> int" where
  "slot_scan pd [] i = - 1"
| "slot_scan pd (s # ss) i = (if pd_bus pd \<noteq> ps_bus s then slot_scan pd ss (i + 1) else i)"

definition get_pci_slot_id :: "pci_dev \<Rightarrow> int" where
  "get_pci_slot_id pd = slot_scan pd pcie_physical_slots 0"

text \<open>What the hotplug handlers rely on: a slot number in range, the slot of the device's own
  bus, and no slot missed.\<close>

locale slot_map =
  fixes slot_of :: "pci_dev \<Rightarrow> int" and bus_of :: "nat \<Rightarrow> u8" and slots :: nat
  assumes slot_ge: "- 1 \<le> slot_of pd"
    and slot_less: "slot_of pd < int slots"
    and slot_bus: "0 \<le> slot_of pd \<Longrightarrow> bus_of (nat (slot_of pd)) = pd_bus pd"
    and slot_hit: "i < slots \<Longrightarrow> bus_of i = pd_bus pd \<Longrightarrow> slot_of pd = int i"
begin

lemma slot_index: "0 \<le> slot_of pd \<Longrightarrow> nat (slot_of pd) < slots"
  using slot_less [of pd] by linarith

lemma slot_none_iff: "slot_of pd < 0 \<longleftrightarrow> (\<forall>i < slots. bus_of i \<noteq> pd_bus pd)"
proof
  assume neg: "slot_of pd < 0"
  show "\<forall>i < slots. bus_of i \<noteq> pd_bus pd"
  proof (intro allI impI notI)
    fix i assume "i < slots" "bus_of i = pd_bus pd"
    then have "slot_of pd = int i" by (rule slot_hit)
    with neg show False by simp
  qed
next
  assume none: "\<forall>i < slots. bus_of i \<noteq> pd_bus pd"
  show "slot_of pd < 0"
  proof (rule ccontr)
    assume "\<not> slot_of pd < 0"
    then have ge: "0 \<le> slot_of pd" by simp
    from none slot_index [OF ge] slot_bus [OF ge] show False by blast
  qed
qed

lemma slot_iff: "i < slots \<Longrightarrow> slot_of pd = int i \<longleftrightarrow> bus_of i = pd_bus pd"
proof
  assume "slot_of pd = int i"
  with slot_bus [of pd] show "bus_of i = pd_bus pd" by simp
qed (rule slot_hit)

lemma same_slot_iff:
  assumes "0 \<le> slot_of p"
  shows "slot_of p = slot_of q \<longleftrightarrow> pd_bus p = pd_bus q"
proof -
  have "slot_of q = int (nat (slot_of p)) \<longleftrightarrow> bus_of (nat (slot_of p)) = pd_bus q"
    by (rule slot_iff) (rule slot_index [OF assms])
  with assms slot_bus [OF assms] show ?thesis by auto
qed

end

lemma get_pci_slot_id_cases:
  "get_pci_slot_id pd =
     (if pd_bus pd = 1 then 0 else if pd_bus pd = 2 then 1
      else if pd_bus pd = 3 then 2 else if pd_bus pd = 4 then 3 else - 1)"
  by (auto simp: get_pci_slot_id_def pcie_physical_slots_def)

lemma slot_bus_nth: "i < 4 \<Longrightarrow> ps_bus (pcie_physical_slots ! i) = of_nat (Suc i)"
  by (erule less_4_cases) (simp_all add: pcie_physical_slots_def)

interpretation slot: slot_map get_pci_slot_id "\<lambda>i. ps_bus (pcie_physical_slots ! i)" "length pcie_physical_slots"
proof unfold_locales
  fix pd i
  show "- 1 \<le> get_pci_slot_id pd" by (simp add: get_pci_slot_id_cases)
  show "get_pci_slot_id pd < int (length pcie_physical_slots)" by (simp add: get_pci_slot_id_cases)
  show "0 \<le> get_pci_slot_id pd \<Longrightarrow> ps_bus (pcie_physical_slots ! nat (get_pci_slot_id pd)) = pd_bus pd"
    by (simp add: get_pci_slot_id_cases pcie_physical_slots_def split: if_splits)
  assume "i < length pcie_physical_slots" and b: "ps_bus (pcie_physical_slots ! i) = pd_bus pd"
  then have "i < 4" by simp
  then show "get_pci_slot_id pd = int i"
    using b by (elim less_4_cases) (simp_all add: get_pci_slot_id_cases pcie_physical_slots_def)
qed

text \<open>
  The slot a device is filed under is always one of the table, and is found exactly from its
  bus number: two devices share a slot if and only if they share a bus.
\<close>

theorem slot_lookup_correct:
  "(0 \<le> get_pci_slot_id pd \<longrightarrow>
      get_pci_slot_id pd < int AMBA_PCI_DEV_MAX \<and>
      ps_bus (pcie_physical_slots ! nat (get_pci_slot_id pd)) = pd_bus pd) \<and>
   (get_pci_slot_id pd < 0 \<longleftrightarrow> (\<forall>i < AMBA_PCI_DEV_MAX. ps_bus (pcie_physical_slots ! i) \<noteq> pd_bus pd)) \<and>
   (0 \<le> get_pci_slot_id pd \<longrightarrow> (get_pci_slot_id pd = get_pci_slot_id qd \<longleftrightarrow> pd_bus pd = pd_bus qd))"
  using slot.slot_bus [of pd] slot.slot_less [of pd] slot.slot_none_iff [of pd]
    slot.same_slot_iff [of pd qd] by simp

theorem slot_lookup_correct_witness:
  "\<exists>pd :: pci_dev. 0 \<le> get_pci_slot_id pd \<and> get_pci_slot_id pd < int AMBA_PCI_DEV_MAX \<and>
     ps_bus (pcie_physical_slots ! nat (get_pci_slot_id pd)) = pd_bus pd"
proof -
  let ?pd = "\<lparr>pd_handle = 1, pd_vendor = 0x2134, pd_device = 6, pd_class = 0xff0000, pd_bus = 3,
     pd_domain = 0, pd_devfn = 0, pd_name = []\<rparr>"
  have "0 \<le> get_pci_slot_id ?pd" by (simp add: get_pci_slot_id_cases)
  with slot_lookup_correct [of ?pd ?pd] show ?thesis by blast
qed

end
