(* ===== verification/Ring_Poll.thy ===== *)
theory Ring_Poll
  imports Ring_Io
begin

section \<open>The polling loops: results, effects, termination\<close>

text \<open>
  What the two polling loops of \<open>amba_pci_platform_transfer.c\<close> deliver. They write nothing and
  take no resource; success means that the last register value read satisfied the condition;
  and on a kernel whose clock moves (\<open>steady_clock\<close>: \<open>usleep_range\<close> sleeps at least its lower
  bound, as documented) they always return.
\<close>

fun is_sleep :: "kcall \<Rightarrow> bool" where
  "is_sleep (KC_usleep_range lo hi) = True"
| "is_sleep (KC_msleep ms) = True"
| "is_sleep KC_cond_resched = True"
| "is_sleep c = False"

definition rcalls :: "'d world \<Rightarrow> (kcall \<times> int) list" where
  "rcalls w = filter (\<lambda>(c, r). \<not> is_sleep c) (calls w)"

lemma rcalls_frame [kframe]:
  "rcalls (ep_turn K w) = rcalls w"
  "rcalls (snd (readl K a w)) = rcalls w"
  "rcalls (writel K v a w) = rcalls w"
  "rcalls (memcpy_toio K a bs w) = rcalls w"
  "rcalls (kdo K c w) = rcalls w @ (if is_sleep c then [] else [(c, fst (kcall K c w))])"
  "rcalls (snd (kcall K c w)) = rcalls w @ (if is_sleep c then [] else [(c, fst (kcall K c w))])"
  by (simp_all add: rcalls_def kframe)

lemma ring_access_frame [kframe]:
  "iow (snd (pcie_ring_r32 K base off w)) = iow w"
  "rcalls (snd (pcie_ring_r32 K base off w)) = rcalls w"
  "iow (pcie_ring_w32 K base off v w) = iow w @ [Writel (base + off) v]"
  "rcalls (pcie_ring_w32 K base off v w) = rcalls w"
  by (simp_all add: pcie_ring_r32_def pcie_ring_w32_def pcie_ring_ptr_def kframe)

lemma r32_trc: "w_trc (snd (pcie_ring_r32 K base off w)) = w_trc w @ [Readl (base + off) (fst (pcie_ring_r32 K base off w))]"
  by (simp add: pcie_ring_r32_def pcie_ring_ptr_def readl_def Let_def)

lemma xfer_poll_read_frame [kframe]:
  "iow (snd (xfer_poll_read K base w)) = iow w"
  "rcalls (snd (xfer_poll_read K base w)) = rcalls w"
  by (auto simp: xfer_poll_read_def split: prod.splits dest: arg_cong [where f = snd])
     (metis ring_access_frame(1,2) snd_conv)+

subsection \<open>Waiting for a register\<close>

lemma wait_u32_loop_result:
  assumes "wait_u32_loop K base off want equal deadline w = Some (r, w')"
  shows "iow w' = iow w \<and> rcalls w' = rcalls w \<and>
    (r = - ETIMEDOUT \<or>
     r = 0 \<and> (\<exists>v t. w_trc w' = t @ [Readl (base + off) v] \<and> wait_done want equal v))"
proof -
  let ?P = "\<lambda>K base off want equal deadline w (r, w'). iow w' = iow w \<and> rcalls w' = rcalls w \<and>
    (r = - ETIMEDOUT \<or>
     r = 0 \<and> (\<exists>v t. w_trc w' = t @ [Readl (base + off) v] \<and> wait_done want equal v))"
  have "?P K base off want equal deadline w (r, w')"
  proof (rule wait_u32_loop.raw_induct [where P = ?P, OF _ assms])
    fix f K base off want equal deadline and w :: "'a world" and res
    assume IH: "\<And>K base off want equal deadline w y.
        f K base off want equal deadline w = Some y \<Longrightarrow> ?P K base off want equal deadline w y"
      and eq: "(if time_before (jiffies K w) deadline then
        (let val = fst (pcie_ring_r32 K base off w); w1 = snd (pcie_ring_r32 K base off w) in
         if wait_done want equal val then Some (0, w1)
         else f K base off want equal deadline
                (kdo K KC_cond_resched (kdo K (KC_usleep_range 1000 2000) w1)))
      else Some (- ETIMEDOUT, w)) = Some res"
    let ?w1 = "snd (pcie_ring_r32 K base off w)"
    let ?v = "fst (pcie_ring_r32 K base off w)"
    show "?P K base off want equal deadline w res"
    proof (cases "time_before (jiffies K w) deadline")
      case False
      with eq have "res = (- ETIMEDOUT, w)" by simp
      then show ?thesis by simp
    next
      case busy: True
      show ?thesis
      proof (cases "wait_done want equal ?v")
        case True
        with eq busy have "res = (0, ?w1)" by (simp add: Let_def)
        with True show ?thesis by (auto simp: kframe r32_trc)
      next
        case False
        with eq busy have "f K base off want equal deadline
            (kdo K KC_cond_resched (kdo K (KC_usleep_range 1000 2000) ?w1)) = Some res"
          by (simp add: Let_def)
        from IH [OF this] show ?thesis by (simp add: kframe split: prod.splits)
      qed
    qed
  qed
  then show ?thesis by simp
qed

lemma wait_u32_result:
  assumes "pcie_ring_wait_u32 K base off want equal ms w = Some (r, w')"
  shows "iow w' = iow w" "rcalls w' = rcalls w" "r = 0 \<or> r = - ETIMEDOUT"
    "r = 0 \<Longrightarrow> \<exists>v t. w_trc w' = t @ [Readl (base + off) v] \<and> wait_done want equal v"
  using wait_u32_loop_result assms unfolding pcie_ring_wait_u32_def by fastforce+

subsection \<open>Waiting for the ring to drain\<close>

lemma xfer_poll_loop_result:
  assumes "xfer_poll_loop K base deadline w = Some (r, w')"
  shows "iow w' = iow w \<and> rcalls w' = rcalls w \<and>
    (r = - ETIMEDOUT \<or> r = 0 \<and> (\<exists>w0. w' = snd (xfer_poll_read K base w0) \<and> fst (xfer_poll_read K base w0)))"
proof -
  let ?P = "\<lambda>K base deadline w (r, w'). iow w' = iow w \<and> rcalls w' = rcalls w \<and>
    (r = - ETIMEDOUT \<or> r = 0 \<and> (\<exists>w0. w' = snd (xfer_poll_read K base w0) \<and> fst (xfer_poll_read K base w0)))"
  have "?P K base deadline w (r, w')"
  proof (rule xfer_poll_loop.raw_induct [where P = ?P, OF _ assms])
    fix f K base deadline and w :: "'a world" and res
    assume IH: "\<And>K base deadline w y. f K base deadline w = Some y \<Longrightarrow> ?P K base deadline w y"
      and eq: "(if time_before (jiffies K w) deadline then
        (let idle = fst (xfer_poll_read K base w); w1 = snd (xfer_poll_read K base w) in
         if idle then Some (0, w1)
         else f K base deadline
                (kdo K KC_cond_resched (kdo K (KC_usleep_range 1000 2000) w1)))
      else Some (- ETIMEDOUT, w)) = Some res"
    let ?w1 = "snd (xfer_poll_read K base w)"
    show "?P K base deadline w res"
    proof (cases "time_before (jiffies K w) deadline")
      case False
      with eq have "res = (- ETIMEDOUT, w)" by simp
      then show ?thesis by simp
    next
      case busy: True
      show ?thesis
      proof (cases "fst (xfer_poll_read K base w)")
        case True
        with eq busy have "res = (0, ?w1)" by (simp add: Let_def)
        with True show ?thesis by (auto simp: kframe)
      next
        case False
        with eq busy have "f K base deadline
            (kdo K KC_cond_resched (kdo K (KC_usleep_range 1000 2000) ?w1)) = Some res"
          by (simp add: Let_def)
        from IH [OF this] show ?thesis by (simp add: kframe split: prod.splits)
      qed
    qed
  qed
  then show ?thesis by simp
qed

lemma xfer_poll_result:
  assumes "pcie_ring_xfer_poll K base ms w = Some (r, w')"
  shows "iow w' = iow w" "rcalls w' = rcalls w" "r = 0 \<or> r = - ETIMEDOUT"
    "r = 0 \<Longrightarrow> \<exists>w0. w' = snd (xfer_poll_read K base w0) \<and> fst (xfer_poll_read K base w0)"
  using xfer_poll_loop_result assms unfolding pcie_ring_xfer_poll_def by fastforce+

subsection \<open>The clock and termination\<close>

text \<open>
  \<open>us\<close> reads the monotonic clock in microseconds off the outside state, \<open>tick\<close> is the length of
  a jiffy. The kernel documents: jiffies count ticks; the clock never goes back;
  \<open>usleep_range\<close> sleeps at least its lower bound. No millisecond sleep, reschedule or endpoint
  action takes \<open>2^58\<close> microseconds (nine thousand years), and the timeouts in jiffies fit a long.
\<close>

definition steady_clock :: "'d kernel \<Rightarrow> ('d \<Rightarrow> nat) \<Rightarrow> nat \<Rightarrow> bool" where
  "steady_clock K us tick \<longleftrightarrow>
     0 < tick \<and>
     (\<forall>d. k_jiffies K d = of_nat (us d div tick)) \<and>
     (\<forall>c d. us d \<le> us (snd (k_call K c d))) \<and>
     (\<forall>c \<in> {KC_usleep_range 1000 2000, KC_cond_resched}. \<forall>d. us (snd (k_call K c d)) \<le> us d + 2 ^ 58) \<and>
     (\<forall>lo hi d. us d + lo \<le> us (snd (k_call K (KC_usleep_range lo hi) d))) \<and>
     (\<forall>d m. us d \<le> us (fst (k_ep K d m)) \<and> us (fst (k_ep K d m)) \<le> us d + 2 ^ 58) \<and>
     (\<forall>ms. unat (k_msecs K ms) < 2 ^ 62)"

lemma time_before_nat:
  assumes "j < d + 2 ^ 62" "d < j + 2 ^ 62"
  shows "time_before (of_nat j) (of_nat d) \<longleftrightarrow> j < d"
proof -
  have eq: "(of_nat j - of_nat d :: u64) = of_int (int j - int d)" by simp
  have "sint (of_int (int j - int d) :: u64) = signed_take_bit (LENGTH(64) - 1) (int j - int d)"
    by (rule sint_sbintrunc')
  also have "\<dots> = int j - int d"
    by (rule signed_take_bit_int_eq_self) (use assms in simp_all)
  finally have "sint (of_int (int j - int d) :: u64) < 0 \<longleftrightarrow> j < d" by simp
  then show ?thesis unfolding time_before_def eq .
qed

text \<open>Both loops have one shape: probe until the condition holds or the deadline has passed,
  sleeping at least a millisecond in between.\<close>

locale poll_loop =
  fixes K :: "'d kernel"
    and loop :: "u64 \<Rightarrow> 'd world \<Rightarrow> (int \<times> 'd world) option"
    and probe :: "'d world \<Rightarrow> bool \<times> 'd world"
  assumes loop_unfold: "loop deadline w =
      (if time_before (jiffies K w) deadline then
         (if fst (probe w) then Some (0, snd (probe w))
          else loop deadline (kdo K KC_cond_resched (kdo K (KC_usleep_range 1000 2000) (snd (probe w)))))
       else Some (- ETIMEDOUT, w))"
    and probe_clock: "steady_clock K us tick \<Longrightarrow>
      us (w_out w) \<le> us (w_out (snd (probe w))) \<and> us (w_out (snd (probe w))) \<le> us (w_out w) + 3 * 2 ^ 58"
begin

lemma round_clock:
  assumes "steady_clock K us tick"
    and "w' = kdo K KC_cond_resched (kdo K (KC_usleep_range 1000 2000) (snd (probe w)))"
  shows "us (w_out w) + 1000 \<le> us (w_out w')" "us (w_out w') \<le> us (w_out w) + 5 * 2 ^ 58"
proof -
  let ?d = "w_out (snd (probe w))"
  let ?d1 = "snd (k_call K (KC_usleep_range 1000 2000) ?d)"
  have out: "w_out w' = snd (k_call K KC_cond_resched ?d1)"
    by (simp add: assms(2) kdo_def kcall_def split: prod.splits)
  have "us (w_out w) \<le> us ?d" "us ?d \<le> us (w_out w) + 3 * 2 ^ 58"
    using probe_clock [OF assms(1)] by blast+
  moreover have "us ?d + 1000 \<le> us ?d1" "us ?d1 \<le> us ?d + 2 ^ 58"
    "us ?d1 \<le> us (w_out w')" "us (w_out w') \<le> us ?d1 + 2 ^ 58"
    using assms(1) unfolding steady_clock_def out by blast+
  ultimately show "us (w_out w) + 1000 \<le> us (w_out w')" "us (w_out w') \<le> us (w_out w) + 5 * 2 ^ 58"
    by linarith+
qed

lemma loop_returns:
  assumes clk: "steady_clock K us tick"
  shows "us (w_out w) div tick < D + 2 ^ 62 \<Longrightarrow> D < us (w_out w) div tick + 2 ^ 62 \<Longrightarrow>
    \<exists>r w'. loop (of_nat D) w = Some (r, w')"
proof (induction "D * tick - us (w_out w)" arbitrary: w rule: less_induct)
  case less
  let ?J = "us (w_out w) div tick"
  have tick: "0 < tick" and jif: "jiffies K w = of_nat ?J"
    using clk by (simp_all add: steady_clock_def jiffies_def)
  have tb: "time_before (jiffies K w) (of_nat D) \<longleftrightarrow> ?J < D"
    unfolding jif using less.prems by (rule time_before_nat)
  show ?case
  proof (cases "?J < D \<and> \<not> fst (probe w)")
    case False
    then show ?thesis using tb by (auto simp: loop_unfold [of "of_nat D" w])
  next
    case True
    define w1 where "w1 = kdo K KC_cond_resched (kdo K (KC_usleep_range 1000 2000) (snd (probe w)))"
    note step = round_clock [OF clk w1_def]
    have "us (w_out w) < D * tick"
      using True tick by (simp add: div_less_iff_less_mult)
    then have dec: "D * tick - us (w_out w1) < D * tick - us (w_out w)" using step(1) by linarith
    have "us (w_out w1) div tick \<le> (us (w_out w) + 5 * 2 ^ 58) div tick"
      using step(2) by (rule div_le_mono)
    also have "\<dots> \<le> ?J + 5 * 2 ^ 58 + 1"
    proof -
      have "us (w_out w) + 5 * 2 ^ 58 < (?J + 5 * 2 ^ 58 + 1) * tick"
      proof -
        have "us (w_out w) = ?J * tick + us (w_out w) mod tick" by simp
        moreover have "us (w_out w) mod tick < tick" using tick by simp
        moreover have "5 * 2 ^ 58 * 1 \<le> 5 * 2 ^ 58 * tick" using tick by (intro mult_le_mono2) simp
        ultimately show ?thesis unfolding add_mult_distrib by linarith
      qed
      then show ?thesis using tick by (simp add: div_less_iff_less_mult [symmetric])
    qed
    finally have hi: "us (w_out w1) div tick < D + 2 ^ 62" using True by simp
    have "?J \<le> us (w_out w1) div tick" using step(1) by (intro div_le_mono) simp
    with less.prems(2) have lo: "D < us (w_out w1) div tick + 2 ^ 62" by linarith
    from less.hyps [OF dec hi lo] True tb show ?thesis
      by (simp add: loop_unfold [of "of_nat D" w] w1_def [symmetric])
  qed
qed

lemma timed_loop_returns:
  assumes clk: "steady_clock K us tick"
  shows "\<exists>r w'. loop (jiffies K w + k_msecs K ms) w = Some (r, w')"
proof -
  let ?D = "us (w_out w) div tick + unat (k_msecs K ms)"
  have "unat (k_msecs K ms) < 2 ^ 62" using clk unfolding steady_clock_def by blast
  then have "\<exists>r w'. loop (of_nat ?D) w = Some (r, w')"
    by (intro loop_returns [OF clk]) simp_all
  moreover have "of_nat ?D = jiffies K w + k_msecs K ms"
    using clk by (simp add: steady_clock_def jiffies_def)
  ultimately show ?thesis by simp
qed

end

lemma ep_turn_clock:
  assumes "steady_clock K us tick"
  shows "us (w_out w) \<le> us (w_out (ep_turn K w))" "us (w_out (ep_turn K w)) \<le> us (w_out w) + 2 ^ 58"
  using assms by (simp_all add: steady_clock_def ep_turn_def split: prod.splits)
    (metis fst_conv)+

lemma r32_clock:
  assumes "steady_clock K us tick"
  shows "us (w_out w) \<le> us (w_out (snd (pcie_ring_r32 K base off w)))"
    "us (w_out (snd (pcie_ring_r32 K base off w))) \<le> us (w_out w) + 2 ^ 58"
  using ep_turn_clock [OF assms, of w]
  by (simp_all add: pcie_ring_r32_def readl_def Let_def)

lemma xfer_poll_read_out:
  "w_out (snd (xfer_poll_read K base w)) =
     w_out (snd (pcie_ring_r32 K base RH_AVAIL_OFF (snd (pcie_ring_r32 K base RH_NUM_OFF
       (snd (pcie_ring_r32 K base RH_USED_OFF w))))))"
  by (simp add: xfer_poll_read_def split: prod.splits)

interpretation wait: poll_loop K "wait_u32_loop K base off want equal"
  "\<lambda>w. (wait_done want equal (fst (pcie_ring_r32 K base off w)), snd (pcie_ring_r32 K base off w))"
  for K base off want equal
proof (unfold_locales, goal_cases)
  case (1 deadline w)
  show ?case by (subst wait_u32_loop.simps) (simp add: Let_def)
next
  case (2 us tick w)
  then show ?case
    using r32_clock [OF 2, where w = w and base = base and off = off] by simp
qed

interpretation drain: poll_loop K "xfer_poll_loop K base" "xfer_poll_read K base" for K base
proof (unfold_locales, goal_cases)
  case (1 deadline w)
  show ?case by (subst xfer_poll_loop.simps) (simp add: Let_def)
next
  case (2 us tick w)
  let ?w1 = "snd (pcie_ring_r32 K base RH_USED_OFF w)"
  let ?w2 = "snd (pcie_ring_r32 K base RH_NUM_OFF ?w1)"
  show ?case
    unfolding xfer_poll_read_out
    using r32_clock [OF 2, where w = w and base = base and off = RH_USED_OFF] r32_clock [OF 2, where w = ?w1 and base = base and off = RH_NUM_OFF]
      r32_clock [OF 2, where w = ?w2 and base = base and off = RH_AVAIL_OFF] by linarith
qed

lemma wait_u32_returns:
  "steady_clock K us tick \<Longrightarrow> \<exists>r w'. pcie_ring_wait_u32 K base off want equal ms w = Some (r, w')"
  unfolding pcie_ring_wait_u32_def by (rule wait.timed_loop_returns)

lemma xfer_poll_returns:
  "steady_clock K us tick \<Longrightarrow> \<exists>r w'. pcie_ring_xfer_poll K base ms w = Some (r, w')"
  unfolding pcie_ring_xfer_poll_def by (rule drain.timed_loop_returns)

end
