(* ===== verification/Demo_Kernel.thy ===== *)
theory Demo_Kernel
  imports Ring_Poll
begin

section \<open>A concrete environment\<close>

text \<open>
  One kernel and endpoint on which the hypotheses of the development's theorems hold together,
  for their witnesses: a clock of 250 ticks per second in microseconds, services that succeed,
  user memory at addresses 0x1000 to 0x1fff, and an endpoint that keeps showing one ring header
  at address 0x10000 (magic, online, 4 descriptors, 4 blocks, drained).
\<close>

fun demo_call :: "kcall \<Rightarrow> nat \<Rightarrow> int \<times> nat" where
  "demo_call (KC_usleep_range lo hi) d = (0, d + lo)"
| "demo_call (KC_msleep ms) d = (0, d + 1000 * ms)"
| "demo_call (KC_kmalloc n) d = (1, d)"
| "demo_call (KC_vmalloc n) d = (1, d)"
| "demo_call (KC_pci_iomap p b l) d = (0x10000, d)"
| "demo_call (KC_proc_mkdir s) d = (1, d)"
| "demo_call (KC_proc_create s t) d = (1, d)"
| "demo_call KC_class_create d = (1, d)"
| "demo_call (KC_device_create n) d = (1, d)"
| "demo_call (KC_symbol_get s) d = (1, d)"
| "demo_call (KC_filp_open p) d = (1, d)"
| "demo_call c d = (0, d)"

definition demo_header :: "u32 \<Rightarrow> u32 \<Rightarrow> iomem" where
  "demo_header num max_blk =
     write_bytes (\<lambda>_. 0) 0x10000
       (to_le 4 (0x61626d61 :: u32) @ to_le 4 (1 :: u32) @ to_le 4 (10 :: u32) @ to_le 4 (10 - num) @
        to_le 4 num @ to_le 4 max_blk)"

definition demo_kernel :: "nat kernel" where
  "demo_kernel =
     \<lparr>k_call = demo_call, k_ep = (\<lambda>d m. (d, demo_header 4 4)),
      k_jiffies = (\<lambda>d. of_nat (d div 4000)), k_msecs = (\<lambda>ms. ucast ms div 4),
      k_user = (\<lambda>a. if 0x1000 \<le> a \<and> a < 0x2000 then Some (ucast (a - 0x1000)) else None),
      k_res = (\<lambda>d p b. \<lparr>r_start = 0x10000, r_len = 0x1000, r_flags = 0x200, r_parent = True\<rparr>),
      k_read = (\<lambda>d pos n. Inr []), k_junk = (\<lambda>n. replicate n 0xaa)\<rparr>"

lemma demo_fields [simp]:
  "k_call demo_kernel = demo_call"
  "k_ep demo_kernel d m = (d, demo_header 4 4)"
  "k_jiffies demo_kernel d = of_nat (d div 4000)"
  "k_msecs demo_kernel ms = ucast ms div 4"
  "k_user demo_kernel a = (if 0x1000 \<le> a \<and> a < 0x2000 then Some (ucast (a - 0x1000)) else None)"
  "k_res demo_kernel d p b = \<lparr>r_start = 0x10000, r_len = 0x1000, r_flags = 0x200, r_parent = True\<rparr>"
  "k_read demo_kernel d pos n = Inr []"
  "k_junk demo_kernel n = replicate n 0xaa"
  by (simp_all add: demo_kernel_def)

definition demo_world :: "nat world" where
  "demo_world = \<lparr>w_io = (\<lambda>_. 0), w_out = 0, w_trc = []\<rparr>"

lemma demo_call_mono: "d \<le> snd (demo_call c d)"
  by (cases "(c, d)" rule: demo_call.cases) simp_all

lemma demo_steady: "steady_clock demo_kernel id 4000"
proof -
  have "unat (ucast ms div 4 :: u64) < 2 ^ 62" for ms :: u32
    using unat_u32_less [of ms] by (simp add: unat_div)
  then show ?thesis
    unfolding steady_clock_def by (simp add: demo_call_mono)
qed

lemma to_le_4: "to_le 4 (w :: u32) = [ucast w, ucast (drop_bit 8 w), ucast (drop_bit 16 w), ucast (drop_bit 24 w)]"
  by (simp add: numeral_eq_Suc)

lemma read_bytes_4: "read_bytes m a 4 = [m a, m (a + 1), m (a + 2), m (a + 3)]"
  by (simp add: numeral_eq_Suc ac_simps)

lemma demo_header_reads [simp]:
  "from_le (read_bytes (demo_header 4 4) 0x10000 4) = (0x61626d61 :: u32)"
  "from_le (read_bytes (demo_header 4 4) 0x10004 4) = (1 :: u32)"
  "from_le (read_bytes (demo_header 4 4) 0x10008 4) = (10 :: u32)"
  "from_le (read_bytes (demo_header 4 4) 0x1000c 4) = (6 :: u32)"
  "from_le (read_bytes (demo_header 4 4) 0x10010 4) = (4 :: u32)"
  "from_le (read_bytes (demo_header 4 4) 0x10014 4) = (4 :: u32)"
  by (simp_all add: demo_header_def to_le_4 read_bytes_4)

lemmas demo_eval = demo_world_def jiffies_def time_before_def
  readl_def writel_def memcpy_toio_def ep_turn_def kcall_def kdo_def Let_def wait_done_def
  pcie_ring_r32_def pcie_ring_w32_def pcie_ring_ptr_def pcie_ring_wait_u32_def pcie_ring_xfer_poll_def
  xfer_poll_read_def

lemma demo_wait: "\<exists>w'. pcie_ring_wait_u32 demo_kernel 0x10000 RH_MAGIC_OFF RING_MAGIC True 5000 demo_world = Some (0, w')"
  by (simp add: demo_eval wait_u32_loop.simps)

end
