(* ===== verification/Boot_Bar.thy ===== *)
theory Boot_Bar
  imports Ring_Poll Demo_Kernel
begin

section \<open>Mapping the boot BAR\<close>

text \<open>
  \<open>amba_pci_platform_transfer.c\<close>, lines 47 to 164: enabling memory access in the command
  register, choosing the first memory BAR, mapping it with retries while the PCI core has not
  assigned it yet, and unmapping. The functions take the dereferenced \<open>e->pdev\<close> as the extra
  argument \<open>pd\<close>; their caller has checked it.
\<close>

abbreviation (input) PCI_COMMAND :: nat where "PCI_COMMAND \<equiv> 4"
abbreviation (input) PCI_STD_NUM_BARS :: nat where "PCI_STD_NUM_BARS \<equiv> 6"
abbreviation (input) IORESOURCE_MEM :: u64 where "IORESOURCE_MEM \<equiv> 0x200"
abbreviation (input) IORESOURCE_UNSET :: u64 where "IORESOURCE_UNSET \<equiv> 0x20000000"
abbreviation (input) PCIE_BOOT_BAR_MAP_RETRY_MAX :: nat where "PCIE_BOOT_BAR_MAP_RETRY_MAX \<equiv> 3"
abbreviation (input) PCIE_BOOT_BAR_MAP_RETRY_MS :: nat where "PCIE_BOOT_BAR_MAP_RETRY_MS \<equiv> 50"

definition pcie_enable_mem_io_resource :: "'d kernel \<Rightarrow> pci_dev \<Rightarrow> 'd world \<Rightarrow> int \<times> 'd world" where
  "pcie_enable_mem_io_resource K pd w =
     (let (err, w1) = kcall K (KC_pci_write_config_byte (pd_handle pd) PCI_COMMAND 0x06) w
      in if err \<noteq> 0 then (err, w1)
         else let (err, w2) = kcall K (KC_pci_write_config_byte (pd_handle pd) PCI_COMMAND 0x07)
                                (kdo K (KC_msleep 100) w1)
              in if err \<noteq> 0 then (err, w2)
                 else let (err, w3) = kcall K (KC_pci_write_config_byte (pd_handle pd) PCI_COMMAND 0x06)
                                        (kdo K (KC_msleep 100) w2)
                      in if err \<noteq> 0 then (err, w3) else (0, kdo K (KC_msleep 100) w3))"

definition pcie_boot_bar_find :: "'d kernel \<Rightarrow> pci_dev \<Rightarrow> 'd world \<Rightarrow> (int \<times> u64) option" where
  "pcie_boot_bar_find K pd w =
     (case find (\<lambda>i. r_flags (k_res K (w_out w) (pd_handle pd) i) AND IORESOURCE_MEM \<noteq> 0 \<and>
                     r_len (k_res K (w_out w) (pd_handle pd) i) \<noteq> 0) [0..<PCI_STD_NUM_BARS] of
        None \<Rightarrow> None
      | Some i \<Rightarrow> Some (int i, r_len (k_res K (w_out w) (pd_handle pd) i)))"

definition map_chosen_bar ::
  "'d kernel \<Rightarrow> pci_dev \<Rightarrow> pcie_dev_entry \<Rightarrow> 'd world \<Rightarrow> (int \<times> pcie_dev_entry) \<times> 'd world" where
  "map_chosen_bar K pd e w =
     (let res = k_res K (w_out w) (pd_handle pd) (nat (e_boot_bar e))
      in if r_flags res AND IORESOURCE_UNSET \<noteq> 0 \<or> \<not> r_parent res \<or> r_start res = 0
         then ((- ENXIO, e), w)
         else let (ret, w1) = pcie_enable_mem_io_resource K pd w
              in if ret \<noteq> 0 then ((ret, e), w1)
                 else let (p, w2) = kcall K (KC_pci_iomap (pd_handle pd) (nat (e_boot_bar e)) (e_boot_len e)) w1;
                          e1 = e\<lparr>e_boot_mem_base := of_int p\<rparr>
                      in if e_boot_mem_base e1 = 0 then ((- EIO, e1), w2) else ((0, e1), w2))"

definition pcie_map_boot_bar ::
  "'d kernel \<Rightarrow> pci_dev \<Rightarrow> pcie_dev_entry \<Rightarrow> 'd world \<Rightarrow> (int \<times> pcie_dev_entry) \<times> 'd world" where
  "pcie_map_boot_bar K pd e w =
     (if e_boot_bar e < 0 \<or> e_boot_len e = 0 then
        (case pcie_boot_bar_find K pd w of
           None \<Rightarrow> ((- ENXIO, e), w)
         | Some (bar, len) \<Rightarrow> map_chosen_bar K pd (e\<lparr>e_boot_bar := bar, e_boot_len := len\<rparr>) w)
      else map_chosen_bar K pd e w)"

fun map_attempts ::
  "'d kernel \<Rightarrow> pci_dev \<Rightarrow> nat \<Rightarrow> int \<Rightarrow> pcie_dev_entry \<Rightarrow> 'd world \<Rightarrow> (int \<times> pcie_dev_entry) \<times> 'd world" where
  "map_attempts K pd 0 ret e w = ((ret, e), w)"
| "map_attempts K pd (Suc n) ret e w =
     (let ((ret1, e1), w1) = pcie_map_boot_bar K pd e w
      in if ret1 = 0 then ((ret1, e1), w1)
         else if ret1 \<noteq> - ENXIO then ((ret1, e1), w1)
         else map_attempts K pd n ret1 e1 (kdo K (KC_msleep PCIE_BOOT_BAR_MAP_RETRY_MS) w1))"

definition pcie_boot_bar_ensure_mapped ::
  "'d kernel \<Rightarrow> pci_dev \<Rightarrow> pcie_dev_entry \<Rightarrow> 'd world \<Rightarrow> (int \<times> pcie_dev_entry) \<times> 'd world" where
  "pcie_boot_bar_ensure_mapped K pd e w =
     (if e_boot_mem_base e \<noteq> 0 then ((0, e), w)
      else let ((ret, e1), w1) = map_attempts K pd PCIE_BOOT_BAR_MAP_RETRY_MAX 0 e w
           in if ret = - ENXIO then ((- ETIMEDOUT, e1), w1) else ((ret, e1), w1))"

definition pcie_boot_bar_unmap ::
  "'d kernel \<Rightarrow> pcie_dev_entry \<Rightarrow> 'd world \<Rightarrow> pcie_dev_entry \<times> 'd world" where
  "pcie_boot_bar_unmap K e w =
     (if e_boot_mem_base e = 0 then (e, w)
      else (e\<lparr>e_boot_mem_base := 0\<rparr>,
            kdo K (KC_pci_iounmap (case e_pdev e of None \<Rightarrow> 0 | Some pd \<Rightarrow> pd_handle pd) (e_boot_mem_base e)) w))"

subsection \<open>Results\<close>

text \<open>Mapping touches the three BAR fields of an entry and nothing else, and writes no register.\<close>

definition same_but_bar :: "pcie_dev_entry \<Rightarrow> pcie_dev_entry \<Rightarrow> bool" where
  "same_but_bar e e' \<longleftrightarrow>
     (\<exists>b l m. e' = e\<lparr>e_boot_bar := b, e_boot_len := l, e_boot_mem_base := m\<rparr>)"

lemma same_but_bar_refl [simp]: "same_but_bar e e"
  unfolding same_but_bar_def
  by (intro exI [of _ "e_boot_bar e"] exI [of _ "e_boot_len e"] exI [of _ "e_boot_mem_base e"]) simp

lemma same_but_bar_trans: "same_but_bar e f \<Longrightarrow> same_but_bar f g \<Longrightarrow> same_but_bar e g"
  unfolding same_but_bar_def by (elim exE) (rule exI, rule exI, rule exI, simp)

lemma same_but_bar_upd [simp]:
  "same_but_bar e (e\<lparr>e_boot_bar := b, e_boot_len := l\<rparr>)"
  "same_but_bar e (e\<lparr>e_boot_mem_base := m\<rparr>)"
  unfolding same_but_bar_def
  by (intro exI [of _ b] exI [of _ l] exI [of _ "e_boot_mem_base e"], simp)
     (intro exI [of _ "e_boot_bar e"] exI [of _ "e_boot_len e"] exI [of _ m], simp)

lemma same_but_bar_fields:
  "same_but_bar e e' \<Longrightarrow> e_pdev e' = e_pdev e \<and> e_id e' = e_id e \<and> e_in_use e' = e_in_use e \<and>
     e_state e' = e_state e \<and> e_proc_dir e' = e_proc_dir e \<and> e_proc_name e' = e_proc_name e \<and>
     e_phy_slot e' = e_phy_slot e \<and> e_board_info e' = e_board_info e \<and>
     e_board_info_is_updated e' = e_board_info_is_updated e \<and> e_work_pending e' = e_work_pending e"
  by (auto simp: same_but_bar_def)

lemma find_upt_bound: "find P [0..<n] = Some i \<Longrightarrow> i < n \<and> P i \<and> (\<forall>j < i. \<not> P j)"
  by (auto simp: find_Some_iff)

lemma pcie_boot_bar_find_Some:
  "pcie_boot_bar_find K pd w = Some (bar, len) \<Longrightarrow>
     0 \<le> bar \<and> bar < 6 \<and> len \<noteq> 0 \<and> len = r_len (k_res K (w_out w) (pd_handle pd) (nat bar))"
  unfolding pcie_boot_bar_find_def
  by (auto split: option.splits dest!: find_upt_bound)

lemma enable_mem_frame:
  "iow (snd (pcie_enable_mem_io_resource K pd w)) = iow w"
  by (simp add: pcie_enable_mem_io_resource_def Let_def case_prod_beta kframe)

lemma map_chosen_bar_result:
  assumes "map_chosen_bar K pd e w = ((r, e'), w')" "e_boot_mem_base e = 0"
  shows "same_but_bar e e'" "iow w' = iow w" "r = 0 \<longleftrightarrow> e_boot_mem_base e' \<noteq> 0"
    "e_boot_bar e' = e_boot_bar e" "e_boot_len e' = e_boot_len e"
  using assms
  by (auto simp: map_chosen_bar_def Let_def case_prod_beta kframe enable_mem_frame split: if_splits)

definition bar_chosen :: "pcie_dev_entry \<Rightarrow> bool" where
  "bar_chosen e \<longleftrightarrow> 0 \<le> e_boot_bar e \<and> e_boot_bar e < 6 \<and> e_boot_len e \<noteq> 0"

lemma map_boot_bar_result:
  assumes "pcie_map_boot_bar K pd e w = ((r, e'), w')" "e_boot_mem_base e = 0" "e_boot_bar e < 6"
  shows "same_but_bar e e'" "iow w' = iow w" "r = 0 \<longleftrightarrow> e_boot_mem_base e' \<noteq> 0"
    "e_boot_bar e' < 6" "r = 0 \<Longrightarrow> bar_chosen e'"
proof -
  consider (none) "pcie_boot_bar_find K pd w = None" "r = - ENXIO" "e' = e" "w' = w"
    | (found) bar len where "pcie_boot_bar_find K pd w = Some (bar, len)"
        "map_chosen_bar K pd (e\<lparr>e_boot_bar := bar, e_boot_len := len\<rparr>) w = ((r, e'), w')"
    | (kept) "\<not> (e_boot_bar e < 0 \<or> e_boot_len e = 0)" "map_chosen_bar K pd e w = ((r, e'), w')"
    using assms(1) unfolding pcie_map_boot_bar_def
    by (auto split: if_splits option.splits)
  then have "same_but_bar e e' \<and> iow w' = iow w \<and> (r = 0 \<longleftrightarrow> e_boot_mem_base e' \<noteq> 0) \<and>
    e_boot_bar e' < 6 \<and> (r = 0 \<longrightarrow> bar_chosen e')"
  proof cases
    case none
    then show ?thesis using assms(2,3) by simp
  next
    case found
    note f = pcie_boot_bar_find_Some [OF found(1)]
    from map_chosen_bar_result [OF found(2)] assms(2) f
    show ?thesis by (auto simp: bar_chosen_def intro: same_but_bar_trans [OF same_but_bar_upd(1)])
  next
    case kept
    from map_chosen_bar_result [OF kept(2) assms(2)] kept(1) assms(3)
    show ?thesis by (auto simp: bar_chosen_def)
  qed
  then show "same_but_bar e e'" "iow w' = iow w" "r = 0 \<longleftrightarrow> e_boot_mem_base e' \<noteq> 0"
    "e_boot_bar e' < 6" "r = 0 \<Longrightarrow> bar_chosen e'" by auto
qed


subsection \<open>Kernel calls of a mapping\<close>

text \<open>The calls a successful mapping ends with: memory decoding switched on, off and on again in
  the command register, each write answered with 0, then the mapping itself.\<close>

definition enable_calls :: "nat \<Rightarrow> (kcall \<times> int) list \<Rightarrow> bool" where
  "enable_calls p cs \<longleftrightarrow> (\<exists>q1 q2 q3. cs =
     [(KC_pci_write_config_byte p PCI_COMMAND 6, 0), (KC_msleep 100, q1),
      (KC_pci_write_config_byte p PCI_COMMAND 7, 0), (KC_msleep 100, q2),
      (KC_pci_write_config_byte p PCI_COMMAND 6, 0), (KC_msleep 100, q3)])"

definition mapping_calls :: "nat \<Rightarrow> pcie_dev_entry \<Rightarrow> (kcall \<times> int) list \<Rightarrow> bool" where
  "mapping_calls p e cs \<longleftrightarrow>
     (\<exists>ds base. enable_calls p ds \<and> of_int base = e_boot_mem_base e \<and> e_boot_mem_base e \<noteq> 0 \<and>
        cs = ds @ [(KC_pci_iomap p (nat (e_boot_bar e)) (e_boot_len e), base)])"

fun is_retry_sleep :: "kcall \<times> int \<Rightarrow> bool" where
  "is_retry_sleep (KC_msleep ms, r) \<longleftrightarrow> ms = PCIE_BOOT_BAR_MAP_RETRY_MS"
| "is_retry_sleep (c, r) \<longleftrightarrow> False"

definition config_failed :: "nat \<Rightarrow> int \<Rightarrow> (kcall \<times> int) list \<Rightarrow> bool" where
  "config_failed p r cs \<longleftrightarrow> r \<noteq> 0 \<and> (\<exists>v. (KC_pci_write_config_byte p PCI_COMMAND v, r) \<in> set cs)"

lemma config_failed_append [simp]:
  "config_failed p r (cs @ ds) \<longleftrightarrow> config_failed p r cs \<or> config_failed p r ds"
  by (auto simp: config_failed_def)

lemma enable_mem_calls:
  assumes "pcie_enable_mem_io_resource K pd w = (r, w')"
  shows "\<exists>cs. calls w' = calls w @ cs \<and> filter is_retry_sleep cs = [] \<and>
    (if r = 0 then enable_calls (pd_handle pd) cs else config_failed (pd_handle pd) r cs)"
proof -
  let ?c = "\<lambda>v. KC_pci_write_config_byte (pd_handle pd) PCI_COMMAND v"
  obtain r1 w1 where c1: "kcall K (?c 6) w = (r1, w1)" by (metis prod.exhaust)
  obtain q1 w1s where s1: "kcall K (KC_msleep 100) w1 = (q1, w1s)" by (metis prod.exhaust)
  obtain r2 w2 where c2: "kcall K (?c 7) w1s = (r2, w2)" by (metis prod.exhaust)
  obtain q2 w2s where s2: "kcall K (KC_msleep 100) w2 = (q2, w2s)" by (metis prod.exhaust)
  obtain r3 w3 where c3: "kcall K (?c 6) w2s = (r3, w3)" by (metis prod.exhaust)
  obtain q3 w3s where s3: "kcall K (KC_msleep 100) w3 = (q3, w3s)" by (metis prod.exhaust)
  note trc = kcallD [OF c1] kcallD [OF s1] kcallD [OF c2] kcallD [OF s2] kcallD [OF c3] kcallD [OF s3]
  have d: "kdo K (KC_msleep 100) w1 = w1s" "kdo K (KC_msleep 100) w2 = w2s" "kdo K (KC_msleep 100) w3 = w3s"
    using s1 s2 s3 by (simp_all add: kdo_def)
  have res: "(r, w') = (if r1 \<noteq> 0 then (r1, w1) else if r2 \<noteq> 0 then (r2, w2)
      else if r3 \<noteq> 0 then (r3, w3) else (0, w3s))"
    unfolding assms [symmetric]
    by (simp only: pcie_enable_mem_io_resource_def Let_def c1 c2 c3 prod.case d)
  consider "r1 \<noteq> 0" | "r1 = 0" "r2 \<noteq> 0" | "r1 = 0" "r2 = 0" "r3 \<noteq> 0" | "r1 = 0" "r2 = 0" "r3 = 0" by blast
  then show ?thesis
    by cases (use res trc in \<open>auto simp: config_failed_def enable_calls_def\<close>)
qed

lemma map_chosen_bar_calls:
  assumes "map_chosen_bar K pd e w = ((r, e'), w')" "e_boot_mem_base e = 0" "0 \<le> e_boot_bar e"
  shows "\<exists>cs. calls w' = calls w @ cs \<and> filter is_retry_sleep cs = [] \<and>
    (r = 0 \<and> mapping_calls (pd_handle pd) e' cs \<or>
     r = - ENXIO \<or> r = - EIO \<or> config_failed (pd_handle pd) r cs)"
proof -
  obtain r1 w1 where en: "pcie_enable_mem_io_resource K pd w = (r1, w1)" by (metis prod.exhaust)
  obtain p w2 where io: "kcall K (KC_pci_iomap (pd_handle pd) (nat (e_boot_bar e)) (e_boot_len e)) w1 = (p, w2)"
    by (metis prod.exhaust)
  from enable_mem_calls [OF en] obtain cs where cs: "calls w1 = calls w @ cs" "filter is_retry_sleep cs = []"
    "if r1 = 0 then enable_calls (pd_handle pd) cs else config_failed (pd_handle pd) r1 cs" by blast
  let ?e1 = "e\<lparr>e_boot_mem_base := of_int p\<rparr>"
  define res where "res = k_res K (w_out w) (pd_handle pd) (nat (e_boot_bar e))"
  define unset where "unset \<longleftrightarrow> r_flags res AND IORESOURCE_UNSET \<noteq> 0 \<or> \<not> r_parent res \<or> r_start res = 0"
  have res: "((r, e'), w') =
      (if unset then ((- ENXIO, e), w) else if r1 \<noteq> 0 then ((r1, e), w1)
       else if of_int p = (0 :: u64) then ((- EIO, ?e1), w2) else ((0, ?e1), w2))"
    unfolding assms(1) [symmetric] by (simp add: map_chosen_bar_def Let_def en io res_def unset_def)
  consider (unset) unset | (config) "\<not> unset" "r1 \<noteq> 0" | (fail) "\<not> unset" "r1 = 0" "of_int p = (0 :: u64)"
    | (ok) "\<not> unset" "r1 = 0" "of_int p \<noteq> (0 :: u64)" by blast
  then show ?thesis
  proof cases
    case ok
    let ?ds = "cs @ [(KC_pci_iomap (pd_handle pd) (nat (e_boot_bar e)) (e_boot_len e), p)]"
    from res ok have out: "r = 0" "e' = ?e1" "w' = w2" by simp_all
    have "mapping_calls (pd_handle pd) e' ?ds"
      unfolding mapping_calls_def using cs(3) ok out by (intro exI [of _ cs] exI [of _ p]) simp
    then show ?thesis using cs kcallD [OF io] out by (intro exI [of _ ?ds]) simp
  next
    case unset
    with res show ?thesis by (intro exI [of _ "[]"]) simp
  next
    case config
    with res cs show ?thesis by (intro exI [of _ cs]) simp
  next
    case fail
    with res cs kcallD [OF io] show ?thesis
      by (intro exI [of _ "cs @ [(KC_pci_iomap (pd_handle pd) (nat (e_boot_bar e)) (e_boot_len e), p)]"]) simp
  qed
qed

lemma map_boot_bar_calls:
  assumes "pcie_map_boot_bar K pd e w = ((r, e'), w')" "e_boot_mem_base e = 0"
  shows "\<exists>cs. calls w' = calls w @ cs \<and> filter is_retry_sleep cs = [] \<and>
    (r = 0 \<and> mapping_calls (pd_handle pd) e' cs \<or>
     r = - ENXIO \<or> r = - EIO \<or> config_failed (pd_handle pd) r cs)"
proof -
  consider (none) "r = - ENXIO" "w' = w"
    | (found) bar len where "pcie_boot_bar_find K pd w = Some (bar, len)"
        "map_chosen_bar K pd (e\<lparr>e_boot_bar := bar, e_boot_len := len\<rparr>) w = ((r, e'), w')"
    | (kept) "0 \<le> e_boot_bar e" "map_chosen_bar K pd e w = ((r, e'), w')"
    using assms(1) unfolding pcie_map_boot_bar_def
    by (auto split: if_splits option.splits)
  then show ?thesis
  proof cases
    case none
    then show ?thesis by auto
  next
    case found
    from map_chosen_bar_calls [OF found(2)] pcie_boot_bar_find_Some [OF found(1)] assms(2)
    show ?thesis by simp
  next
    case kept
    from map_chosen_bar_calls [OF kept(2) assms(2) kept(1)] show ?thesis .
  qed
qed

subsection \<open>The retry loop\<close>

lemma map_attempts_result:
  "map_attempts K pd n r0 e w = ((r, e'), w') \<Longrightarrow> e_boot_mem_base e = 0 \<Longrightarrow> e_boot_bar e < 6 \<Longrightarrow>
     r0 \<noteq> 0 \<or> 0 < n \<Longrightarrow>
     same_but_bar e e' \<and> iow w' = iow w \<and> (r = 0 \<longleftrightarrow> e_boot_mem_base e' \<noteq> 0) \<and> e_boot_bar e' < 6 \<and>
     (r = 0 \<longrightarrow> bar_chosen e')"
proof (induction n arbitrary: r0 e w)
  case 0
  then show ?case by auto
next
  case (Suc n)
  obtain r1 e1 w1 where m: "pcie_map_boot_bar K pd e w = ((r1, e1), w1)" by (metis prod.exhaust)
  note m1 = map_boot_bar_result [OF m Suc.prems(2,3)]
  show ?case
  proof (cases "r1 = - ENXIO")
    case True
    then have "map_attempts K pd n r1 e1 (kdo K (KC_msleep PCIE_BOOT_BAR_MAP_RETRY_MS) w1) = ((r, e'), w')"
      using Suc.prems(1) m by simp
    from Suc.IH [OF this] True m1 show ?thesis
      by (auto simp: kframe intro: same_but_bar_trans)
  next
    case False
    with Suc.prems(1) m have "r = r1" "e' = e1" "w' = w1" by (simp_all split: if_splits)
    with m1 show ?thesis by simp
  qed
qed

lemma map_attempts_calls:
  "map_attempts K pd n r0 e w = ((r, e'), w') \<Longrightarrow> e_boot_mem_base e = 0 \<Longrightarrow> e_boot_bar e < 6 \<Longrightarrow>
     \<exists>cs ds. calls w' = calls w @ cs @ ds \<and> length (filter is_retry_sleep (cs @ ds)) \<le> n \<and>
       (r = r0 \<and> n = 0 \<or> r = 0 \<and> mapping_calls (pd_handle pd) e' ds \<or> r = - ENXIO \<or> r = - EIO \<or>
        config_failed (pd_handle pd) r ds)"
proof (induction n arbitrary: r0 e w)
  case 0
  then show ?case by (intro exI [of _ "[]"]) simp
next
  case (Suc n)
  obtain r1 e1 w1 where m: "pcie_map_boot_bar K pd e w = ((r1, e1), w1)" by (metis prod.exhaust)
  from map_boot_bar_calls [OF m Suc.prems(2)] obtain c1 where c1:
    "calls w1 = calls w @ c1" "filter is_retry_sleep c1 = []"
    "r1 = 0 \<and> mapping_calls (pd_handle pd) e1 c1 \<or> r1 = - ENXIO \<or> r1 = - EIO \<or> config_failed (pd_handle pd) r1 c1"
    by blast
  note m1 = map_boot_bar_result [OF m Suc.prems(2,3)]
  show ?case
  proof (cases "r1 = - ENXIO")
    case True
    let ?w1 = "kdo K (KC_msleep PCIE_BOOT_BAR_MAP_RETRY_MS) w1"
    let ?s = "(KC_msleep PCIE_BOOT_BAR_MAP_RETRY_MS, fst (kcall K (KC_msleep PCIE_BOOT_BAR_MAP_RETRY_MS) w1))"
    have "map_attempts K pd n r1 e1 ?w1 = ((r, e'), w')"
      using Suc.prems(1) m True by simp
    from Suc.IH [OF this] True m1 obtain cs ds where
      "calls w' = calls ?w1 @ cs @ ds" "length (filter is_retry_sleep (cs @ ds)) \<le> n"
      "r = r1 \<and> n = 0 \<or> r = 0 \<and> mapping_calls (pd_handle pd) e' ds \<or> r = - ENXIO \<or> r = - EIO \<or>
        config_failed (pd_handle pd) r ds"
      by auto
    then show ?thesis using c1 True
      by (intro exI [of _ "c1 @ ?s # cs"] exI [of _ ds]) (auto simp: kframe)
  next
    case False
    with Suc.prems(1) m have "r = r1" "e' = e1" "w' = w1" by (simp_all split: if_splits)
    with c1 show ?thesis by (intro exI [of _ "[]"] exI [of _ c1]) auto
  qed
qed

lemma ensure_mapped_facts:
  assumes "pcie_boot_bar_ensure_mapped K pd e w = ((r, e'), w')" and "e_boot_bar e < 6"
  shows "same_but_bar e e'" "iow w' = iow w" "r = 0 \<longleftrightarrow> e_boot_mem_base e' \<noteq> 0"
    "e_boot_mem_base e = 0 \<Longrightarrow> r = 0 \<Longrightarrow> bar_chosen e'"
proof -
  obtain r1 e1 w1 where m: "map_attempts K pd PCIE_BOOT_BAR_MAP_RETRY_MAX 0 e w = ((r1, e1), w1)"
    by (metis prod.exhaust)
  have "same_but_bar e e' \<and> iow w' = iow w \<and> (r = 0 \<longleftrightarrow> e_boot_mem_base e' \<noteq> 0) \<and>
    (e_boot_mem_base e = 0 \<longrightarrow> r = 0 \<longrightarrow> bar_chosen e')"
  proof (cases "e_boot_mem_base e = 0")
    case False
    with assms(1) have "r = 0" "e' = e" "w' = w" by (simp_all add: pcie_boot_bar_ensure_mapped_def)
    with False show ?thesis by simp
  next
    case True
    have f: "same_but_bar e e1 \<and> iow w1 = iow w \<and> (r1 = 0 \<longleftrightarrow> e_boot_mem_base e1 \<noteq> 0) \<and> e_boot_bar e1 < 6 \<and>
       (r1 = 0 \<longrightarrow> bar_chosen e1)"
      by (rule map_attempts_result [OF m True assms(2)]) simp
    have "r = (if r1 = - ENXIO then - ETIMEDOUT else r1)" "e' = e1" "w' = w1"
      using assms(1) True m by (auto simp: pcie_boot_bar_ensure_mapped_def Let_def split: if_splits)
    with f show ?thesis by (auto split: if_splits)
  qed
  then show "same_but_bar e e'" "iow w' = iow w" "r = 0 \<longleftrightarrow> e_boot_mem_base e' \<noteq> 0"
    "e_boot_mem_base e = 0 \<Longrightarrow> r = 0 \<Longrightarrow> bar_chosen e'" by blast+
qed

text \<open>C20: Ensuring that the boot BAR is mapped returns 0 exactly when the entry ends up with a mapped
  base, never reports ENXIO, touches only the BAR fields of the entry and no register of the
  endpoint, and retries at most three times. A new mapping is the last thing done, on a memory
  BAR with a length, with memory decoding just enabled by three successful writes of the command
  register; a failure is ETIMEDOUT, EIO or the code of a failed write, passed on as it is.\<close>

theorem ensure_mapped_result:
  assumes "pcie_boot_bar_ensure_mapped K pd e w = ((r, e'), w')" and "e_boot_bar e < 6"
  shows "(r = 0 \<longleftrightarrow> e_boot_mem_base e' \<noteq> 0) \<and> r \<noteq> - ENXIO \<and> same_but_bar e e' \<and> iow w' = iow w \<and>
    (e_boot_mem_base e \<noteq> 0 \<longrightarrow> e' = e \<and> w' = w) \<and>
    (e_boot_mem_base e = 0 \<longrightarrow>
      (r = 0 \<longrightarrow> bar_chosen e') \<and>
      (\<exists>cs ds. calls w' = calls w @ cs @ ds \<and>
         length (filter is_retry_sleep (cs @ ds)) \<le> PCIE_BOOT_BAR_MAP_RETRY_MAX \<and>
         (r = 0 \<and> mapping_calls (pd_handle pd) e' ds \<or> r = - ETIMEDOUT \<or> r = - EIO \<or>
          config_failed (pd_handle pd) r ds)))"
proof (cases "e_boot_mem_base e = 0")
  case False
  with assms show ?thesis by (auto simp: pcie_boot_bar_ensure_mapped_def)
next
  case True
  obtain r1 e1 w1 where m: "map_attempts K pd PCIE_BOOT_BAR_MAP_RETRY_MAX 0 e w = ((r1, e1), w1)"
    by (metis prod.exhaust)
  with assms(1) True have out: "r = (if r1 = - ENXIO then - ETIMEDOUT else r1)" "e' = e1" "w' = w1"
    by (auto simp: pcie_boot_bar_ensure_mapped_def Let_def split: if_splits)
  obtain cs ds where cd: "calls w1 = calls w @ cs @ ds"
    "length (filter is_retry_sleep (cs @ ds)) \<le> PCIE_BOOT_BAR_MAP_RETRY_MAX"
    "r1 = 0 \<and> mapping_calls (pd_handle pd) e1 ds \<or> r1 = - ENXIO \<or> r1 = - EIO \<or> config_failed (pd_handle pd) r1 ds"
    using map_attempts_calls [OF m True assms(2)] by auto
  have "r = 0 \<and> mapping_calls (pd_handle pd) e' ds \<or> r = - ETIMEDOUT \<or> r = - EIO \<or>
          config_failed (pd_handle pd) r ds"
    using cd(3) unfolding out by (cases "r1 = - ENXIO") auto
  with cd have "\<exists>cs ds. calls w' = calls w @ cs @ ds \<and>
         length (filter is_retry_sleep (cs @ ds)) \<le> PCIE_BOOT_BAR_MAP_RETRY_MAX \<and>
         (r = 0 \<and> mapping_calls (pd_handle pd) e' ds \<or> r = - ETIMEDOUT \<or> r = - EIO \<or>
          config_failed (pd_handle pd) r ds)"
    unfolding out(3) by blast
  moreover have "r \<noteq> - ENXIO" using out(1) by auto
  ultimately show ?thesis using True ensure_mapped_facts [OF assms] by blast
qed

definition demo_pci_dev :: pci_dev where
  "demo_pci_dev = \<lparr>pd_handle = 1, pd_vendor = 0x2134, pd_device = 6, pd_class = 0xff0000, pd_bus = 1,
     pd_domain = 0, pd_devfn = 0, pd_name = ''0000:01:00.0''\<rparr>"

theorem ensure_mapped_result_witness:
  "\<exists>e' w'. pcie_boot_bar_ensure_mapped demo_kernel demo_pci_dev (zero_entry\<lparr>e_boot_bar := - 1\<rparr>) demo_world
      = ((0, e'), w') \<and> e_boot_mem_base e' \<noteq> 0 \<and> bar_chosen e'"
proof -
  let ?e = "zero_entry\<lparr>e_boot_bar := - 1\<rparr>"
  obtain r e' w' where m: "pcie_boot_bar_ensure_mapped demo_kernel demo_pci_dev ?e demo_world = ((r, e'), w')"
    by (metis prod.exhaust)
  moreover from m have "r = 0"
    by (auto simp: pcie_boot_bar_ensure_mapped_def zero_entry_def numeral_3_eq_3 pcie_map_boot_bar_def
        pcie_boot_bar_find_def map_chosen_bar_def pcie_enable_mem_io_resource_def demo_eval upt_rec)
  ultimately show ?thesis using ensure_mapped_result [OF m] by (auto simp: zero_entry_def)
qed

end
