(* ===== verification/C_Format.thy ===== *)
theory C_Format
  imports Base_Prelude
begin

section \<open>Formatted output and number parsing\<close>

text \<open>
  The string functions of the kernel library that the driver calls: \<open>scnprintf\<close> with the
  conversions of its format strings, \<open>strscpy\<close> into a zeroed field, \<open>strim\<close> and \<open>kstrtoint\<close>
  with base 10 as the kernel documents them. Formatted text is a \<open>string\<close>; buffers are bytes.
\<close>

subsection \<open>Numbers\<close>

definition digit_char :: "nat \<Rightarrow> char" where
  "digit_char d = char_of (if d < 10 then 48 + d else 87 + d)"

fun dec_str :: "nat \<Rightarrow> string" where
  "dec_str n = (if n < 10 then [digit_char n] else dec_str (n div 10) @ [digit_char (n mod 10)])"

fun hex_str :: "nat \<Rightarrow> string" where
  "hex_str n = (if n < 16 then [digit_char n] else hex_str (n div 16) @ [digit_char (n mod 16)])"

declare dec_str.simps [simp del] hex_str.simps [simp del]

definition zero_pad :: "nat \<Rightarrow> string \<Rightarrow> string" where
  "zero_pad n s = replicate (n - length s) (CHR ''0'') @ s"

text \<open>\<open>scnprintf\<close> keeps at most \<open>size - 1\<close> characters and returns how many it kept.\<close>

definition scnprintf :: "nat \<Rightarrow> 'a list \<Rightarrow> 'a list" where
  "scnprintf sz s = take (sz - 1) s"

lemma length_scnprintf: "0 < sz \<Longrightarrow> length (scnprintf sz s) < sz"
  by (simp add: scnprintf_def)

lemma scnprintf_fits: "length s < sz \<Longrightarrow> scnprintf sz s = s"
  by (simp add: scnprintf_def)

lemma dec_str_nonempty [simp]: "dec_str n \<noteq> []"
  by (subst dec_str.simps) simp

lemma hex_str_nonempty [simp]: "hex_str n \<noteq> []"
  by (subst hex_str.simps) simp

lemma length_dec_str_le: "n < 10 ^ k \<Longrightarrow> 0 < k \<Longrightarrow> length (dec_str n) \<le> k"
proof (induction k arbitrary: n)
  case 0
  then show ?case by simp
next
  case (Suc k)
  show ?case
  proof (cases "n < 10")
    case True
    then show ?thesis by (subst dec_str.simps) simp
  next
    case False
    then have "0 < k" using Suc.prems(1) by (cases k) simp_all
    moreover have "n div 10 < 10 ^ k" using Suc.prems(1) by (simp add: less_mult_imp_div_less mult.commute)
    ultimately have "length (dec_str (n div 10)) \<le> k" using Suc.IH by blast
    then show ?thesis using False by (subst dec_str.simps) simp
  qed
qed

lemma length_hex_str_le: "n < 16 ^ k \<Longrightarrow> 0 < k \<Longrightarrow> length (hex_str n) \<le> k"
proof (induction k arbitrary: n)
  case 0
  then show ?case by simp
next
  case (Suc k)
  show ?case
  proof (cases "n < 16")
    case True
    then show ?thesis by (subst hex_str.simps) simp
  next
    case False
    then have "0 < k" using Suc.prems(1) by (cases k) simp_all
    moreover have "n div 16 < 16 ^ k" using Suc.prems(1) by (simp add: less_mult_imp_div_less mult.commute)
    ultimately have "length (hex_str (n div 16)) \<le> k" using Suc.IH by blast
    then show ?thesis using False by (subst hex_str.simps) simp
  qed
qed

lemma length_zero_pad [simp]: "length (zero_pad n s) = max n (length s)"
  by (simp add: zero_pad_def)

text \<open>\<open>dec_str\<close> is injective: distinct slot numbers get distinct names.\<close>

fun digit_val :: "char \<Rightarrow> nat option" where
  "digit_val c = (if 48 \<le> (of_char c :: nat) \<and> (of_char c :: nat) \<le> 57 then Some (of_char c - 48) else None)"

fun parse_digits :: "nat \<Rightarrow> string \<Rightarrow> nat option" where
  "parse_digits acc [] = Some acc"
| "parse_digits acc (c # cs) =
     (case digit_val c of None \<Rightarrow> None | Some d \<Rightarrow> parse_digits (acc * 10 + d) cs)"

lemma parse_digits_append:
  "parse_digits acc (xs @ ys) = (case parse_digits acc xs of None \<Rightarrow> None | Some v \<Rightarrow> parse_digits v ys)"
  by (induction xs arbitrary: acc) (simp_all split: option.splits)

lemma digit_val_digit_char: "d < 10 \<Longrightarrow> digit_val (digit_char d) = Some d"
  by (simp add: digit_char_def)

lemma parse_dec_str: "parse_digits 0 (dec_str n) = Some n"
proof (induction n rule: dec_str.induct)
  case (1 n)
  show ?case
  proof (cases "n < 10")
    case True
    then show ?thesis by (subst dec_str.simps) (simp add: digit_val_digit_char del: digit_val.simps)
  next
    case False
    then show ?thesis using 1
      by (subst dec_str.simps) (simp add: parse_digits_append digit_val_digit_char del: digit_val.simps)
  qed
qed

lemma dec_str_inject [simp]: "dec_str m = dec_str n \<longleftrightarrow> m = n"
  using parse_dec_str [of m] parse_dec_str [of n] by (metis option.inject)

subsection \<open>Copying strings\<close>

text \<open>\<open>strscpy\<close> into an array of \<open>n\<close> zero bytes.\<close>

definition strscpy0 :: "nat \<Rightarrow> u8 list \<Rightarrow> u8 list" where
  "strscpy0 n src = put_at 0 (take (n - 1) (cstr src)) (replicate n 0)"

lemma length_strscpy0 [simp]: "length (strscpy0 n src) = n"
  unfolding strscpy0_def by (cases n) (simp_all add: put_at_def)

lemma cstr_no_nul: "0 \<notin> set (cstr bs)"
  unfolding cstr_def by (auto dest: set_takeWhileD)

lemma cstr_append_zeros: "0 \<notin> set xs \<Longrightarrow> cstr (xs @ replicate n 0) = xs"
  unfolding cstr_def by (induction xs) (cases n; simp)+

text \<open>The copied string is the source string when that fits with its terminator.\<close>

lemma cstr_strscpy0:
  assumes "length (cstr src) < n"
  shows "cstr (strscpy0 n src) = cstr src"
proof -
  have "strscpy0 n src = cstr src @ replicate (n - length (cstr src)) 0"
    using assms by (simp add: strscpy0_def put_at_def)
  then show ?thesis using cstr_no_nul by (simp add: cstr_append_zeros)
qed

subsection \<open>Parsing\<close>

text \<open>\<open>isspace\<close> of the kernel: space, the five control characters from tab to carriage return,
  and the Latin-1 no-break space.\<close>

definition is_space :: "u8 \<Rightarrow> bool" where
  "is_space b \<longleftrightarrow> b = 32 \<or> 9 \<le> b \<and> b \<le> 13 \<or> b = 160"

text \<open>\<open>strim\<close> cuts trailing whitespace in place, and returns a pointer past the leading
  whitespace. The buffer itself keeps its leading whitespace.\<close>

definition strim_in_place :: "u8 list \<Rightarrow> u8 list" where
  "strim_in_place s = rev (dropWhile is_space (rev s))"

text \<open>\<open>kstrtoint\<close> with base 10: one sign at most, then digits, then at most one newline.\<close>

definition kstrtoint10 :: "u8 list \<Rightarrow> int option" where
  "kstrtoint10 s =
     (let neg = (s \<noteq> [] \<and> hd s = 45);
          ds = (if neg \<or> s \<noteq> [] \<and> hd s = 43 then tl s else s);
          ds1 = (if ds \<noteq> [] \<and> last ds = 10 then butlast ds else ds)
      in if ds1 = [] then None
         else case parse_digits 0 (map (\<lambda>b. char_of (unat b)) ds1) of
                None \<Rightarrow> None
              | Some v \<Rightarrow>
                  (let x = (if neg then - int v else int v)
                   in if - (2 ^ 31) \<le> x \<and> x < 2 ^ 31 then Some x else None))"

end
