(* ===== verification/Slot_Ops.thy ===== *)
theory Slot_Ops
  imports Boot_Bar C_Format
begin

section \<open>Operations on one slot\<close>

text \<open>
  \<open>amba_pci_platform_main.c\<close>, lines 42 to 169 and 828 to 971: the functions that work on one
  \<open>struct pcie_dev_entry\<close>. A pointer \<open>e\<close> into \<open>g_pcie_drv.devs\<close> is its slot number \<open>i\<close> where the
  code depends on it (the delayed work embedded in the entry, \<open>pcie_entry_slot\<close>) and the entry
  itself otherwise; every function returns the entry it leaves behind.
\<close>

definition pcie_state_str :: "amba_pci_dev_state \<Rightarrow> string" where
  "pcie_state_str state =
     (case state of
        AMBA_PCI_STATE_DISCONNECTED \<Rightarrow> ''Disconnected''
      | AMBA_PCI_STATE_BOOTING \<Rightarrow> ''Booting''
      | AMBA_PCI_STATE_REBOOTING \<Rightarrow> ''Rebooting''
      | AMBA_PCI_STATE_CONNECTED \<Rightarrow> ''Connected''
      | AMBA_PCI_STATE_BOOT_FAILED \<Rightarrow> ''Boot failed'')"

text \<open>The difference of a pointer into \<open>g_pcie_drv.devs\<close> (at address \<open>devs\<close>, in units of the entry size \<open>esize\<close>)
  and the array, cut to an \<open>int\<close>. On the entry of a slot it is the number of the slot.\<close>

definition pcie_entry_slot :: "u64 \<Rightarrow> nat \<Rightarrow> u64 \<Rightarrow> int" where
  "pcie_entry_slot devs esize e = sint (word_of_int (sint (e - devs) div int esize) :: 32 word)"

lemma entry_slot_index:
  assumes "i < AMBA_PCI_DEV_MAX" "0 < esize" "esize < 2 ^ 32"
  shows "pcie_entry_slot devs esize (devs + of_nat (i * esize)) = int i"
proof -
  have "i * esize \<le> 3 * 2 ^ 32" by (rule mult_le_mono) (use assms in simp_all)
  then have b: "int (i * esize) \<le> int (3 * 2 ^ 32)" by (simp only: of_nat_le_iff)
  have "sint (of_nat (i * esize) :: 64 word) = signed_take_bit 63 (int (i * esize))"
    by (simp add: signed_of_nat del: of_nat_mult)
  also have "\<dots> = int (i * esize)"
    by (rule signed_take_bit_int_eq_self) (use b in \<open>simp_all del: of_nat_mult\<close>)
  finally have "sint (devs + of_nat (i * esize) - devs) div int esize = int i"
    using assms(2) by simp
  moreover have "sint (word_of_int (int i) :: 32 word) = int i"
    using assms(1) by (simp only: sint_sbintrunc') (rule signed_take_bit_int_eq_self, simp_all)
  ultimately show ?thesis by (simp add: pcie_entry_slot_def del: of_nat_mult)
qed

subsection \<open>Board information and queries\<close>

definition pcie_dev_refresh_board_info_locked ::
  "'d kernel \<Rightarrow> pcie_dev_entry \<Rightarrow> 'd world \<Rightarrow> (int \<times> pcie_dev_entry) \<times> 'd world" where
  "pcie_dev_refresh_board_info_locked K e w =
     (if e_state e \<noteq> AMBA_PCI_STATE_DISCONNECTED then ((0, e), w)
      else case e_pdev e of
        None \<Rightarrow> ((- ENODEV, e), w)
      | Some pd \<Rightarrow>
          (let ((ret, e1), w1) = (if e_boot_mem_base e = 0 then pcie_boot_bar_ensure_mapped K pd e w else ((0, e), w))
           in if ret \<noteq> 0 then ((ret, e1), w1)
              else if \<not> e_board_info_is_updated e1 \<and> e_boot_mem_base e1 \<noteq> 0
              then (let (bd, w2) = pcie_ring_read_board_info K (e_boot_mem_base e1) w1
                    in ((0, e1\<lparr>e_board_info := bd, e_board_info_is_updated := True\<rparr>), w2))
              else ((0, e1), w1)))"

definition zero_dev_info :: amba_pci_dev_info where
  "zero_dev_info = \<lparr>di_id = 0, di_slot_id = 0, di_state = AMBA_PCI_STATE_DISCONNECTED, di_is_valid = 0,
     di_ip = 0, di_poc = 0, di_dram_size_mb = 0, di_vendor = 0, di_device = 0,
     di_dram_type = replicate AMBA_PCI_NAME_MAX 0, di_fw_vers = replicate AMBA_PCI_NAME_MAX 0\<rparr>"

definition pcie_query_dev_info_locked ::
  "'d kernel \<Rightarrow> pcie_dev_entry \<Rightarrow> int \<Rightarrow> 'd world \<Rightarrow> (amba_pci_dev_info \<times> pcie_dev_entry) \<times> 'd world" where
  "pcie_query_dev_info_locked K e slot w =
     (let dst = zero_dev_info\<lparr>di_id := e_id e, di_slot_id := of_int slot, di_state := e_state e,
                              di_is_valid := (if e_in_use e then 1 else 0)\<rparr>
      in if \<not> e_in_use e then ((dst, e), w)
         else let ((ret, e1), w1) = pcie_dev_refresh_board_info_locked K e w;
                  dst1 = (case e_pdev e1 of None \<Rightarrow> dst
                          | Some pd \<Rightarrow> dst\<lparr>di_vendor := ucast (pd_vendor pd), di_device := ucast (pd_device pd)\<rparr>);
                  dst2 = (if e_board_info_is_updated e1
                          then dst1\<lparr>di_poc := bd_poc (e_board_info e1),
                                    di_dram_size_mb := bd_dram_size_mb (e_board_info e1),
                                    di_dram_type := strscpy0 AMBA_PCI_NAME_MAX (bd_dram_type (e_board_info e1)),
                                    di_fw_vers := strscpy0 AMBA_PCI_NAME_MAX (bd_date (e_board_info e1))\<rparr>
                          else dst1)
              in ((dst2, e1), w1))"

subsection \<open>Detaching and the boot timeout\<close>

definition pcie_entry_detach_pdev :: "'d kernel \<Rightarrow> pcie_dev_entry \<Rightarrow> 'd world \<Rightarrow> pcie_dev_entry \<times> 'd world" where
  "pcie_entry_detach_pdev K e w =
     (case e_pdev e of
        None \<Rightarrow> (e, w)
      | Some pd \<Rightarrow>
          (let (e1, w1) = pcie_boot_bar_unmap K e w;
               w2 = kdo K (KC_pci_dev_put (pd_handle pd)) w1
           in (e1\<lparr>e_pdev := None\<rparr>, w2)))"

definition pcie_boot_timeout_schedule ::
  "'d kernel \<Rightarrow> nat \<Rightarrow> pcie_dev_entry \<Rightarrow> 'd world \<Rightarrow> pcie_dev_entry \<times> 'd world" where
  "pcie_boot_timeout_schedule K i e w =
     (let w1 = kdo K (KC_cancel_delayed_work i) w; e1 = e\<lparr>e_work_pending := False\<rparr>;
          w2 = kdo K (KC_schedule_delayed_work i (unat (k_msecs K (of_nat PCIE_BOOT_TIMEOUT_MS)))) w1
      in (e1\<lparr>e_work_pending := True\<rparr>, w2))"

definition pcie_boot_timeout_fn :: "'d kernel \<Rightarrow> pcie_dev_entry \<Rightarrow> 'd world \<Rightarrow> pcie_dev_entry \<times> 'd world" where
  "pcie_boot_timeout_fn K e w =
     (let w1 = kdo K KC_mutex_lock w;
          e1 = (if e_in_use e \<and> e_state e = AMBA_PCI_STATE_BOOTING
                then e\<lparr>e_state := AMBA_PCI_STATE_BOOT_FAILED\<rparr> else e)
      in (e1, kdo K KC_mutex_unlock w1))"

subsection \<open>Proc nodes\<close>

definition proc_node_names :: "string list" where
  "proc_node_names = [''status'', ''dev_info'', ''net'', ''dev_log'', ''reboot'']"

text \<open>The five \<open>proc_create_data\<close> calls in turn, up to the first that fails.\<close>

fun create_nodes :: "'d kernel \<Rightarrow> string \<Rightarrow> string list \<Rightarrow> 'd world \<Rightarrow> bool \<times> 'd world" where
  "create_nodes K dir [] w = (True, w)"
| "create_nodes K dir (n # ns) w =
     (let (entry, w1) = kcall K (KC_proc_create dir n) w
      in if entry = 0 then (False, w1) else create_nodes K dir ns w1)"

definition slot_proc_name :: "nat \<Rightarrow> string" where
  "slot_proc_name index = scnprintf 16 (''pcie_'' @ dec_str index)"

definition pcie_create_proc_nodes ::
  "'d kernel \<Rightarrow> int \<Rightarrow> pcie_dev_entry \<Rightarrow> nat \<Rightarrow> 'd world \<Rightarrow> (int \<times> pcie_dev_entry) \<times> 'd world" where
  "pcie_create_proc_nodes K proc_root e index w =
     (if proc_root = 0 then ((- ENODEV, e), w)
      else let e1 = e\<lparr>e_proc_name := slot_proc_name index\<rparr>;
               (dir, w1) = kcall K (KC_proc_mkdir (e_proc_name e1)) w;
               e2 = e1\<lparr>e_proc_dir := dir\<rparr>
           in if dir = 0 then ((- ENOMEM, e2), w1)
              else let (ok, w2) = create_nodes K (e_proc_name e2) proc_node_names w1
                   in if ok then ((0, e2), w2)
                      else ((- ENOMEM, e2\<lparr>e_proc_dir := 0, e_proc_name := []\<rparr>),
                            kdo K (KC_remove_proc_subtree (e_proc_name e2)) w2))"

subsection \<open>Taking a slot into use and releasing it\<close>

definition pcie_release_dev :: "'d kernel \<Rightarrow> nat \<Rightarrow> pcie_dev_entry \<Rightarrow> 'd world \<Rightarrow> pcie_dev_entry \<times> 'd world" where
  "pcie_release_dev K i e w =
     (if \<not> e_in_use e then (e, w)
      else let (e1, w1) = pcie_entry_detach_pdev K e w;
               w2 = kdo K (KC_cancel_delayed_work i) w1;
               e2 = e1\<lparr>e_work_pending := False\<rparr>;
               (e3, w3) = (if e_proc_dir e2 \<noteq> 0
                           then (e2\<lparr>e_proc_dir := 0, e_proc_name := []\<rparr>,
                                 kdo K (KC_remove_proc_subtree (e_proc_name e2)) w2)
                           else (e2, w2))
           in (e3\<lparr>e_id := 0, e_in_use := False, e_state := AMBA_PCI_STATE_DISCONNECTED, e_boot_bar := - 1,
                 e_boot_len := 0, e_boot_mem_base := 0, e_board_info_is_updated := False,
                 e_board_info := zero_board_info\<rparr>, w3))"

text \<open>\<open>pci_dev_get\<close> takes a reference and returns its argument.\<close>

definition pci_dev_get :: "'d kernel \<Rightarrow> pci_dev \<Rightarrow> 'd world \<Rightarrow> pci_dev \<times> 'd world" where
  "pci_dev_get K pd w = (pd, kdo K (KC_pci_dev_get (pd_handle pd)) w)"

definition pcie_init_slot ::
  "'d kernel \<Rightarrow> amba_pci_platform \<Rightarrow> pci_dev \<Rightarrow> nat \<Rightarrow> 'd world \<Rightarrow> (int \<times> amba_pci_platform) \<times> 'd world" where
  "pcie_init_slot K g pd index w =
     (let ((ret, e), w1) = pcie_create_proc_nodes K (g_proc_root g) (g_devs g ! index) index w
      in if ret \<noteq> 0 then ((ret, g\<lparr>g_devs := (g_devs g)[index := e]\<rparr>), w1)
         else let (p, w2) = pci_dev_get K pd w1
              in ((ret, g\<lparr>g_devs := (g_devs g)[index :=
                       e\<lparr>e_pdev := Some p, e_id := g_next_dev_id g, e_phy_slot := pcie_physical_slots ! index,
                         e_board_info_is_updated := False, e_board_info := zero_board_info, e_boot_bar := - 1,
                         e_boot_len := 0, e_boot_mem_base := 0, e_state := AMBA_PCI_STATE_DISCONNECTED,
                         e_in_use := True\<rparr>],
                     g_next_dev_id := g_next_dev_id g + 1\<rparr>), w2))"

definition pcie_try_reconnect_booting_locked ::
  "'d kernel \<Rightarrow> nat \<Rightarrow> pci_dev \<Rightarrow> pcie_dev_entry \<Rightarrow> 'd world \<Rightarrow> pcie_dev_entry \<times> 'd world" where
  "pcie_try_reconnect_booting_locked K i pd e w =
     (let (p, w1) = pci_dev_get K pd w; e1 = e\<lparr>e_pdev := Some p\<rparr>;
          w2 = kdo K (KC_cancel_delayed_work i) w1; e2 = e1\<lparr>e_work_pending := False\<rparr>
      in (e2\<lparr>e_state := AMBA_PCI_STATE_CONNECTED\<rparr>, w2))"

end
