(* ===== verification/Hotplug.thy ===== *)
theory Hotplug
  imports Slot_Ops
begin

section \<open>Hotplug: the PCI bus notifier and the initial scan\<close>

text \<open>
  \<open>amba_pci_platform_main.c\<close>, lines 973 to 1091. The handlers run under the driver's mutex; they
  take and return the platform \<open>g_pcie_drv\<close>. The bus type of the notified device is the flag
  \<open>is_pci\<close>. \<open>pci_get_device\<close> walks the PCI core's device list, so it is an argument of the scan:
  it maps the search key and the previous device to the next match.
\<close>

abbreviation (input) BUS_NOTIFY_ADD_DEVICE :: u64 where "BUS_NOTIFY_ADD_DEVICE \<equiv> 0"
abbreviation (input) BUS_NOTIFY_DEL_DEVICE :: u64 where "BUS_NOTIFY_DEL_DEVICE \<equiv> 1"
abbreviation (input) NOTIFY_DONE :: int where "NOTIFY_DONE \<equiv> 0"

definition pci_resource_len :: "'d kernel \<Rightarrow> pci_dev \<Rightarrow> nat \<Rightarrow> 'd world \<Rightarrow> u64" where
  "pci_resource_len K pd bar w = r_len (k_res K (w_out w) (pd_handle pd) bar)"

text \<open>The booted system's virtio function, and the boot function of the bare chip.\<close>

definition is_virtio_dev :: "'d kernel \<Rightarrow> pci_dev \<Rightarrow> 'd world \<Rightarrow> bool" where
  "is_virtio_dev K pd w \<longleftrightarrow>
     pd_vendor pd = AMBA_PCI_TARGET_VENDOR_ID \<and> pd_device pd = AMBA_PCI_VIRTIO_DEVICE_ID \<and>
     pci_resource_len K pd 0 w \<noteq> 0"

definition is_boot_dev :: "'d kernel \<Rightarrow> pci_dev \<Rightarrow> 'd world \<Rightarrow> bool" where
  "is_boot_dev K pd w \<longleftrightarrow>
     pd_vendor pd = AMBA_PCI_TARGET_VENDOR_ID \<and> pd_device pd = AMBA_PCI_TARGET_DEVICE_ID \<and>
     pd_class pd AND 0xff0000 = 0xff0000 \<and> pci_resource_len K pd 0 w \<noteq> 0"

definition set_entry :: "amba_pci_platform \<Rightarrow> nat \<Rightarrow> pcie_dev_entry \<Rightarrow> amba_pci_platform" where
  "set_entry g i e = g\<lparr>g_devs := (g_devs g)[i := e]\<rparr>"

definition pcie_handle_add_locked ::
  "'d kernel \<Rightarrow> pci_dev \<Rightarrow> amba_pci_platform \<Rightarrow> 'd world \<Rightarrow> amba_pci_platform \<times> 'd world" where
  "pcie_handle_add_locked K pd g w =
     (let slot_id = get_pci_slot_id pd
      in if slot_id < 0 then (g, w)
         else let i = nat slot_id; e = g_devs g ! i
              in if e_in_use e then
                   (if e_state e \<noteq> AMBA_PCI_STATE_BOOTING then (g, w)
                    else if is_virtio_dev K pd w
                    then let (e1, w1) = pcie_try_reconnect_booting_locked K i pd e w in (set_entry g i e1, w1)
                    else (g, w))
                 else if is_virtio_dev K pd w then
                   (let ((ret, g1), w1) = pcie_init_slot K g pd i w
                    in if ret \<noteq> 0 then (g1, w1)
                       else (set_entry g1 i ((g_devs g1 ! i)\<lparr>e_state := AMBA_PCI_STATE_CONNECTED\<rparr>), w1))
                 else if is_boot_dev K pd w then
                   (let ((ret, g1), w1) = pcie_init_slot K g pd i w in (g1, w1))
                 else (g, w))"

definition pcie_handle_del_locked ::
  "'d kernel \<Rightarrow> pci_dev \<Rightarrow> amba_pci_platform \<Rightarrow> 'd world \<Rightarrow> amba_pci_platform \<times> 'd world" where
  "pcie_handle_del_locked K pd g w =
     (let slot_id = get_pci_slot_id pd
      in if slot_id < 0 \<or> \<not> e_in_use (g_devs g ! nat slot_id) then (g, w)
         else let i = nat slot_id; e = g_devs g ! i
              in if e_state e = AMBA_PCI_STATE_BOOTING
                 then let (e1, w1) = pcie_entry_detach_pdev K e w in (set_entry g i e1, w1)
                 else let (e1, w1) = pcie_release_dev K i e w in (set_entry g i e1, w1))"

definition pcie_pci_bus_notify ::
  "'d kernel \<Rightarrow> u64 \<Rightarrow> bool \<Rightarrow> pci_dev \<Rightarrow> amba_pci_platform \<Rightarrow> 'd world \<Rightarrow> (int \<times> amba_pci_platform) \<times> 'd world" where
  "pcie_pci_bus_notify K action is_pci pd g w =
     (if \<not> is_pci then ((NOTIFY_DONE, g), w)
      else if action = BUS_NOTIFY_ADD_DEVICE
      then (let (g1, w1) = pcie_handle_add_locked K pd g (kdo K KC_mutex_lock w)
            in ((NOTIFY_DONE, g1), kdo K KC_mutex_unlock w1))
      else if action = BUS_NOTIFY_DEL_DEVICE
      then (let (g1, w1) = pcie_handle_del_locked K pd g (kdo K KC_mutex_lock w)
            in ((NOTIFY_DONE, g1), kdo K KC_mutex_unlock w1))
      else ((NOTIFY_DONE, g), w))"

text \<open>The type of \<open>pci_stop_and_remove_bus_device_locked\<close>, which some operations take as an argument.\<close>

type_synonym 'd remove_fn = "pci_dev \<Rightarrow> amba_pci_platform \<Rightarrow> 'd world \<Rightarrow> amba_pci_platform \<times> 'd world"

subsection \<open>The initial scan\<close>

type_synonym 'd get_device = "u16 \<Rightarrow> u16 \<Rightarrow> pci_dev option \<Rightarrow> 'd world \<Rightarrow> pci_dev option \<times> 'd world"

partial_function (option) scan_slot ::
  "'d kernel \<Rightarrow> 'd get_device \<Rightarrow> pcie_physical_slot \<Rightarrow> pci_dev option \<Rightarrow> amba_pci_platform \<Rightarrow> 'd world \<Rightarrow>
     (amba_pci_platform \<times> 'd world) option"
where
  "scan_slot K next_dev slot prev g w =
     (case next_dev (ps_target_vendor slot) (ps_target_device slot) prev w of
        (None, w1) \<Rightarrow> Some (g, kdo K (KC_pci_dev_put 0) w1)
      | (Some pd, w1) \<Rightarrow>
          (if pd_bus pd \<noteq> ps_bus slot then scan_slot K next_dev slot (Some pd) g w1
           else let (g1, w2) = pcie_handle_add_locked K pd g w1
                in scan_slot K next_dev slot (Some pd) g1 w2))"

fun scan_slots ::
  "'d kernel \<Rightarrow> 'd get_device \<Rightarrow> pcie_physical_slot list \<Rightarrow> amba_pci_platform \<Rightarrow> 'd world \<Rightarrow>
     (amba_pci_platform \<times> 'd world) option"
where
  "scan_slots K next_dev [] g w = Some (g, w)"
| "scan_slots K next_dev (s # ss) g w =
     do { (g1, w1) \<leftarrow> scan_slot K next_dev s None g w; scan_slots K next_dev ss g1 w1 }"

definition pcie_enumerate_existed_devs ::
  "'d kernel \<Rightarrow> 'd get_device \<Rightarrow> amba_pci_platform \<Rightarrow> 'd world \<Rightarrow> (amba_pci_platform \<times> 'd world) option" where
  "pcie_enumerate_existed_devs K next_dev g w =
     do { (g1, w1) \<leftarrow> scan_slots K next_dev pcie_physical_slots g (kdo K KC_mutex_lock w);
          Some (g1, kdo K KC_mutex_unlock w1) }"

end
