(* ===== verification/Ring_Xfer.thy ===== *)
theory Ring_Xfer
  imports Ring_Poll
begin

section \<open>Streaming a firmware image over the ring\<close>

text \<open>
  \<open>amba_pci_platform_transfer.c\<close>, lines 36 to 45 and 284 to 487: load addresses, the ring
  context, posting of data and command descriptors, the chunk loop of
  \<open>pcie_ring_xfer_user\<close> and \<open>pcie_fw_find_image\<close>.
  The chunk buffer is part of the loop state: a fresh \<open>kmalloc\<close> buffer holds junk
  (\<open>k_junk\<close>), each round overwrites a prefix of it, and \<open>memcpy_toio\<close> sends that prefix.
\<close>

subsection \<open>Constants and load addresses\<close>

abbreviation (input) AMBA_PCI_FW_EP_RSVD_END :: u64 where "AMBA_PCI_FW_EP_RSVD_END \<equiv> 0x02000000"
abbreviation (input) AMBA_PCI_FW_KERNEL_LOAD_ADDR :: u64 where
  "AMBA_PCI_FW_KERNEL_LOAD_ADDR \<equiv> AMBA_PCI_FW_EP_RSVD_END"
abbreviation (input) AMBA_PCI_FW_DTB_LOAD_ADDR :: u64 where
  "AMBA_PCI_FW_DTB_LOAD_ADDR \<equiv> AMBA_PCI_FW_KERNEL_LOAD_ADDR + 64 * 0x100000"
abbreviation (input) AMBA_PCI_FW_ROOTFS_LOAD_ADDR :: u64 where
  "AMBA_PCI_FW_ROOTFS_LOAD_ADDR \<equiv> AMBA_PCI_FW_DTB_LOAD_ADDR + 2 * 0x100000"

definition pcie_fw_xfer_order :: "u32 list" where
  "pcie_fw_xfer_order = [AMBA_PCI_FW_IMAGE_DTB, AMBA_PCI_FW_IMAGE_ROOTFS, AMBA_PCI_FW_IMAGE_KERNEL]"

definition pcie_fw_req_bitmap_mask :: u32 where
  "pcie_fw_req_bitmap_mask =
     push_bit (unat AMBA_PCI_FW_IMAGE_DTB) 1 OR push_bit (unat AMBA_PCI_FW_IMAGE_ROOTFS) 1 OR
     push_bit (unat AMBA_PCI_FW_IMAGE_KERNEL) 1"

definition pcie_fw_load_addr :: "u32 \<Rightarrow> u64" where
  "pcie_fw_load_addr type =
     (if type = AMBA_PCI_FW_IMAGE_DTB then AMBA_PCI_FW_DTB_LOAD_ADDR
      else if type = AMBA_PCI_FW_IMAGE_ROOTFS then AMBA_PCI_FW_ROOTFS_LOAD_ADDR
      else if type = AMBA_PCI_FW_IMAGE_KERNEL then AMBA_PCI_FW_KERNEL_LOAD_ADDR
      else 0)"

definition pcie_fw_find_image :: "amba_pci_fw_xfer \<Rightarrow> u32 \<Rightarrow> amba_pci_fw_image_desc option" where
  "pcie_fw_find_image req type = find (\<lambda>img. img_type img = type) (fx_images req)"

subsection \<open>The ring context\<close>

record pcie_ring_ctx =
  rc_base :: u64
  rc_num :: u32
  rc_max_blk :: u32
  rc_cur_avail :: u32
  rc_cur_blk :: u32

definition zero_ring_ctx :: pcie_ring_ctx where
  "zero_ring_ctx = \<lparr>rc_base = 0, rc_num = 0, rc_max_blk = 0, rc_cur_avail = 0, rc_cur_blk = 0\<rparr>"

definition pcie_ring_ctx_init ::
  "'d kernel \<Rightarrow> u64 \<Rightarrow> u64 \<Rightarrow> pcie_ring_ctx \<Rightarrow> 'd world \<Rightarrow> (int \<times> pcie_ring_ctx) \<times> 'd world" where
  "pcie_ring_ctx_init K ring_base ring_map_size ctx w =
     (let (num, w1) = pcie_ring_r32 K ring_base RH_NUM_OFF w;
          (max_blk, w2) = pcie_ring_r32 K ring_base RH_MAX_BLK_OFF w1
      in if num = 0 \<or> max_blk = 0 then ((- EINVAL, ctx), w2)
         else if ring_map_size < ucast (max_blk + 1) * ucast RING_BLOCK_SIZE then ((- EINVAL, ctx), w2)
         else (let (avail, w3) = pcie_ring_r32 K ring_base RH_AVAIL_OFF w2
               in ((0, ctx\<lparr>rc_base := ring_base, rc_num := num, rc_max_blk := max_blk,
                           rc_cur_avail := avail - num, rc_cur_blk := 0\<rparr>), w3)))"

subsection \<open>Posting descriptors\<close>

definition bump_used :: "'d kernel \<Rightarrow> u64 \<Rightarrow> 'd world \<Rightarrow> 'd world" where
  "bump_used K base w =
     (let (used, w1) = pcie_ring_r32 K base RH_USED_OFF w in pcie_ring_w32 K base RH_USED_OFF (used + 1) w1)"

definition write_desc :: "'d kernel \<Rightarrow> u64 \<Rightarrow> u32 \<Rightarrow> u32 \<Rightarrow> u64 \<Rightarrow> u32 \<Rightarrow> 'd world \<Rightarrow> 'd world" where
  "write_desc K desc cmd sz addr blk w =
     pcie_ring_w32 K desc 16 blk
       (pcie_ring_w32 K desc 12 (ucast (drop_bit 32 addr))
         (pcie_ring_w32 K desc 8 (ucast (addr AND 0xffffffff))
           (pcie_ring_w32 K desc 4 sz
             (pcie_ring_w32 K desc 0 cmd w))))"

definition pcie_ring_post_data ::
  "'d kernel \<Rightarrow> pcie_ring_ctx \<Rightarrow> u8 list \<Rightarrow> u32 \<Rightarrow> u64 \<Rightarrow> 'd world \<Rightarrow> ((int \<times> pcie_ring_ctx) \<times> 'd world) option" where
  "pcie_ring_post_data K ctx chunk csz ep_addr w =
     do { (ret, w1) \<leftarrow> pcie_ring_wait_u32 K (rc_base ctx) RH_AVAIL_OFF (rc_cur_avail ctx) False 5000 w;
          if ret \<noteq> 0 then Some ((ret, ctx), w1)
          else (let desc = pcie_ring_desc (rc_base ctx) (rc_cur_avail ctx) (rc_num ctx);
                    blk = rc_cur_blk ctx mod rc_max_blk ctx;
                    w2 = write_desc K desc RING_CMD_DATA csz ep_addr blk w1;
                    dst = pcie_ring_data_blk (rc_base ctx) blk;
                    w3 = memcpy_toio K dst (take (unat csz) chunk) w2;
                    ctx1 = ctx\<lparr>rc_cur_blk := rc_cur_blk ctx + 1\<rparr>;
                    w4 = bump_used K (rc_base ctx) w3
                in Some ((0, ctx1\<lparr>rc_cur_avail := rc_cur_avail ctx1 + 1\<rparr>), w4)) }"

definition pcie_ring_post_cmd ::
  "'d kernel \<Rightarrow> pcie_ring_ctx \<Rightarrow> u32 \<Rightarrow> u32 \<Rightarrow> u64 \<Rightarrow> 'd world \<Rightarrow> ((int \<times> pcie_ring_ctx) \<times> 'd world) option" where
  "pcie_ring_post_cmd K ctx cmd sz addr w =
     do { (ret, w1) \<leftarrow> pcie_ring_wait_u32 K (rc_base ctx) RH_AVAIL_OFF (rc_cur_avail ctx) False 5000 w;
          if ret \<noteq> 0 then Some ((ret, ctx), w1)
          else (let desc = pcie_ring_desc (rc_base ctx) (rc_cur_avail ctx) (rc_num ctx);
                    w2 = write_desc K desc cmd sz addr 0 w1;
                    w3 = bump_used K (rc_base ctx) w2
                in Some ((0, ctx\<lparr>rc_cur_avail := rc_cur_avail ctx + 1\<rparr>), w3)) }"

subsection \<open>The image transfer\<close>

text \<open>One round's buffer: the next file bytes, padded with zeros. \<open>None\<close> is a user-copy fault.\<close>

definition fill_chunk :: "'d kernel \<Rightarrow> u64 \<Rightarrow> u64 \<Rightarrow> u64 \<Rightarrow> u32 \<Rightarrow> u8 list \<Rightarrow> u8 list option" where
  "fill_chunk K src data_len ep_pos csz chunk =
     (if data_len \<le> ep_pos then Some (put_at 0 (replicate (unat csz) 0) chunk)
      else (let nfile = min (ucast csz) (data_len - ep_pos)
            in case copy_from_user K (src + ep_pos) (unat nfile) of
                 None \<Rightarrow> None
               | Some bs \<Rightarrow>
                   (let chunk1 = put_at 0 bs chunk
                    in Some (if nfile < ucast csz
                             then put_at (unat nfile) (replicate (unat (ucast csz - nfile)) 0) chunk1
                             else chunk1))))"

definition chunk_size :: "u64 \<Rightarrow> u64 \<Rightarrow> u32" where
  "chunk_size tot ep_pos = ucast (min (ucast RING_BLOCK_SIZE) (tot - ep_pos))"

partial_function (option) xfer_chunks ::
  "'d kernel \<Rightarrow> u64 \<Rightarrow> u64 \<Rightarrow> u64 \<Rightarrow> u64 \<Rightarrow> u64 \<Rightarrow> u8 list \<Rightarrow> pcie_ring_ctx \<Rightarrow> 'd world \<Rightarrow>
     ((int \<times> pcie_ring_ctx) \<times> 'd world) option"
where
  "xfer_chunks K src data_len load_addr tot ep_pos chunk ctx w =
     (if ep_pos < tot then
        (case fill_chunk K src data_len ep_pos (chunk_size tot ep_pos) chunk of
           None \<Rightarrow> Some ((- EFAULT, ctx), w)
         | Some chunk1 \<Rightarrow>
             do { rw \<leftarrow> pcie_ring_post_data K ctx chunk1 (chunk_size tot ep_pos) (load_addr + ep_pos) w;
                  if fst (fst rw) \<noteq> 0 then Some rw
                  else xfer_chunks K src data_len load_addr tot (ep_pos + ucast (chunk_size tot ep_pos))
                         chunk1 (snd (fst rw)) (snd rw) })
      else Some ((0, ctx), w))"

definition tail_cmd :: "u32 \<Rightarrow> u32" where
  "tail_cmd type =
     (if type = AMBA_PCI_FW_IMAGE_KERNEL then RING_CMD_SET_LNX_ADDR
      else if type = AMBA_PCI_FW_IMAGE_DTB then RING_CMD_SET_DTB_ADDR
      else if type = AMBA_PCI_FW_IMAGE_ROOTFS then RING_CMD_SET_INITRD_ADDR
      else 0)"

definition tail_size :: "u32 \<Rightarrow> u64 \<Rightarrow> u32" where
  "tail_size type data_len = (if type = AMBA_PCI_FW_IMAGE_ROOTFS then ucast data_len else 0)"

definition padded_len :: "u64 \<Rightarrow> u64" where
  "padded_len data_len = (data_len + 0xF) AND NOT 0xF"

definition xfer_user_body ::
  "'d kernel \<Rightarrow> u64 \<Rightarrow> u64 \<Rightarrow> u64 \<Rightarrow> amba_pci_fw_image_desc \<Rightarrow> 'd world \<Rightarrow> (int \<times> 'd world) option" where
  "xfer_user_body K ring_base ring_map_size user_base img w =
     (let data_len = img_length img; load_addr = pcie_fw_load_addr (img_type img);
          ((ret, ring), w1) = pcie_ring_ctx_init K ring_base ring_map_size zero_ring_ctx w
      in if ret \<noteq> 0 then Some (ret, w1)
         else do { ((ret, ring), w2) \<leftarrow>
                     xfer_chunks K (user_base + img_offset img) data_len load_addr (padded_len data_len) 0
                       (k_junk K (unat RING_BLOCK_SIZE)) ring w1;
                   if ret \<noteq> 0 then Some (ret, w2)
                   else do { ((ret, ring), w3) \<leftarrow>
                               pcie_ring_post_cmd K ring (tail_cmd (img_type img))
                                 (tail_size (img_type img) data_len) load_addr w2;
                             if ret \<noteq> 0 then Some (ret, w3)
                             else pcie_ring_xfer_poll K ring_base 5000 w3 } })"

definition pcie_ring_xfer_user ::
  "'d kernel \<Rightarrow> u64 \<Rightarrow> u64 \<Rightarrow> u64 \<Rightarrow> amba_pci_fw_image_desc \<Rightarrow> 'd world \<Rightarrow> (int \<times> 'd world) option" where
  "pcie_ring_xfer_user K ring_base ring_map_size user_base img w =
     (let (chunk, w1) = kcall K (KC_kmalloc (unat RING_BLOCK_SIZE)) w
      in if chunk = 0 then Some (- ENOMEM, kdo K KC_kfree w1)
         else do { (ret, w2) \<leftarrow> xfer_user_body K ring_base ring_map_size user_base img w1;
                   Some (ret, kdo K KC_kfree w2) })"

end
