(* ===== verification/Ioctl_Ops.thy ===== *)
theory Ioctl_Ops
  imports Hotplug Ring_Xfer
begin

section \<open>The control device: ioctls\<close>

text \<open>
  \<open>amba_pci_platform_main.c\<close>, lines 177 to 500. Each handler takes the user pointer, the platform
  and the world. Two things it uses are not the driver's own and are arguments:
  \<open>shl\<close> is \<open>1U << t\<close>, which C leaves undefined for \<open>t >= 32\<close>, and \<open>rm\<close> is
  \<open>pci_stop_and_remove_bus_device_locked\<close>, which calls the driver back through the bus notifier.
  An outcome is the returned value, or the use of a NULL pointer.
\<close>

datatype outcome = Ret int | Null_Deref

abbreviation (input) AMBA_PCI_H2D_CHUNK_MAX :: u64 where "AMBA_PCI_H2D_CHUNK_MAX \<equiv> push_bit 20 2"

subsection \<open>Query\<close>

fun query_all ::
  "'d kernel \<Rightarrow> nat \<Rightarrow> pcie_dev_entry list \<Rightarrow> 'd world \<Rightarrow>
     (amba_pci_dev_info list \<times> pcie_dev_entry list \<times> nat) \<times> 'd world" where
  "query_all K i [] w = (([], [], 0), w)"
| "query_all K i (e # es) w =
     (let ((d, e1), w1) = pcie_query_dev_info_locked K e (int i) w;
          ((ds, es1, n), w2) = query_all K (Suc i) es w1
      in ((d # ds, e1 # es1, (if e_in_use e1 then Suc n else n)), w2))"

definition pcie_ioctl_query_platform_info ::
  "'d kernel \<Rightarrow> u64 \<Rightarrow> amba_pci_platform \<Rightarrow> 'd world \<Rightarrow> (int \<times> amba_pci_platform) \<times> 'd world" where
  "pcie_ioctl_query_platform_info K argp g w =
     (if argp = 0 then ((- EINVAL, g), w)
      else let w1 = kdo K KC_mutex_lock w;
               ((infos, es, valid_count), w2) = query_all K 0 (g_devs g) w1;
               w3 = kdo K KC_mutex_unlock w2;
               info = \<lparr>pi_version = 1, pi_dev_num = of_nat valid_count, pi_devs = infos\<rparr>;
               (left, w4) = kcall K (KC_copy_to_user argp (platform_info_to_bytes info)) w3
           in ((if left \<noteq> 0 then - EFAULT else 0, g\<lparr>g_devs := es\<rparr>), w4))"

subsection \<open>Firmware transfer\<close>

text \<open>The checks of the image table, and the bitmap of the image types; \<open>None\<close> is a bad image.\<close>

fun fw_images_bitmap :: "(u32 \<Rightarrow> u32) \<Rightarrow> u64 \<Rightarrow> amba_pci_fw_image_desc list \<Rightarrow> u32 \<Rightarrow> u32 option" where
  "fw_images_bitmap shl fw_size [] bitmap = Some bitmap"
| "fw_images_bitmap shl fw_size (img # imgs) bitmap =
     (if img_offset img > fw_size \<or> img_length img = 0 \<or> img_length img > fw_size - img_offset img then None
      else fw_images_bitmap shl fw_size imgs (bitmap OR shl (img_type img)))"

definition fw_request_ok :: "(u32 \<Rightarrow> u32) \<Rightarrow> amba_pci_fw_xfer \<Rightarrow> bool" where
  "fw_request_ok shl req \<longleftrightarrow>
     \<not> fx_slot_id req \<ge> of_nat AMBA_PCI_DEV_MAX \<and> \<not> (fx_fw_user_ptr req = 0 \<or> fx_fw_size req = 0) \<and>
     fw_images_bitmap shl (fx_fw_size req) (fx_images req) 0 = Some pcie_fw_req_bitmap_mask"

fun xfer_images ::
  "'d kernel \<Rightarrow> amba_pci_fw_xfer \<Rightarrow> pcie_dev_entry \<Rightarrow> u32 list \<Rightarrow> 'd world \<Rightarrow> (outcome \<times> 'd world) option" where
  "xfer_images K req e [] w = Some (Ret 0, w)"
| "xfer_images K req e (ty # tys) w =
     (case pcie_fw_find_image req ty of
        None \<Rightarrow> Some (Null_Deref, w)
      | Some img \<Rightarrow>
          do { (ret, w1) \<leftarrow> pcie_ring_xfer_user K (e_boot_mem_base e) (e_boot_len e) (fx_fw_user_ptr req) img w;
               if ret \<noteq> 0 then Some (Ret ret, w1) else xfer_images K req e tys w1 })"

text \<open>The part under the mutex: outcome, entry, and whether the device is to be removed.\<close>

definition xfer_firmware_locked ::
  "'d kernel \<Rightarrow> amba_pci_fw_xfer \<Rightarrow> pcie_dev_entry \<Rightarrow> 'd world \<Rightarrow>
     ((outcome \<times> pcie_dev_entry \<times> bool) \<times> 'd world) option" where
  "xfer_firmware_locked K req e w =
     (if \<not> e_in_use e then Some ((Ret (- ENODEV), e, False), w)
      else if e_state e \<noteq> AMBA_PCI_STATE_DISCONNECTED then Some ((Ret (- EBUSY), e, False), w)
      else let ((ret, e1), w1) = pcie_dev_refresh_board_info_locked K e w
           in if ret \<noteq> 0 then Some ((Ret ret, e1, False), w1)
              else case e_pdev e1 of
                None \<Rightarrow> Some ((Null_Deref, e1, False), w1)
              | Some pd \<Rightarrow>
                  do { (ret, w2) \<leftarrow> pcie_ring_wait_ep_ready K (e_boot_mem_base e1)
                                      (kdo K (KC_pci_set_master (pd_handle pd)) w1);
                       if ret \<noteq> 0 then Some ((Ret ret, e1, False), w2)
                       else do { (res, w3) \<leftarrow> xfer_images K req e1 pcie_fw_xfer_order w2;
                                 if res \<noteq> Ret 0 then Some ((res, e1, False), w3)
                                 else let e2 = e1\<lparr>e_state := AMBA_PCI_STATE_BOOTING\<rparr>;
                                          (e3, w4) = pcie_boot_timeout_schedule K (unat (fx_slot_id req)) e2 w3
                                      in Some ((Ret 0, e3, True), w4) } })"

definition pcie_ioctl_xfer_firmware ::
  "'d kernel \<Rightarrow> (u32 \<Rightarrow> u32) \<Rightarrow> 'd remove_fn \<Rightarrow> u64 \<Rightarrow> amba_pci_platform \<Rightarrow> 'd world \<Rightarrow>
     ((outcome \<times> amba_pci_platform) \<times> 'd world) option" where
  "pcie_ioctl_xfer_firmware K shl rm argp g w =
     (case copy_from_user K argp (size_of fw_xfer_layout) of
        None \<Rightarrow> Some ((Ret (- EFAULT), g), w)
      | Some bs \<Rightarrow>
          (let req = fw_xfer_of_bytes bs; i = unat (fx_slot_id req)
           in if \<not> fw_request_ok shl req then Some ((Ret (- EINVAL), g), w)
              else do { ((res, e, hot), w1) \<leftarrow> xfer_firmware_locked K req (g_devs g ! i) (kdo K KC_mutex_lock w);
                        let g1 = set_entry g i e;
                        if res = Null_Deref then Some ((res, g1), w1)
                        else let w2 = kdo K KC_mutex_unlock w1
                             in case (if hot then e_pdev e else None) of
                                  None \<Rightarrow> Some ((res, g1), w2)
                                | Some pd \<Rightarrow> let (g2, w3) = rm pd g1 w2 in Some ((res, g2), w3) }))"

subsection \<open>Sending a file\<close>

text \<open>The checks under the mutex that both send ioctls make: an errno, or the device's bus.\<close>

definition h2d_target :: "'d kernel \<Rightarrow> amba_pci_platform \<Rightarrow> u32 \<Rightarrow> 'd world \<Rightarrow> (int + u32) \<times> 'd world" where
  "h2d_target K g slot_id w =
     (let w1 = kdo K KC_mutex_lock w; e = g_devs g ! unat slot_id
      in case (if e_in_use e then e_pdev e else None) of
           None \<Rightarrow> (Inl (- ENODEV), kdo K KC_mutex_unlock w1)
         | Some pd \<Rightarrow> if e_state e \<noteq> AMBA_PCI_STATE_CONNECTED then (Inl (- EBUSY), kdo K KC_mutex_unlock w1)
                      else (Inr (ucast (pd_bus pd)), kdo K KC_mutex_unlock w1))"

partial_function (option) send_file_loop ::
  "'d kernel \<Rightarrow> u32 \<Rightarrow> nat \<Rightarrow> u64 \<Rightarrow> 'd world \<Rightarrow> (int \<times> 'd world) option"
where
  "send_file_loop K bus pos ep_addr w =
     (case k_read K (w_out w) pos (unat AMBA_PCI_H2D_CHUNK_MAX) of
        Inl err \<Rightarrow> Some (err, w)
      | Inr bs \<Rightarrow>
          (if bs = [] then Some (0, w)
           else let rw = kcall K (KC_h2d_xfer bus bs ep_addr) w
                in if fst rw \<noteq> 0 then Some rw
                   else send_file_loop K bus (pos + length bs) (ep_addr + of_nat (length bs)) (snd rw)))"

definition pci_turbo_bus_xfer_h2d :: string where
  "pci_turbo_bus_xfer_h2d = ''pci_turbo_bus_xfer_h2d''"

definition pcie_ioctl_h2d_send_file ::
  "'d kernel \<Rightarrow> u64 \<Rightarrow> amba_pci_platform \<Rightarrow> 'd world \<Rightarrow> (int \<times> 'd world) option" where
  "pcie_ioctl_h2d_send_file K argp g w =
     (case copy_from_user K argp (size_of h2d_send_file_layout) of
        None \<Rightarrow> Some (- EFAULT, w)
      | Some bs \<Rightarrow>
          (let req0 = h2d_send_file_of_bytes bs;
               req = req0\<lparr>sf_path := (sf_path req0)[AMBA_PCI_PATH_MAX - 1 := 0]\<rparr>
           in if sf_slot_id req \<ge> of_nat AMBA_PCI_DEV_MAX \<or> sf_path req ! 0 = 0 \<or> sf_ep_addr req = 0
              then Some (- EINVAL, w)
              else case h2d_target K g (sf_slot_id req) w of
                (Inl err, w1) \<Rightarrow> Some (err, w1)
              | (Inr bus, w1) \<Rightarrow>
                  (let (sym, w2) = kcall K (KC_symbol_get pci_turbo_bus_xfer_h2d) w1
                   in if sym = 0 then Some (- ENODEV, w2)
                      else let (file, w3) = kcall K (KC_filp_open (cstr (sf_path req))) w2
                           in if file < 0 then Some (file, kdo K (KC_symbol_put pci_turbo_bus_xfer_h2d) w3)
                              else let (kbuf, w4) = kcall K (KC_vmalloc (unat AMBA_PCI_H2D_CHUNK_MAX)) w3
                                   in if kbuf = 0
                                      then Some (- ENOMEM, kdo K (KC_symbol_put pci_turbo_bus_xfer_h2d)
                                                             (kdo K KC_filp_close w4))
                                      else do { (ret, w5) \<leftarrow> send_file_loop K bus 0 (sf_ep_addr req) w4;
                                                Some (ret, kdo K (KC_symbol_put pci_turbo_bus_xfer_h2d)
                                                             (kdo K KC_filp_close (kdo K KC_vfree w5))) })))"

subsection \<open>Sending a buffer\<close>

partial_function (option) send_buffer_loop ::
  "'d kernel \<Rightarrow> u32 \<Rightarrow> u64 \<Rightarrow> u64 \<Rightarrow> u64 \<Rightarrow> u64 \<Rightarrow> 'd world \<Rightarrow> (int \<times> 'd world) option"
where
  "send_buffer_loop K bus src sz ep_addr offset w =
     (if offset < sz then
        (let n = min (sz - offset) AMBA_PCI_H2D_CHUNK_MAX in
         case copy_from_user K (src + offset) (unat n) of
           None \<Rightarrow> Some (- EFAULT, w)
         | Some bs \<Rightarrow>
             (let rw = kcall K (KC_h2d_xfer bus bs (ep_addr + offset)) w
              in if fst rw \<noteq> 0 then Some rw
                 else send_buffer_loop K bus src sz ep_addr (offset + n) (snd rw)))
      else Some (0, w))"

definition h2d_send_buffer_ok :: "amba_pci_h2d_send_buffer \<Rightarrow> bool" where
  "h2d_send_buffer_ok req \<longleftrightarrow>
     \<not> (sb_slot_id req \<ge> of_nat AMBA_PCI_DEV_MAX \<or> sb_src_user_ptr req = 0 \<or> sb_size req = 0 \<or> sb_ep_addr req = 0 \<or>
        sb_src_user_ptr req > - 1 - sb_size req \<or> sb_ep_addr req > - 1 - sb_size req)"

definition pcie_ioctl_h2d_send_buffer ::
  "'d kernel \<Rightarrow> u64 \<Rightarrow> amba_pci_platform \<Rightarrow> 'd world \<Rightarrow> (int \<times> 'd world) option" where
  "pcie_ioctl_h2d_send_buffer K argp g w =
     (case copy_from_user K argp (size_of h2d_send_buffer_layout) of
        None \<Rightarrow> Some (- EFAULT, w)
      | Some bs \<Rightarrow>
          (let req = h2d_send_buffer_of_bytes bs
           in if \<not> h2d_send_buffer_ok req then Some (- EINVAL, w)
              else case h2d_target K g (sb_slot_id req) w of
                (Inl err, w1) \<Rightarrow> Some (err, w1)
              | (Inr bus, w1) \<Rightarrow>
                  (let (sym, w2) = kcall K (KC_symbol_get pci_turbo_bus_xfer_h2d) w1
                   in if sym = 0 then Some (- ENODEV, w2)
                      else let (kbuf, w3) = kcall K (KC_vmalloc (unat AMBA_PCI_H2D_CHUNK_MAX)) w2
                           in if kbuf = 0 then Some (- ENOMEM, kdo K (KC_symbol_put pci_turbo_bus_xfer_h2d) w3)
                              else do { (ret, w4) \<leftarrow> send_buffer_loop K bus (sb_src_user_ptr req) (sb_size req)
                                                       (sb_ep_addr req) 0 w3;
                                        Some (ret, kdo K (KC_symbol_put pci_turbo_bus_xfer_h2d)
                                                     (kdo K KC_vfree w4)) })))"

subsection \<open>Dispatch\<close>

definition pcie_file_ioctl ::
  "'d kernel \<Rightarrow> (u32 \<Rightarrow> u32) \<Rightarrow> 'd remove_fn \<Rightarrow> u32 \<Rightarrow> u64 \<Rightarrow> amba_pci_platform \<Rightarrow> 'd world \<Rightarrow>
     ((outcome \<times> amba_pci_platform) \<times> 'd world) option" where
  "pcie_file_ioctl K shl rm cmd arg g w =
     (if cmd = AMBA_PCI_QUERY_PLATFORM_INFO
      then let ((ret, g1), w1) = pcie_ioctl_query_platform_info K arg g w in Some ((Ret ret, g1), w1)
      else if cmd = AMBA_PCI_XFER_FIRMWARE then pcie_ioctl_xfer_firmware K shl rm arg g w
      else if cmd = AMBA_PCI_H2D_SEND_FILE
      then do { (ret, w1) \<leftarrow> pcie_ioctl_h2d_send_file K arg g w; Some ((Ret ret, g), w1) }
      else if cmd = AMBA_PCI_H2D_SEND_BUFFER
      then do { (ret, w1) \<leftarrow> pcie_ioctl_h2d_send_buffer K arg g w; Some ((Ret ret, g), w1) }
      else Some ((Ret (- ENOTTY), g), w))"

end
