(* ===== verification/Fw_Request.thy ===== *)
theory Fw_Request
  imports Ioctl_Ops
begin

section \<open>Validation of a firmware request\<close>

text \<open>
  What the checks of \<open>pcie_ioctl_xfer_firmware\<close> before the mutex establish: three images inside
  the caller's buffer, one of each type, so that every image the transfer loop looks up is found.
  The bitmap of types is built with \<open>1U << type\<close>: the result is stated for type numbers below 32,
  where C defines the shift, and a counterexample shows what a target that takes the shift count
  modulo 32 (as arm64 does) lets through.
\<close>

definition shift_ok :: "(u32 \<Rightarrow> u32) \<Rightarrow> bool" where
  "shift_ok shl \<longleftrightarrow> (\<forall>t. unat t < 32 \<longrightarrow> shl t = push_bit (unat t) 1)"

definition image_in_bounds :: "u64 \<Rightarrow> amba_pci_fw_image_desc \<Rightarrow> bool" where
  "image_in_bounds fw_size img \<longleftrightarrow>
     img_length img \<noteq> 0 \<and> unat (img_offset img) + unat (img_length img) \<le> unat fw_size"

lemma image_check:
  "\<not> (img_offset img > fw_size \<or> img_length img = 0 \<or> img_length img > fw_size - img_offset img) \<longleftrightarrow>
     image_in_bounds fw_size img"
proof (cases "img_offset img \<le> fw_size")
  case True
  then have "unat (fw_size - img_offset img) = unat fw_size - unat (img_offset img)"
    by (simp add: unat_sub)
  with True show ?thesis
    by (auto simp: image_in_bounds_def word_le_nat_alt word_less_nat_alt not_less)
next
  case False
  then show ?thesis by (auto simp: image_in_bounds_def word_le_nat_alt word_less_nat_alt)
qed

lemma bitmap_Some:
  "fw_images_bitmap shl fw_size imgs b = Some r \<longleftrightarrow>
     (\<forall>img \<in> set imgs. image_in_bounds fw_size img) \<and> r = fold (\<lambda>img acc. acc OR shl (img_type img)) imgs b"
proof (induction imgs arbitrary: b)
  case Nil
  then show ?case by auto
next
  case (Cons img imgs)
  show ?case
    unfolding fw_images_bitmap.simps using image_check [where img = img and fw_size = fw_size] Cons by auto
qed

lemma bit_fold_or:
  "bit (fold (\<lambda>img acc. acc OR shl (img_type img)) imgs b) n \<longleftrightarrow>
     bit b n \<or> (\<exists>img \<in> set imgs. bit (shl (img_type img) :: u32) n)"
  by (induction imgs arbitrary: b) (auto simp: bit_simps)

lemma bit_mask_7: "bit pcie_fw_req_bitmap_mask n \<longleftrightarrow> n < 3"
proof -
  have "pcie_fw_req_bitmap_mask = mask 3"
    by (simp add: pcie_fw_req_bitmap_mask_def mask_eq_exp_minus_1)
  then have "bit pcie_fw_req_bitmap_mask n \<longleftrightarrow> bit (mask 3 :: u32) n" by simp
  then show ?thesis by (auto simp: bit_mask_iff)
qed

lemma bit_shift_one: "k < 32 \<Longrightarrow> bit (2 ^ k :: u32) n \<longleftrightarrow> n = k"
  by (auto simp: bit_exp_iff)

lemma bitmap_types:
  assumes "shift_ok shl" "\<forall>img \<in> set imgs. unat (img_type img) < 32"
  shows "fold (\<lambda>img acc. acc OR shl (img_type img)) imgs 0 = pcie_fw_req_bitmap_mask \<longleftrightarrow>
    img_type ` set imgs = set pcie_fw_xfer_order"
proof -
  let ?m = "fold (\<lambda>img acc. acc OR shl (img_type img)) imgs 0"
  have b: "bit ?m n \<longleftrightarrow> n \<in> unat ` img_type ` set imgs" for n
  proof -
    have "bit (shl (img_type img)) n \<longleftrightarrow> n = unat (img_type img)" if "img \<in> set imgs" for img
      using assms that by (simp add: shift_ok_def bit_shift_one)
    then show ?thesis unfolding bit_fold_or by auto
  qed
  have "?m = pcie_fw_req_bitmap_mask \<longleftrightarrow> (\<forall>n. bit ?m n \<longleftrightarrow> bit pcie_fw_req_bitmap_mask n)"
    by (metis bit_eqI)
  also have "\<dots> \<longleftrightarrow> unat ` img_type ` set imgs = {..<3}"
    unfolding b bit_mask_7 by auto
  also have "{..<3} = unat ` set pcie_fw_xfer_order"
    by (auto simp: pcie_fw_xfer_order_def numeral_3_eq_3 lessThan_Suc)
  also have "unat ` img_type ` set imgs = unat ` set pcie_fw_xfer_order \<longleftrightarrow>
      img_type ` set imgs = set pcie_fw_xfer_order"
    by (rule inj_image_eq_iff) (simp add: inj_def word_unat_eq_iff)
  finally show ?thesis .
qed

lemma order_card: "card (set pcie_fw_xfer_order) = 3"
  by (simp add: pcie_fw_xfer_order_def)

lemma fw_request_ok_iff:
  assumes "shift_ok shl" "\<forall>img \<in> set (fx_images req). unat (img_type img) < 32"
    and "length (fx_images req) = AMBA_PCI_FW_IMAGE_MAX"
  shows "fw_request_ok shl req \<longleftrightarrow>
    unat (fx_slot_id req) < AMBA_PCI_DEV_MAX \<and> fx_fw_user_ptr req \<noteq> 0 \<and> fx_fw_size req \<noteq> 0 \<and>
    (\<forall>img \<in> set (fx_images req). image_in_bounds (fx_fw_size req) img) \<and>
    set (map img_type (fx_images req)) = set pcie_fw_xfer_order \<and> distinct (map img_type (fx_images req))"
proof -
  have "distinct (map img_type (fx_images req))"
    if "set (map img_type (fx_images req)) = set pcie_fw_xfer_order"
    by (rule card_distinct) (simp only: that order_card length_map assms(3))
  moreover have "\<not> fx_slot_id req \<ge> of_nat AMBA_PCI_DEV_MAX \<longleftrightarrow> unat (fx_slot_id req) < AMBA_PCI_DEV_MAX"
    by (simp add: word_le_nat_alt not_le)
  moreover have "pcie_fw_req_bitmap_mask = fold (\<lambda>img acc. acc OR shl (img_type img)) (fx_images req) 0 \<longleftrightarrow>
      set (map img_type (fx_images req)) = set pcie_fw_xfer_order"
    using bitmap_types [OF assms(1,2)] by (simp only: set_map eq_commute)
  ultimately show ?thesis
    unfolding fw_request_ok_def bitmap_Some by blast
qed

lemma find_image_Some:
  "pcie_fw_find_image req ty = Some img \<Longrightarrow> img \<in> set (fx_images req) \<and> img_type img = ty"
  unfolding pcie_fw_find_image_def by (auto simp: find_Some_iff)

lemma find_image_total:
  assumes "set (map img_type (fx_images req)) = set pcie_fw_xfer_order" "ty \<in> set pcie_fw_xfer_order"
  shows "\<exists>img. pcie_fw_find_image req ty = Some img"
proof -
  have "ty \<in> set (map img_type (fx_images req))" using assms by simp
  then have "\<exists>img \<in> set (fx_images req). img_type img = ty" by auto
  then show ?thesis unfolding pcie_fw_find_image_def
    by (cases "find (\<lambda>img. img_type img = ty) (fx_images req)") (auto simp: find_None_iff)
qed

lemma fw_xfer_of_bytes_images [simp]: "length (fx_images (fw_xfer_of_bytes bs)) = AMBA_PCI_FW_IMAGE_MAX"
  by (simp add: fw_xfer_of_bytes_def)

text \<open>C19: For image types below 32 the request checks accept exactly the requests with a slot of the
  table, a non-null buffer, three non-empty images that lie inside the buffer without wrapping,
  and one image of each of the three types; then every image the transfer looks up is found and
  is the only one of its type.\<close>

theorem fw_request_checks:
  assumes "shift_ok shl" and "\<forall>img \<in> set (fx_images req). unat (img_type img) < 32"
    and "length (fx_images req) = AMBA_PCI_FW_IMAGE_MAX"
  shows "(fw_request_ok shl req \<longleftrightarrow>
      unat (fx_slot_id req) < AMBA_PCI_DEV_MAX \<and> fx_fw_user_ptr req \<noteq> 0 \<and> fx_fw_size req \<noteq> 0 \<and>
      (\<forall>img \<in> set (fx_images req). image_in_bounds (fx_fw_size req) img) \<and>
      set (map img_type (fx_images req)) = set pcie_fw_xfer_order \<and> distinct (map img_type (fx_images req))) \<and>
    (fw_request_ok shl req \<longrightarrow>
      (\<forall>ty \<in> set pcie_fw_xfer_order. \<exists>!img. img \<in> set (fx_images req) \<and> img_type img = ty \<and>
         pcie_fw_find_image req ty = Some img))"
proof -
  note iff = fw_request_ok_iff [OF assms]
  have "\<exists>!img. img \<in> set (fx_images req) \<and> img_type img = ty \<and> pcie_fw_find_image req ty = Some img"
    if "fw_request_ok shl req" "ty \<in> set pcie_fw_xfer_order" for ty
    using find_image_total [of req ty] that iff find_image_Some by (metis option.inject)
  then show ?thesis using iff by blast
qed

definition demo_images :: "amba_pci_fw_image_desc list" where
  "demo_images =
     [\<lparr>img_type = AMBA_PCI_FW_IMAGE_KERNEL, img_reserved = 0, img_offset = 0, img_length = 7\<rparr>,
      \<lparr>img_type = AMBA_PCI_FW_IMAGE_DTB, img_reserved = 0, img_offset = 8, img_length = 5\<rparr>,
      \<lparr>img_type = AMBA_PCI_FW_IMAGE_ROOTFS, img_reserved = 0, img_offset = 16, img_length = 6\<rparr>]"

definition demo_req :: amba_pci_fw_xfer where
  "demo_req = \<lparr>fx_slot_id = 0, fx_fw_size = 32, fx_fw_user_ptr = 0x1060, fx_images = demo_images\<rparr>"

definition shl32 :: "u32 \<Rightarrow> u32" where
  "shl32 t = push_bit (unat t mod 32) 1"

lemma shl32_ok: "shift_ok shl32"
  by (simp add: shift_ok_def shl32_def)

theorem fw_request_checks_witness: "fw_request_ok shl32 demo_req \<and> (\<exists>img. pcie_fw_find_image demo_req AMBA_PCI_FW_IMAGE_KERNEL = Some img)"
proof -
  have small: "\<forall>img \<in> set (fx_images demo_req). unat (img_type img) < 32"
    and len: "length (fx_images demo_req) = AMBA_PCI_FW_IMAGE_MAX"
    by (simp_all add: demo_req_def demo_images_def)
  have "fw_request_ok shl32 demo_req"
    using fw_request_checks [OF shl32_ok small len]
    by (auto simp: demo_req_def demo_images_def image_in_bounds_def pcie_fw_xfer_order_def)
  then show ?thesis using fw_request_checks [OF shl32_ok small len] by (auto simp: pcie_fw_xfer_order_def)
qed

text \<open>C32: Where the shift takes its count modulo 32, the checks accept a request whose third image has
  type 34 instead of 2: the bitmap is complete, but no kernel image exists, and the transfer loop
  uses the NULL descriptor that \<open>pcie_fw_find_image\<close> returns.\<close>

theorem fw_request_wild_type_accepted:
  assumes "\<forall>t. shl t = push_bit (unat t mod 32) 1"
    and "map img_type (fx_images req) = [AMBA_PCI_FW_IMAGE_DTB, AMBA_PCI_FW_IMAGE_ROOTFS, 34]"
    and "\<forall>img \<in> set (fx_images req). image_in_bounds (fx_fw_size req) img"
    and "unat (fx_slot_id req) < AMBA_PCI_DEV_MAX" and "fx_fw_user_ptr req \<noteq> 0" and "fx_fw_size req \<noteq> 0"
  shows "fw_request_ok shl req \<and> pcie_fw_find_image req AMBA_PCI_FW_IMAGE_KERNEL = None \<and>
    xfer_images K req e [AMBA_PCI_FW_IMAGE_KERNEL] w = Some (Null_Deref, w)"
proof -
  from assms(2) obtain a b c where imgs: "fx_images req = [a, b, c]"
    and ty: "img_type a = 0" "img_type b = 1" "img_type c = 34"
    by (auto simp: map_eq_Cons_conv)
  have "fold (\<lambda>img acc. acc OR shl (img_type img)) (fx_images req) 0 = pcie_fw_req_bitmap_mask"
    unfolding imgs using ty assms(1) by (simp add: pcie_fw_req_bitmap_mask_def)
  moreover have "\<not> fx_slot_id req \<ge> of_nat AMBA_PCI_DEV_MAX"
    using assms(4) by (simp add: word_le_nat_alt not_le)
  ultimately have "fw_request_ok shl req"
    using assms(3,5,6) unfolding fw_request_ok_def bitmap_Some by simp
  moreover have none: "pcie_fw_find_image req AMBA_PCI_FW_IMAGE_KERNEL = None"
    using ty by (simp add: pcie_fw_find_image_def imgs)
  ultimately show ?thesis by simp
qed

theorem fw_request_wild_type_accepted_witness:
  "\<exists>req. fw_request_ok shl32 req \<and> pcie_fw_find_image req AMBA_PCI_FW_IMAGE_KERNEL = None"
proof -
  let ?img = "\<lambda>t. \<lparr>img_type = t, img_reserved = 0, img_offset = 0, img_length = 1\<rparr>"
  let ?req = "\<lparr>fx_slot_id = 0, fx_fw_size = 16, fx_fw_user_ptr = 0x1000, fx_images = [?img 0, ?img 1, ?img 34]\<rparr>"
  have sh: "\<forall>t. shl32 t = push_bit (unat t mod 32) 1" by (simp add: shl32_def)
  have "fw_request_ok shl32 ?req \<and> pcie_fw_find_image ?req AMBA_PCI_FW_IMAGE_KERNEL = None"
    using fw_request_wild_type_accepted [OF sh, of ?req "undefined :: nat kernel" undefined undefined]
    by (simp add: image_in_bounds_def)
  then show ?thesis by blast
qed

end
