(* ===== verification/Board_Info.thy ===== *)
theory Board_Info
  imports Ring_Poll Demo_Kernel
begin

section \<open>Board information and the readiness handshake\<close>

text \<open>
  What \<open>pcie_ring_read_board_info\<close> and \<open>pcie_ring_wait_ep_ready\<close> deliver: the fields read word
  by word from the header, strings that always end in a NUL whatever the endpoint wrote, and a
  handshake that saw the magic first and the online state after it.
\<close>

lemma read_words_result:
  "read_words K a n w = (vs, w') \<Longrightarrow>
     length vs = n \<and> iow w' = iow w \<and> calls w' = calls w \<and>
     w_trc w' = w_trc w @ map (\<lambda>i. Readl (a + of_nat (4 * i)) (vs ! i)) [0..<n]"
proof (induction n arbitrary: a w vs w')
  case 0
  then show ?case by simp
next
  case (Suc n)
  obtain v w1 where r: "readl K a w = (v, w1)" by (metis prod.exhaust)
  obtain us w2 where rs: "read_words K (a + 4) n w1 = (us, w2)" by (metis prod.exhaust)
  from Suc.prems r rs have eq: "vs = v # us" "w' = w2" by simp_all
  have "w_trc w1 = w_trc w @ [Readl a v]" using r by (auto simp: readl_def Let_def)
  then show ?case using Suc.IH [OF rs] readlD [OF r] unfolding eq
    by (simp add: map_upt_Suc algebra_simps del: upt_Suc)
qed

lemma read_words_frame [kframe]:
  "iow (snd (read_words K a n w)) = iow w"
  "calls (snd (read_words K a n w)) = calls w"
  using read_words_result [of K a n w] by (metis prod.collapse)+

lemma read_board_info_frame [kframe]:
  "iow (snd (pcie_ring_read_board_info K base w)) = iow w"
  "calls (snd (pcie_ring_read_board_info K base w)) = calls w"
  by (simp_all add: pcie_ring_read_board_info_def Let_def case_prod_beta kframe)

lemma list_update_last: "length xs = Suc n \<Longrightarrow> xs[n := x] = take n xs @ [x]"
  by (simp add: upd_conv_take_nth_drop)

lemma concat_to_le_slices:
  assumes "length vs = 14"
  shows "slice (4 * i) (4 * n) (concat (map (to_le 4) vs)) = concat (map (to_le 4) (take n (drop i (vs :: u32 list))))"
proof -
  have drop: "drop (4 * i) (concat (map (to_le 4) xs)) = concat (map (to_le 4) (drop i xs))" for i and xs :: "u32 list"
  proof (induction xs arbitrary: i)
    case (Cons x xs)
    then show ?case by (cases i) simp_all
  qed simp
  have take: "take (4 * n) (concat (map (to_le 4) xs)) = concat (map (to_le 4) (take n xs))" for n and xs :: "u32 list"
  proof (induction xs arbitrary: n)
    case (Cons x xs)
    then show ?case by (cases n) simp_all
  qed simp
  show ?thesis by (simp add: slice_def drop take)
qed

text \<open>The well-formed board information: both strings fill their arrays and are terminated.\<close>

definition board_info_ok :: "pci_dev_board_info \<Rightarrow> bool" where
  "board_info_ok bd \<longleftrightarrow> length (bd_dram_type bd) = 8 \<and> length (bd_date bd) = 32 \<and>
     last (bd_dram_type bd) = 0 \<and> last (bd_date bd) = 0"

lemma zero_board_info_ok [simp]: "board_info_ok zero_board_info"
  by (simp add: board_info_ok_def zero_board_info_def)

lemma board_info_ok_cstr:
  assumes "board_info_ok bd"
  shows "length (cstr (bd_dram_type bd)) < 8" "length (cstr (bd_date bd)) < 32"
proof -
  have "0 \<in> set (bd_dram_type bd)" "0 \<in> set (bd_date bd)"
    using assms last_in_set [of "bd_dram_type bd"] last_in_set [of "bd_date bd"]
    unfolding board_info_ok_def by (metis list.size(3) zero_neq_numeral)+
  then show "length (cstr (bd_dram_type bd)) < 8" "length (cstr (bd_date bd)) < 32"
    using assms by (auto simp: board_info_ok_def dest: length_cstr_less)
qed

lemma board_info_of_words_fields:
  assumes "length vs = 14"
  shows "board_info_of_words vs =
    \<lparr>bd_id = vs ! 0, bd_vers = vs ! 1, bd_poc = vs ! 2, bd_dram_size_mb = vs ! 3,
     bd_dram_type = concat (map (to_le 4) (take 2 (drop 4 vs))),
     bd_date = concat (map (to_le 4) (drop 6 vs))\<rparr>"
proof -
  let ?bs = "concat (map (to_le 4) vs)"
  have w: "slice (4 * i) 4 ?bs = to_le 4 (vs ! i)" if "i < 14" for i
    using concat_to_le_slices [OF assms, of i 1] that assms by (simp add: take_Suc hd_drop_conv_nth)
  have t: "slice 16 8 ?bs = concat (map (to_le 4) (take 2 (drop 4 vs)))"
    using concat_to_le_slices [OF assms, of 4 2] by simp
  have d: "slice 24 32 ?bs = concat (map (to_le 4) (drop 6 vs))"
    using concat_to_le_slices [OF assms, of 6 8] assms by simp
  show ?thesis
    unfolding board_info_of_words_def Let_def t d
    using w [of 0] w [of 1] w [of 2] w [of 3] by simp
qed

lemma read_board_info_words:
  assumes "pcie_ring_read_board_info K base w = (bd, w')"
  obtains vs where "length vs = 14"
    "w_trc w' = w_trc w @ map (\<lambda>i. Readl (base + 24 + of_nat (4 * i)) (vs ! i)) [0..<14]"
    "bd = \<lparr>bd_id = vs ! 0, bd_vers = vs ! 1, bd_poc = vs ! 2, bd_dram_size_mb = vs ! 3,
       bd_dram_type = take 7 (concat (map (to_le 4) (take 2 (drop 4 vs)))) @ [0],
       bd_date = take 31 (concat (map (to_le 4) (drop 6 vs))) @ [0]\<rparr>"
proof -
  obtain vs w1 where rw: "read_words K (base + 24) 14 w = (vs, w1)" by (metis prod.exhaust)
  note r = read_words_result [OF rw]
  then have len: "length vs = 14" by simp
  have sum4: "length (concat (map (to_le 4) xs)) = 4 * length xs" for xs :: "u32 list"
    by (induction xs) simp_all
  have l: "length (concat (map (to_le 4) (take 2 (drop 4 vs)))) = Suc 7"
    "length (concat (map (to_le 4) (drop 6 vs))) = Suc 31"
    unfolding sum4 using len by simp_all
  have "bd = (board_info_of_words vs)\<lparr>bd_dram_type := (bd_dram_type (board_info_of_words vs))[7 := 0],
      bd_date := (bd_date (board_info_of_words vs))[31 := 0]\<rparr>" and "w' = w1"
    using assms rw by (simp_all add: pcie_ring_read_board_info_def pcie_ring_ptr_def ring_layout_eval Let_def)
  then show ?thesis using r len
    by (intro that [of vs]) (simp_all add: board_info_of_words_fields list_update_last l)
qed

lemma read_board_info_ok: "pcie_ring_read_board_info K base w = (bd, w') \<Longrightarrow> board_info_ok bd"
proof (erule read_board_info_words)
  fix vs :: "u32 list"
  assume len: "length vs = 14" and bd: "bd = \<lparr>bd_id = vs ! 0, bd_vers = vs ! 1, bd_poc = vs ! 2, bd_dram_size_mb = vs ! 3,
       bd_dram_type = take 7 (concat (map (to_le 4) (take 2 (drop 4 vs)))) @ [0],
       bd_date = take 31 (concat (map (to_le 4) (drop 6 vs))) @ [0]\<rparr>"
  have sum4: "length (concat (map (to_le 4) xs)) = 4 * length xs" for xs :: "u32 list"
    by (induction xs) simp_all
  show "board_info_ok bd" unfolding bd board_info_ok_def by (simp only: pci_dev_board_info.simps length_append length_take sum4) (simp add: len)
qed

text \<open>C21: Reading the board information reads exactly the 14 words behind the ring header, in
  order and without writing anything, stores each word in its field, and leaves both strings
  terminated inside their arrays whatever the endpoint put there.\<close>

theorem read_board_info_fields:
  assumes "pcie_ring_read_board_info K base w = (bd, w')"
  shows "iow w' = iow w \<and> calls w' = calls w \<and>
    length (cstr (bd_dram_type bd)) < 8 \<and> length (cstr (bd_date bd)) < 32 \<and>
    (\<exists>vs. length vs = 14 \<and>
       w_trc w' = w_trc w @ map (\<lambda>i. Readl (base + 24 + of_nat (4 * i)) (vs ! i)) [0..<14] \<and>
       bd_id bd = vs ! 0 \<and> bd_vers bd = vs ! 1 \<and> bd_poc bd = vs ! 2 \<and> bd_dram_size_mb bd = vs ! 3 \<and>
       bd_dram_type bd = take 7 (to_le 4 (vs ! 4) @ to_le 4 (vs ! 5)) @ [0] \<and>
       bd_date bd = take 31 (concat (map (to_le 4) (drop 6 vs))) @ [0])"
proof -
  from assms obtain vs where vs: "length vs = 14"
    "w_trc w' = w_trc w @ map (\<lambda>i. Readl (base + 24 + of_nat (4 * i)) (vs ! i)) [0..<14]"
    "bd = \<lparr>bd_id = vs ! 0, bd_vers = vs ! 1, bd_poc = vs ! 2, bd_dram_size_mb = vs ! 3,
       bd_dram_type = take 7 (concat (map (to_le 4) (take 2 (drop 4 vs)))) @ [0],
       bd_date = take 31 (concat (map (to_le 4) (drop 6 vs))) @ [0]\<rparr>"
    by (rule read_board_info_words)
  have "take 2 (drop 4 vs) = [vs ! 4, vs ! 5]"
    using vs(1) by (simp add: Cons_nth_drop_Suc [symmetric] numeral_2_eq_2)
  with vs have "bd_dram_type bd = take 7 (to_le 4 (vs ! 4) @ to_le 4 (vs ! 5)) @ [0]" by simp
  then show ?thesis
    using vs board_info_ok_cstr [OF read_board_info_ok [OF assms]] read_board_info_frame [of K base w] assms
    by (intro conjI exI [of _ vs]) (simp_all del: of_nat_mult)
qed

theorem read_board_info_fields_witness:
  "\<exists>bd w'. pcie_ring_read_board_info demo_kernel 0x10000 demo_world = (bd, w') \<and>
     length (cstr (bd_dram_type bd)) < 8 \<and> length (cstr (bd_date bd)) < 32"
proof -
  obtain bd w' where r: "pcie_ring_read_board_info demo_kernel 0x10000 demo_world = (bd, w')"
    by (metis prod.exhaust)
  from read_board_info_fields [OF r] r show ?thesis by blast
qed

subsection \<open>The readiness handshake\<close>

text \<open>Waiting for the endpoint returns 0 or ETIMEDOUT, writes nothing and takes no resource; on
  success the last register read is the online state, and the magic number was seen before it.
  On a kernel whose clock moves on the wait always returns.\<close>

theorem wait_ep_ready_result:
  assumes "steady_clock K us tick"
  shows "\<exists>r w'. pcie_ring_wait_ep_ready K base w = Some (r, w') \<and> (r = 0 \<or> r = - ETIMEDOUT) \<and>
    iow w' = iow w \<and> rcalls w' = rcalls w \<and>
    (r = 0 \<longrightarrow> (\<exists>w1. (\<exists>t. w_trc w1 = t @ [Readl (base + RH_MAGIC_OFF) RING_MAGIC]) \<and>
        pcie_ring_wait_u32 K base RH_STATE_OFF RING_STATE_ONLINE True 5000 w1 = Some (0, w') \<and>
        (\<exists>t. w_trc w' = t @ [Readl (base + RH_STATE_OFF) RING_STATE_ONLINE])))"
proof -
  obtain r1 w1 where a: "pcie_ring_wait_u32 K base RH_MAGIC_OFF RING_MAGIC True 5000 w = Some (r1, w1)"
    using wait_u32_returns [OF assms] by blast
  obtain r2 w2 where b: "pcie_ring_wait_u32 K base RH_STATE_OFF RING_STATE_ONLINE True 5000 w1 = Some (r2, w2)"
    using wait_u32_returns [OF assms] by blast
  note ra = wait_u32_result [OF a] and rb = wait_u32_result [OF b]
  show ?thesis
  proof (cases "r1 = 0")
    case False
    with a ra show ?thesis by (simp add: pcie_ring_wait_ep_ready_def)
  next
    case True
    with a b have "pcie_ring_wait_ep_ready K base w = Some (r2, w2)"
      by (simp add: pcie_ring_wait_ep_ready_def)
    then show ?thesis using True ra rb b by (auto simp: wait_done_def)
  qed
qed

theorem wait_ep_ready_result_witness:
  "\<exists>r w'. pcie_ring_wait_ep_ready demo_kernel 0x10000 demo_world = Some (r, w') \<and> (r = 0 \<or> r = - ETIMEDOUT) \<and>
     iow w' = iow demo_world"
  using wait_ep_ready_result [OF demo_steady, of "0x10000" demo_world] by blast

lemma wait_ep_ready_total:
  assumes "steady_clock K us tick"
  shows "\<exists>r w'. pcie_ring_wait_ep_ready K base w = Some (r, w')"
proof -
  obtain r1 w1 where a: "pcie_ring_wait_u32 K base RH_MAGIC_OFF RING_MAGIC True 5000 w = Some (r1, w1)"
    using wait_u32_returns [OF assms] by blast
  obtain r2 w2 where "pcie_ring_wait_u32 K base RH_STATE_OFF RING_STATE_ONLINE True 5000 w1 = Some (r2, w2)"
    using wait_u32_returns [OF assms] by blast
  with a show ?thesis by (cases "r1 = 0") (auto simp: pcie_ring_wait_ep_ready_def)
qed

lemma wait_ep_ready_frame:
  assumes "pcie_ring_wait_ep_ready K base w = Some (r, w')"
  shows "iow w' = iow w" "rcalls w' = rcalls w" "r = 0 \<or> r = - ETIMEDOUT"
proof -
  from assms obtain r1 w1 where a: "pcie_ring_wait_u32 K base RH_MAGIC_OFF RING_MAGIC True 5000 w = Some (r1, w1)"
    and rest: "(if r1 \<noteq> 0 then Some (r1, w1)
      else pcie_ring_wait_u32 K base RH_STATE_OFF RING_STATE_ONLINE True 5000 w1) = Some (r, w')"
    by (fastforce simp: pcie_ring_wait_ep_ready_def bind_eq_Some_conv split: if_splits)
  note ra = wait_u32_result [OF a]
  have "iow w' = iow w \<and> rcalls w' = rcalls w \<and> (r = 0 \<or> r = - ETIMEDOUT)"
  proof (cases "r1 = 0")
    case False
    with rest ra show ?thesis by simp
  next
    case True
    with rest have b: "pcie_ring_wait_u32 K base RH_STATE_OFF RING_STATE_ONLINE True 5000 w1 = Some (r, w')" by simp
    from wait_u32_result [OF b] ra show ?thesis by simp
  qed
  then show "iow w' = iow w" "rcalls w' = rcalls w" "r = 0 \<or> r = - ETIMEDOUT" by blast+
qed

end
