(* ===== verification/Slot_Invariant.thy ===== *)
theory Slot_Invariant
  imports Hotplug Board_Info
begin

section \<open>The invariant of a slot, and the resources it owns\<close>

text \<open>
  \<open>slot_ok\<close> is what holds of every entry of \<open>g_pcie_drv.devs\<close> whenever the mutex is free. Each
  operation of \<open>Slot_Ops\<close> has one lemma that says what it keeps of it. The second half counts
  resources in the trace: successful BAR mappings against unmappings, proc directories made
  against removed, device references taken against dropped; each operation changes a count
  exactly by what it changes in the entry.
\<close>

definition slot_ok :: "nat \<Rightarrow> pcie_dev_entry \<Rightarrow> bool" where
  "slot_ok i e \<longleftrightarrow>
     e_boot_bar e < 6 \<and> board_info_ok (e_board_info e) \<and>
     (e_pdev e = None \<longrightarrow> e_boot_mem_base e = 0) \<and>
     (\<forall>pd. e_pdev e = Some pd \<longrightarrow> get_pci_slot_id pd = int i) \<and>
     (e_boot_mem_base e \<noteq> 0 \<longrightarrow> bar_chosen e) \<and>
     (if e_in_use e
      then e_proc_dir e \<noteq> 0 \<and> e_proc_name e = slot_proc_name i \<and>
           e_phy_slot e = pcie_physical_slots ! i \<and>
           (e_pdev e = None \<longrightarrow> e_state e \<in> {AMBA_PCI_STATE_BOOTING, AMBA_PCI_STATE_BOOT_FAILED})
      else e_pdev e = None \<and> e_id e = 0 \<and> e_state e = AMBA_PCI_STATE_DISCONNECTED \<and> e_proc_dir e = 0 \<and>
           \<not> e_board_info_is_updated e) \<and>
     (e_work_pending e \<longrightarrow> e_state e \<in> {AMBA_PCI_STATE_BOOTING, AMBA_PCI_STATE_BOOT_FAILED})"

lemma zero_entry_ok: "slot_ok i zero_entry"
  by (simp add: slot_ok_def zero_entry_def)

lemma slot_ok_pending: "slot_ok i e \<Longrightarrow> e_work_pending e \<Longrightarrow> e_in_use e"
  by (auto simp: slot_ok_def split: if_splits)

subsection \<open>Operations keep it\<close>

definition same_but_board :: "pcie_dev_entry \<Rightarrow> pcie_dev_entry \<Rightarrow> bool" where
  "same_but_board e e' \<longleftrightarrow>
     (e_pdev e', e_id e', e_in_use e', e_state e', e_proc_dir e', e_proc_name e', e_phy_slot e', e_work_pending e') =
     (e_pdev e, e_id e, e_in_use e, e_state e, e_proc_dir e, e_proc_name e, e_phy_slot e, e_work_pending e)"

lemma same_but_board_refl [simp]: "same_but_board e e"
  by (simp add: same_but_board_def)

lemma same_but_board_trans: "same_but_board e f \<Longrightarrow> same_but_board f g \<Longrightarrow> same_but_board e g"
  by (simp add: same_but_board_def)

lemma same_but_bar_board: "same_but_bar e e' \<Longrightarrow> same_but_board e e'"
  by (drule same_but_bar_fields) (simp add: same_but_board_def)

text \<open>The four ways through \<open>pcie_dev_refresh_board_info_locked\<close>.\<close>

lemma refresh_cases:
  assumes "pcie_dev_refresh_board_info_locked K e w = ((r, e'), w')"
  obtains (skip) "r = 0" "e' = e" "w' = w" "e_state e \<noteq> AMBA_PCI_STATE_DISCONNECTED"
  | (nodev) "r = - ENODEV" "e' = e" "w' = w" "e_state e = AMBA_PCI_STATE_DISCONNECTED" "e_pdev e = None"
  | (map_failed) pd where "e_pdev e = Some pd" "e_boot_mem_base e = 0"
      "pcie_boot_bar_ensure_mapped K pd e w = ((r, e'), w')" "r \<noteq> 0" "e_state e = AMBA_PCI_STATE_DISCONNECTED"
  | (mapped) pd e1 w1 where "e_pdev e = Some pd" "r = 0" "e_state e = AMBA_PCI_STATE_DISCONNECTED"
      "if e_boot_mem_base e = 0 then pcie_boot_bar_ensure_mapped K pd e w = ((0, e1), w1) else e1 = e \<and> w1 = w"
      "if \<not> e_board_info_is_updated e1 \<and> e_boot_mem_base e1 \<noteq> 0
       then \<exists>bd. pcie_ring_read_board_info K (e_boot_mem_base e1) w1 = (bd, w') \<and>
              e' = e1\<lparr>e_board_info := bd, e_board_info_is_updated := True\<rparr>
       else e' = e1 \<and> w' = w1"
proof (cases "e_state e \<noteq> AMBA_PCI_STATE_DISCONNECTED")
  case True
  with assms skip show ?thesis by (simp add: pcie_dev_refresh_board_info_locked_def)
next
  case st: False
  show ?thesis
  proof (cases "e_pdev e")
    case None
    with st assms nodev show ?thesis by (simp add: pcie_dev_refresh_board_info_locked_def)
  next
    case (Some pd)
    obtain r1 e1 w1 where m: "(if e_boot_mem_base e = 0 then pcie_boot_bar_ensure_mapped K pd e w else ((0, e), w)) = ((r1, e1), w1)"
      by (metis prod.exhaust)
    obtain bd w2 where rd: "pcie_ring_read_board_info K (e_boot_mem_base e1) w1 = (bd, w2)" by (metis prod.exhaust)
    have res: "((r, e'), w') = (if r1 \<noteq> 0 then ((r1, e1), w1)
        else if \<not> e_board_info_is_updated e1 \<and> e_boot_mem_base e1 \<noteq> 0
        then ((0, e1\<lparr>e_board_info := bd, e_board_info_is_updated := True\<rparr>), w2) else ((0, e1), w1))"
      unfolding assms [symmetric] pcie_dev_refresh_board_info_locked_def
      using st by (simp only: Some m rd Let_def prod.case option.case) simp
    show ?thesis
    proof (cases "r1 = 0")
      case False
      then have "e_boot_mem_base e = 0" using m by (auto split: if_splits)
      with False res m Some st map_failed show ?thesis by simp
    next
      case True
      show ?thesis
        by (rule mapped [OF Some _ _, of e1 w1]) (use res True st m rd in \<open>auto split: if_splits\<close>)
    qed
  qed
qed

lemma refresh_result:
  assumes "pcie_dev_refresh_board_info_locked K e w = ((r, e'), w')" and ok: "slot_ok i e"
  shows "same_but_board e e'" "iow w' = iow w" "slot_ok i e'"
    "r = 0 \<Longrightarrow> e_state e = AMBA_PCI_STATE_DISCONNECTED \<Longrightarrow>
       e_pdev e' \<noteq> None \<and> e_boot_mem_base e' \<noteq> 0 \<and> e_board_info_is_updated e'"
proof -
  have bar: "e_boot_bar e < 6" using ok by (simp add: slot_ok_def)
  have bar_ok: "slot_ok i e2" if "same_but_bar e e2" "e_boot_mem_base e2 \<noteq> 0 \<Longrightarrow> bar_chosen e2"
    "e_boot_bar e2 < 6" "e_pdev e \<noteq> None" for e2
    using ok that(2-4) same_but_bar_fields [OF that(1)] unfolding slot_ok_def by (auto split: if_splits)
  have bar_lt: "e_boot_bar e2 < 6" if "pcie_boot_bar_ensure_mapped K pd e w = ((q, e2), w2)"
    "e_boot_mem_base e = 0" for pd q e2 w2
  proof -
    obtain r1 e1 w1 where m: "map_attempts K pd PCIE_BOOT_BAR_MAP_RETRY_MAX 0 e w = ((r1, e1), w1)"
      by (metis prod.exhaust)
    have "e_boot_bar e1 < 6" using map_attempts_result [OF m that(2) bar] by simp
    moreover have "e2 = e1" using that m by (auto simp: pcie_boot_bar_ensure_mapped_def Let_def split: if_splits)
    ultimately show ?thesis by simp
  qed
  have "same_but_board e e' \<and> iow w' = iow w \<and> slot_ok i e' \<and>
    (r = 0 \<longrightarrow> e_state e = AMBA_PCI_STATE_DISCONNECTED \<longrightarrow>
       e_pdev e' \<noteq> None \<and> e_boot_mem_base e' \<noteq> 0 \<and> e_board_info_is_updated e')"
    using assms(1)
  proof (cases rule: refresh_cases)
    case skip
    then show ?thesis using ok by simp
  next
    case nodev
    then show ?thesis using ok by simp
  next
    case (map_failed pd)
    note m = ensure_mapped_facts [OF map_failed(3) bar]
    then show ?thesis using map_failed bar_ok [of e'] bar_lt [OF map_failed(3)]
      by (auto dest: same_but_bar_board)
  next
    case (mapped pd e1 w1)
    have e1: "same_but_bar e e1 \<and> iow w1 = iow w \<and> e_boot_mem_base e1 \<noteq> 0 \<and> slot_ok i e1"
    proof (cases "e_boot_mem_base e = 0")
      case True
      with mapped(4) have m: "pcie_boot_bar_ensure_mapped K pd e w = ((0, e1), w1)" by simp
      note f = ensure_mapped_facts [OF m bar]
      with True mapped(1) bar_ok [of e1] bar_lt [OF m True] show ?thesis by auto
    next
      case False
      with mapped(4) ok show ?thesis by simp
    qed
    note f = same_but_bar_fields [OF conjunct1 [OF e1]]
    show ?thesis
    proof (cases "e_board_info_is_updated e1")
      case True
      with mapped e1 f show ?thesis by (auto dest: same_but_bar_board)
    next
      case False
      with mapped(5) e1 obtain bd where bd: "pcie_ring_read_board_info K (e_boot_mem_base e1) w1 = (bd, w')"
        "e' = e1\<lparr>e_board_info := bd, e_board_info_is_updated := True\<rparr>" by auto
      have "iow w' = iow w1" using read_board_info_frame(1) [of K "e_boot_mem_base e1" w1] bd(1) by simp
      moreover have "slot_ok i e'"
        using e1 f mapped(1) read_board_info_ok [OF bd(1)] unfolding bd(2) slot_ok_def bar_chosen_def by auto
      ultimately show ?thesis using e1 f mapped(1) bd(2) by (auto simp: same_but_board_def)
    qed
  qed
  then show "same_but_board e e'" "iow w' = iow w" "slot_ok i e'"
    "r = 0 \<Longrightarrow> e_state e = AMBA_PCI_STATE_DISCONNECTED \<Longrightarrow>
       e_pdev e' \<noteq> None \<and> e_boot_mem_base e' \<noteq> 0 \<and> e_board_info_is_updated e'"
    by blast+
qed

lemma query_result:
  assumes "pcie_query_dev_info_locked K e slot w = ((dst, e'), w')" and ok: "slot_ok i e"
  shows "same_but_board e e'" "iow w' = iow w" "slot_ok i e'"
proof -
  obtain r e1 w1 where m: "pcie_dev_refresh_board_info_locked K e w = ((r, e1), w1)" by (metis prod.exhaust)
  have "e' = (if e_in_use e then e1 else e)" "w' = (if e_in_use e then w1 else w)"
    using assms(1) m by (auto simp: pcie_query_dev_info_locked_def Let_def split: if_splits)
  with refresh_result [OF m ok] ok show "same_but_board e e'" "iow w' = iow w" "slot_ok i e'" by simp_all
qed

lemma detach_result:
  "fst (pcie_entry_detach_pdev K e w) =
     (if e_pdev e = None then e else e\<lparr>e_boot_mem_base := 0, e_pdev := None\<rparr>)"
  by (simp add: pcie_entry_detach_pdev_def pcie_boot_bar_unmap_def Let_def split: option.splits)

lemma detach_frame [kframe]: "iow (snd (pcie_entry_detach_pdev K e w)) = iow w"
  by (simp add: pcie_entry_detach_pdev_def pcie_boot_bar_unmap_def Let_def kframe split: option.splits)

lemma detach_ok:
  "slot_ok i e \<Longrightarrow> e_state e \<in> {AMBA_PCI_STATE_BOOTING, AMBA_PCI_STATE_BOOT_FAILED} \<Longrightarrow>
     slot_ok i (fst (pcie_entry_detach_pdev K e w))"
  by (auto simp: detach_result slot_ok_def)

text \<open>What releasing leaves of an entry: everything back to its initial value but the physical slot.\<close>

definition released :: "pcie_dev_entry \<Rightarrow> pcie_dev_entry" where
  "released e = zero_entry\<lparr>e_phy_slot := e_phy_slot e, e_boot_bar := - 1\<rparr>"

lemma released_ok: "slot_ok i (released e)"
  by (simp add: released_def slot_ok_def zero_entry_def)

lemma release_result:
  assumes "slot_ok i e"
  shows "fst (pcie_release_dev K i e w) = (if e_in_use e then released e else e)"
proof (cases "e_in_use e")
  case False
  then show ?thesis by (simp add: pcie_release_dev_def)
next
  case True
  then have p: "e_proc_dir e \<noteq> 0" using assms by (simp add: slot_ok_def)
  obtain e1 w1 where d: "pcie_entry_detach_pdev K e w = (e1, w1)" by (metis prod.exhaust)
  with detach_result [of K e w] have e1: "e1 = (if e_pdev e = None then e else e\<lparr>e_boot_mem_base := 0, e_pdev := None\<rparr>)"
    by simp
  then have "e_proc_dir e1 \<noteq> 0" "e_phy_slot e1 = e_phy_slot e" "e_pdev e1 = None" using p by auto
  with True d show ?thesis
    by (auto simp: pcie_release_dev_def Let_def released_def zero_entry_def)
qed

lemma release_frame [kframe]: "iow (snd (pcie_release_dev K i e w)) = iow w"
  by (simp add: pcie_release_dev_def Let_def case_prod_beta kframe)

lemma schedule_result:
  "fst (pcie_boot_timeout_schedule K i e w) = e\<lparr>e_work_pending := True\<rparr>"
  by (simp add: pcie_boot_timeout_schedule_def Let_def)

lemma timeout_fn_result:
  "fst (pcie_boot_timeout_fn K e w) =
     (if e_in_use e \<and> e_state e = AMBA_PCI_STATE_BOOTING then e\<lparr>e_state := AMBA_PCI_STATE_BOOT_FAILED\<rparr> else e)"
  by (simp add: pcie_boot_timeout_fn_def Let_def)

lemma timeout_fn_ok: "slot_ok i e \<Longrightarrow> slot_ok i (fst (pcie_boot_timeout_fn K e w))"
  by (auto simp: timeout_fn_result slot_ok_def bar_chosen_def)

lemma reconnect_result:
  "fst (pcie_try_reconnect_booting_locked K i pd e w) =
     e\<lparr>e_pdev := Some pd, e_work_pending := False, e_state := AMBA_PCI_STATE_CONNECTED\<rparr>"
  by (simp add: pcie_try_reconnect_booting_locked_def pci_dev_get_def Let_def)

lemma reconnect_ok:
  "slot_ok i e \<Longrightarrow> e_in_use e \<Longrightarrow> get_pci_slot_id pd = int i \<Longrightarrow>
     slot_ok i (fst (pcie_try_reconnect_booting_locked K i pd e w))"
  by (auto simp: reconnect_result slot_ok_def bar_chosen_def)

subsection \<open>Proc nodes and slot initialisation\<close>

lemma slot_proc_name: "i < 10 ^ 10 \<Longrightarrow> slot_proc_name i = ''pcie_'' @ dec_str i"
  using length_dec_str_le [of i 10] unfolding slot_proc_name_def by (intro scnprintf_fits) simp

lemma create_proc_cases:
  assumes "pcie_create_proc_nodes K root e i w = ((r, e'), w')"
  obtains (noroot) "root = 0" "r = - ENODEV" "e' = e" "w' = w"
  | (nodir) "root \<noteq> 0" "r = - ENOMEM" "e' = e\<lparr>e_proc_name := slot_proc_name i, e_proc_dir := 0\<rparr>"
      "kcall K (KC_proc_mkdir (slot_proc_name i)) w = (0, w')"
  | (nonode) dir w1 w2 where "root \<noteq> 0" "r = - ENOMEM" "e' = e\<lparr>e_proc_name := [], e_proc_dir := 0\<rparr>" "dir \<noteq> 0"
      "kcall K (KC_proc_mkdir (slot_proc_name i)) w = (dir, w1)"
      "create_nodes K (slot_proc_name i) proc_node_names w1 = (False, w2)"
      "w' = kdo K (KC_remove_proc_subtree (slot_proc_name i)) w2"
  | (created) dir w1 where "root \<noteq> 0" "r = 0" "dir \<noteq> 0"
      "e' = e\<lparr>e_proc_name := slot_proc_name i, e_proc_dir := dir\<rparr>"
      "kcall K (KC_proc_mkdir (slot_proc_name i)) w = (dir, w1)"
      "create_nodes K (slot_proc_name i) proc_node_names w1 = (True, w')"
proof -
  let ?n = "slot_proc_name i"
  obtain dir w1 where m: "kcall K (KC_proc_mkdir ?n) w = (dir, w1)" by (metis prod.exhaust)
  obtain ok w2 where c: "create_nodes K ?n proc_node_names w1 = (ok, w2)" by (metis prod.exhaust)
  let ?e = "e\<lparr>e_proc_name := ?n, e_proc_dir := dir\<rparr>"
  have res: "((r, e'), w') = (if root = 0 then ((- ENODEV, e), w)
      else if dir = 0 then ((- ENOMEM, ?e), w1)
      else if ok then ((0, ?e), w2)
      else ((- ENOMEM, ?e\<lparr>e_proc_dir := 0, e_proc_name := []\<rparr>), kdo K (KC_remove_proc_subtree ?n) w2))"
    unfolding assms [symmetric] pcie_create_proc_nodes_def by (simp add: m c Let_def)
  show ?thesis
  proof (cases "root = 0")
    case True
    with res noroot show ?thesis by simp
  next
    case root: False
    show ?thesis
    proof (cases "dir = 0")
      case True
      with root res m nodir show ?thesis by simp
    next
      case dir: False
      show ?thesis
      proof (cases ok)
        case True
        with dir root res m c created show ?thesis by simp
      next
        case False
        with dir root res m c nonode show ?thesis by simp
      qed
    qed
  qed
qed

lemma create_nodes_frame [kframe]: "iow (snd (create_nodes K dir ns w)) = iow w"
  by (induction ns arbitrary: w) (simp_all add: Let_def case_prod_beta kframe)

lemma create_proc_frame [kframe]: "iow (snd (pcie_create_proc_nodes K root e i w)) = iow w"
  by (simp add: pcie_create_proc_nodes_def Let_def case_prod_beta kframe)

text \<open>A slot whose initialisation fails stays unused, with no device and no proc directory.\<close>

lemma create_proc_failed_ok:
  assumes "pcie_create_proc_nodes K root e i w = ((r, e'), w')" "r \<noteq> 0" "slot_ok i e" "\<not> e_in_use e"
  shows "slot_ok i e' \<and> \<not> e_in_use e'"
  using assms(1)
  by (cases rule: create_proc_cases) (use assms(2-4) in \<open>auto simp: slot_ok_def bar_chosen_def\<close>)

definition initialised :: "amba_pci_platform \<Rightarrow> pci_dev \<Rightarrow> nat \<Rightarrow> pcie_dev_entry \<Rightarrow> pcie_dev_entry" where
  "initialised g pd i e = e\<lparr>e_pdev := Some pd, e_id := g_next_dev_id g, e_phy_slot := pcie_physical_slots ! i,
     e_board_info_is_updated := False, e_board_info := zero_board_info, e_boot_bar := - 1,
     e_boot_len := 0, e_boot_mem_base := 0, e_state := AMBA_PCI_STATE_DISCONNECTED, e_in_use := True\<rparr>"

lemma init_slot_cases:
  assumes "pcie_init_slot K g pd i w = ((r, g'), w')"
  obtains (init_failed) e where "r \<noteq> 0" "pcie_create_proc_nodes K (g_proc_root g) (g_devs g ! i) i w = ((r, e), w')"
      "g' = set_entry g i e"
  | (init_ok) e w1 where "r = 0" "pcie_create_proc_nodes K (g_proc_root g) (g_devs g ! i) i w = ((0, e), w1)"
      "w' = kdo K (KC_pci_dev_get (pd_handle pd)) w1"
      "g' = (set_entry g i (initialised g pd i e))\<lparr>g_next_dev_id := g_next_dev_id g + 1\<rparr>"
proof -
  obtain r1 e w1 where c: "pcie_create_proc_nodes K (g_proc_root g) (g_devs g ! i) i w = ((r1, e), w1)"
    by (metis prod.exhaust)
  show ?thesis
  proof (cases "r1 = 0")
    case False
    then show ?thesis using assms init_failed c by (simp add: pcie_init_slot_def set_entry_def)
  next
    case True
    then show ?thesis using assms init_ok c
      by (simp add: pcie_init_slot_def set_entry_def initialised_def pci_dev_get_def Let_def)
  qed
qed

lemma create_proc_ok_facts:
  assumes "pcie_create_proc_nodes K root e i w = ((0, e'), w')"
  shows "root \<noteq> 0" "e_proc_dir e' \<noteq> 0" "e_proc_name e' = slot_proc_name i" "e_work_pending e' = e_work_pending e"
  using assms by (cases rule: create_proc_cases; simp)+

lemma initialised_ok:
  assumes "pcie_create_proc_nodes K root e i w = ((0, e'), w')" "slot_ok i e" "\<not> e_in_use e"
    "get_pci_slot_id pd = int i"
  shows "slot_ok i (initialised g pd i e')"
  using create_proc_ok_facts [OF assms(1)] assms(2-4)
  by (auto simp: initialised_def slot_ok_def)

end
