(* ===== verification/Resource_Ledger.thy ===== *)
theory Resource_Ledger
  imports Slot_Invariant
begin

section \<open>Resource ledgers\<close>

text \<open>
  A slot owns up to three resources: the mapping of its boot BAR, its proc directory, and a
  reference to its PCI device. For each of them a ledger gives every kernel call a weight (+1
  for taking, -1 for returning) and every entry what it owns. The locale \<open>ledger\<close> states how the
  weights of the primitive calls go with the fields of the entry they are recorded in, and proves
  once for all three that every slot operation keeps the difference between the balance of the
  trace and the holdings of the entry.
\<close>

definition balance :: "(kcall \<times> int \<Rightarrow> int) \<Rightarrow> 'd world \<Rightarrow> int" where
  "balance wt w = sum_list (map wt (rcalls w))"

definition gap :: "(kcall \<times> int \<Rightarrow> int) \<Rightarrow> (pcie_dev_entry \<Rightarrow> int) \<Rightarrow> pcie_dev_entry \<Rightarrow> 'd world \<Rightarrow> int" where
  "gap wt own e w = balance wt w - own e"

lemma balance_frame [kframe]:
  "balance wt (ep_turn K w) = balance wt w"
  "balance wt (snd (readl K a w)) = balance wt w"
  "balance wt (writel K v a w) = balance wt w"
  "balance wt (memcpy_toio K a bs w) = balance wt w"
  "balance wt (kdo K c w) = balance wt w + (if is_sleep c then 0 else wt (c, fst (kcall K c w)))"
  "balance wt (snd (kcall K c w)) = balance wt w + (if is_sleep c then 0 else wt (c, fst (kcall K c w)))"
  by (simp_all add: balance_def kframe)

lemma balance_calls_eq: "calls w' = calls w \<Longrightarrow> balance wt w' = balance wt w"
  by (simp add: balance_def rcalls_def)

lemma balance_rcalls_eq: "rcalls w' = rcalls w \<Longrightarrow> balance wt w' = balance wt w"
  by (simp add: balance_def)

text \<open>The calls that take or return nothing of a slot or of the module.\<close>

fun neutral_call :: "kcall \<Rightarrow> bool" where
  "neutral_call (KC_pci_iomap p b l) = False"
| "neutral_call (KC_pci_iounmap p a) = False"
| "neutral_call (KC_pci_dev_get p) = False"
| "neutral_call (KC_pci_dev_put p) = False"
| "neutral_call (KC_proc_mkdir n) = False"
| "neutral_call KC_proc_remove = False"
| "neutral_call (KC_remove_proc_subtree n) = False"
| "neutral_call KC_alloc_chrdev_region = False"
| "neutral_call (KC_unregister_chrdev_region n) = False"
| "neutral_call KC_class_create = False"
| "neutral_call KC_class_destroy = False"
| "neutral_call (KC_cdev_add n) = False"
| "neutral_call KC_cdev_del = False"
| "neutral_call (KC_device_create n) = False"
| "neutral_call (KC_device_destroy n) = False"
| "neutral_call KC_bus_register_notifier = False"
| "neutral_call KC_bus_unregister_notifier = False"
| "neutral_call c = True"

fun lock_free :: "kcall \<Rightarrow> bool" where
  "lock_free KC_mutex_lock = False"
| "lock_free KC_mutex_unlock = False"
| "lock_free c = True"

locale ledger =
  fixes wt :: "kcall \<times> int \<Rightarrow> int" and own :: "pcie_dev_entry \<Rightarrow> int"
  assumes own_cong: "e_boot_mem_base e = e_boot_mem_base f \<Longrightarrow> e_pdev e = e_pdev f \<Longrightarrow>
      e_proc_dir e = e_proc_dir f \<Longrightarrow> own e = own f"
    and wt_iomap: "e_boot_mem_base e = 0 \<Longrightarrow> wt (KC_pci_iomap p b l, r) = own (e\<lparr>e_boot_mem_base := of_int r\<rparr>) - own e"
    and wt_iounmap: "e_boot_mem_base e \<noteq> 0 \<Longrightarrow> wt (KC_pci_iounmap p a, r) = own (e\<lparr>e_boot_mem_base := 0\<rparr>) - own e"
    and wt_get: "e_pdev e = None \<Longrightarrow> wt (KC_pci_dev_get (pd_handle pd), r) = own (e\<lparr>e_pdev := Some pd\<rparr>) - own e"
    and wt_put: "e_pdev e = Some pd \<Longrightarrow> wt (KC_pci_dev_put (pd_handle pd), r) = own (e\<lparr>e_pdev := None\<rparr>) - own e"
    and wt_mkdir: "e_proc_dir e = 0 \<Longrightarrow> wt (KC_proc_mkdir (slot_proc_name i), r) = own (e\<lparr>e_proc_dir := r\<rparr>) - own e"
    and wt_rmtree: "e_proc_dir e \<noteq> 0 \<Longrightarrow> wt (KC_remove_proc_subtree n, r) = own (e\<lparr>e_proc_dir := 0\<rparr>) - own e"
    and wt_neutral: "neutral_call c \<Longrightarrow> wt (c, r) = 0"
begin

lemma gap_board: "e_boot_mem_base e' = e_boot_mem_base e \<Longrightarrow> e_pdev e' = e_pdev e \<Longrightarrow>
    e_proc_dir e' = e_proc_dir e \<Longrightarrow> gap wt own e' w = gap wt own e w"
  using own_cong [of e' e] by (simp add: gap_def)

lemma enable_mem_balance: "balance wt (snd (pcie_enable_mem_io_resource K pd w)) = balance wt w"
  by (simp add: pcie_enable_mem_io_resource_def Let_def case_prod_beta kframe wt_neutral)

lemma map_chosen_gap:
  assumes "map_chosen_bar K pd e w = ((r, e'), w')" "e_boot_mem_base e = 0"
  shows "gap wt own e' w' = gap wt own e w"
proof -
  obtain r1 w1 where en: "pcie_enable_mem_io_resource K pd w = (r1, w1)" by (metis prod.exhaust)
  obtain p w2 where io: "kcall K (KC_pci_iomap (pd_handle pd) (nat (e_boot_bar e)) (e_boot_len e)) w1 = (p, w2)"
    by (metis prod.exhaust)
  have w1: "balance wt w1 = balance wt w" using enable_mem_balance [of K pd w] en by simp
  have w2: "balance wt w2 = balance wt w1 + (own (e\<lparr>e_boot_mem_base := of_int p\<rparr>) - own e)"
    using balance_frame(6) [of wt K "KC_pci_iomap (pd_handle pd) (nat (e_boot_bar e)) (e_boot_len e)" w1] io
      wt_iomap [OF assms(2)] by simp
  define unset where "unset \<longleftrightarrow> (let res = k_res K (w_out w) (pd_handle pd) (nat (e_boot_bar e))
    in r_flags res AND IORESOURCE_UNSET \<noteq> 0 \<or> \<not> r_parent res \<or> r_start res = 0)"
  let ?e1 = "e\<lparr>e_boot_mem_base := of_int p\<rparr>"
  have res: "((r, e'), w') =
      (if unset then ((- ENXIO, e), w) else if r1 \<noteq> 0 then ((r1, e), w1)
       else if of_int p = (0 :: u64) then ((- EIO, ?e1), w2) else ((0, ?e1), w2))"
    unfolding assms(1) [symmetric] by (simp add: map_chosen_bar_def Let_def en io unset_def)
  show ?thesis
  proof (cases "unset \<or> r1 \<noteq> 0")
    case True
    then have "e' = e" "balance wt w' = balance wt w" using res w1 by (cases unset; simp)+
    then show ?thesis by (simp add: gap_def)
  next
    case False
    then have "e' = ?e1" "w' = w2" using res by (cases "of_int p = (0 :: u64)"; simp)+
    then show ?thesis using w1 w2 by (simp add: gap_def)
  qed
qed

lemma map_boot_bar_gap:
  assumes "pcie_map_boot_bar K pd e w = ((r, e'), w')" "e_boot_mem_base e = 0"
  shows "gap wt own e' w' = gap wt own e w"
proof -
  consider (none) "e' = e" "w' = w"
    | (found) bar len where "map_chosen_bar K pd (e\<lparr>e_boot_bar := bar, e_boot_len := len\<rparr>) w = ((r, e'), w')"
    | (kept) "map_chosen_bar K pd e w = ((r, e'), w')"
    using assms(1) unfolding pcie_map_boot_bar_def by (auto split: if_splits option.splits)
  then show ?thesis
  proof cases
    case found
    have "gap wt own e' w' = gap wt own (e\<lparr>e_boot_bar := bar, e_boot_len := len\<rparr>) w"
      by (rule map_chosen_gap [OF found]) (use assms(2) in simp)
    also have "\<dots> = gap wt own e w" by (rule gap_board) simp_all
    finally show ?thesis .
  qed (use map_chosen_gap assms(2) in simp_all)
qed

lemma map_attempts_gap:
  "map_attempts K pd n r0 e w = ((r, e'), w') \<Longrightarrow> e_boot_mem_base e = 0 \<Longrightarrow> e_boot_bar e < 6 \<Longrightarrow>
     gap wt own e' w' = gap wt own e w"
proof (induction n arbitrary: r0 e w)
  case 0
  then show ?case by simp
next
  case (Suc n)
  obtain r1 e1 w1 where m: "pcie_map_boot_bar K pd e w = ((r1, e1), w1)" by (metis prod.exhaust)
  note m1 = map_boot_bar_result [OF m Suc.prems(2,3)] and g1 = map_boot_bar_gap [OF m Suc.prems(2)]
  show ?case
  proof (cases "r1 = - ENXIO")
    case True
    let ?w1 = "kdo K (KC_msleep PCIE_BOOT_BAR_MAP_RETRY_MS) w1"
    have "map_attempts K pd n r1 e1 ?w1 = ((r, e'), w')" using Suc.prems(1) m True by simp
    from Suc.IH [OF this] True m1 have "gap wt own e' w' = gap wt own e1 ?w1" by simp
    then show ?thesis using g1 by (simp add: gap_def kframe)
  next
    case False
    with Suc.prems(1) m have "e' = e1" "w' = w1" by (simp_all split: if_splits)
    with g1 show ?thesis by simp
  qed
qed

lemma ensure_mapped_gap:
  assumes "pcie_boot_bar_ensure_mapped K pd e w = ((r, e'), w')" "e_boot_bar e < 6"
  shows "gap wt own e' w' = gap wt own e w"
proof (cases "e_boot_mem_base e = 0")
  case False
  with assms show ?thesis by (simp add: pcie_boot_bar_ensure_mapped_def)
next
  case True
  obtain r1 e1 w1 where m: "map_attempts K pd PCIE_BOOT_BAR_MAP_RETRY_MAX 0 e w = ((r1, e1), w1)"
    by (metis prod.exhaust)
  with assms(1) True have "e' = e1" "w' = w1"
    by (auto simp: pcie_boot_bar_ensure_mapped_def Let_def split: if_splits)
  with map_attempts_gap [OF m True assms(2)] show ?thesis by simp
qed

lemma refresh_gap:
  assumes "pcie_dev_refresh_board_info_locked K e w = ((r, e'), w')" "e_boot_bar e < 6"
  shows "gap wt own e' w' = gap wt own e w"
  using assms(1)
proof (cases rule: refresh_cases)
  case (map_failed pd)
  then show ?thesis using ensure_mapped_gap assms(2) by blast
next
  case (mapped pd e1 w1)
  have g1: "gap wt own e1 w1 = gap wt own e w"
    using mapped(4) ensure_mapped_gap [OF _ assms(2)] by (auto split: if_splits)
  show ?thesis
  proof (cases "\<not> e_board_info_is_updated e1 \<and> e_boot_mem_base e1 \<noteq> 0")
    case False
    with mapped(5) g1 show ?thesis by auto
  next
    case True
    with mapped(5) obtain bd where bd: "pcie_ring_read_board_info K (e_boot_mem_base e1) w1 = (bd, w')"
      "e' = e1\<lparr>e_board_info := bd, e_board_info_is_updated := True\<rparr>" by auto
    have "calls w' = calls w1" using read_board_info_frame(2) [of K "e_boot_mem_base e1" w1] bd(1) by simp
    then have "balance wt w' = balance wt w1" by (rule balance_calls_eq)
    moreover have "own e' = own e1" by (rule own_cong) (simp_all add: bd)
    ultimately show ?thesis using g1 by (simp add: gap_def)
  qed
qed simp_all

lemma query_gap:
  assumes "pcie_query_dev_info_locked K e slot w = ((dst, e'), w')" "e_boot_bar e < 6"
  shows "gap wt own e' w' = gap wt own e w"
proof -
  obtain r e1 w1 where m: "pcie_dev_refresh_board_info_locked K e w = ((r, e1), w1)" by (metis prod.exhaust)
  have "e' = (if e_in_use e then e1 else e)" "w' = (if e_in_use e then w1 else w)"
    using assms(1) m by (auto simp: pcie_query_dev_info_locked_def Let_def split: if_splits)
  with refresh_gap [OF m assms(2)] show ?thesis by simp
qed

lemma unmap_gap: "pcie_boot_bar_unmap K e w = (e', w') \<Longrightarrow> gap wt own e' w' = gap wt own e w"
  using wt_iounmap [of e] by (auto simp: pcie_boot_bar_unmap_def gap_def kframe split: if_splits)

lemma detach_gap: "pcie_entry_detach_pdev K e w = (e', w') \<Longrightarrow> gap wt own e' w' = gap wt own e w"
proof (cases "e_pdev e")
  case None
  assume "pcie_entry_detach_pdev K e w = (e', w')"
  with None show ?thesis by (simp add: pcie_entry_detach_pdev_def)
next
  case (Some pd)
  assume d: "pcie_entry_detach_pdev K e w = (e', w')"
  obtain e1 w1 where u: "pcie_boot_bar_unmap K e w = (e1, w1)" by (metis prod.exhaust)
  then have p: "e_pdev e1 = Some pd" using Some by (auto simp: pcie_boot_bar_unmap_def split: if_splits)
  from d Some u have "e' = e1\<lparr>e_pdev := None\<rparr>" "w' = kdo K (KC_pci_dev_put (pd_handle pd)) w1"
    by (simp_all add: pcie_entry_detach_pdev_def Let_def)
  then show ?thesis using unmap_gap [OF u] wt_put [OF p] by (simp add: gap_def kframe)
qed

lemma release_gap:
  assumes "pcie_release_dev K i e w = (e', w')" "slot_ok i e"
  shows "gap wt own e' w' = gap wt own e w"
proof (cases "e_in_use e")
  case False
  with assms show ?thesis by (simp add: pcie_release_dev_def)
next
  case True
  then have p: "e_proc_dir e \<noteq> 0" using assms(2) by (simp add: slot_ok_def)
  obtain e1 w1 where d: "pcie_entry_detach_pdev K e w = (e1, w1)" by (metis prod.exhaust)
  then have e1: "e1 = (if e_pdev e = None then e else e\<lparr>e_boot_mem_base := 0, e_pdev := None\<rparr>)"
    using detach_result [of K e w] by simp
  then have dir: "e_proc_dir e1 \<noteq> 0" and base: "e_boot_mem_base e1 = 0" and pdev: "e_pdev e1 = None"
    using p assms(2) by (auto simp: slot_ok_def)
  let ?w2 = "kdo K (KC_cancel_delayed_work i) w1"
  let ?w3 = "kdo K (KC_remove_proc_subtree (e_proc_name e1)) ?w2"
  have e': "e' = fst (pcie_release_dev K i e w)" using assms(1) by simp
  have w': "w' = ?w3" using assms(1) True d dir by (simp add: pcie_release_dev_def Let_def)
  have "e_boot_mem_base e' = 0 \<and> e_pdev e' = None \<and> e_proc_dir e' = 0"
    unfolding e' release_result [OF assms(2)] using True by (simp add: released_def zero_entry_def)
  then have "own e' = own (e1\<lparr>e_proc_dir := 0\<rparr>)" using base pdev by (intro own_cong) simp_all
  then show ?thesis
    using detach_gap [OF d] wt_rmtree [OF dir] unfolding w' by (simp add: gap_def kframe wt_neutral)
qed

lemma schedule_gap: "pcie_boot_timeout_schedule K i e w = (e', w') \<Longrightarrow> gap wt own e' w' = gap wt own e w"
  using own_cong [of "e\<lparr>e_work_pending := True\<rparr>" e]
  by (auto simp: pcie_boot_timeout_schedule_def gap_def Let_def kframe wt_neutral)

lemma timeout_fn_gap: "pcie_boot_timeout_fn K e w = (e', w') \<Longrightarrow> gap wt own e' w' = gap wt own e w"
  using own_cong [of "e\<lparr>e_state := AMBA_PCI_STATE_BOOT_FAILED\<rparr>" e]
  by (auto simp: pcie_boot_timeout_fn_def gap_def Let_def kframe wt_neutral split: if_splits)

lemma create_nodes_balance: "balance wt (snd (create_nodes K dir ns w)) = balance wt w"
  by (induction ns arbitrary: w) (simp_all add: Let_def case_prod_beta kframe wt_neutral)

lemma create_proc_gap:
  assumes "pcie_create_proc_nodes K root e i w = ((r, e'), w')" "e_proc_dir e = 0"
  shows "gap wt own e' w' = gap wt own e w"
proof -
  have mk: "balance wt w1 = balance wt w + (own (e\<lparr>e_proc_dir := dir\<rparr>) - own e)"
    if "kcall K (KC_proc_mkdir (slot_proc_name i)) w = (dir, w1)" for dir w1
    using balance_frame(6) [of wt K "KC_proc_mkdir (slot_proc_name i)" w] that wt_mkdir [OF assms(2)] by simp
  have nm: "own (e\<lparr>e_proc_name := n, e_proc_dir := dir\<rparr>) = own (e\<lparr>e_proc_dir := dir\<rparr>)" for n dir
    by (rule own_cong) simp_all
  have e0: "own (e\<lparr>e_proc_dir := 0\<rparr>) = own e" by (rule own_cong) (simp_all add: assms(2))
  from assms(1) show ?thesis
  proof (cases rule: create_proc_cases)
    case noroot
    then show ?thesis by simp
  next
    case nodir
    then show ?thesis using mk [OF nodir(4)] by (simp add: gap_def nm)
  next
    case (nonode dir w1 w2)
    have "balance wt w2 = balance wt w1"
      using create_nodes_balance [of K "slot_proc_name i" proc_node_names w1] nonode(6) by simp
    moreover have "balance wt w' = balance wt w2 + (own e - own (e\<lparr>e_proc_dir := dir\<rparr>))"
      using nonode(4,7) wt_rmtree [of "e\<lparr>e_proc_dir := dir\<rparr>"] e0 by (simp add: kframe)
    ultimately show ?thesis using mk [OF nonode(5)] e0 nonode(3) by (simp add: gap_def nm)
  next
    case (created dir w1)
    have "balance wt w' = balance wt w1"
      using create_nodes_balance [of K "slot_proc_name i" proc_node_names w1] created(6) by simp
    then show ?thesis using mk [OF created(5)] created(4) by (simp add: gap_def nm)
  qed
qed

lemma initialised_gap:
  assumes "e_pdev e = None" "e_boot_mem_base e = 0"
  shows "gap wt own (initialised g pd i e) (kdo K (KC_pci_dev_get (pd_handle pd)) w) = gap wt own e w"
proof -
  have "own (initialised g pd i e) = own (e\<lparr>e_pdev := Some pd\<rparr>)"
    by (rule own_cong) (simp_all add: initialised_def assms)
  then show ?thesis using wt_get [OF assms(1)] by (simp add: gap_def kframe)
qed

text \<open>Reconnecting overwrites the device pointer: what it held before stays in the balance.\<close>

lemma reconnect_gap:
  assumes "pcie_try_reconnect_booting_locked K i pd e w = (e', w')"
  shows "gap wt own e' w' = gap wt own e w + (own e - own (e\<lparr>e_pdev := None\<rparr>))"
proof -
  have "own e' = own (e\<lparr>e_pdev := Some pd\<rparr>)"
    using assms by (intro own_cong) (auto simp: pcie_try_reconnect_booting_locked_def pci_dev_get_def Let_def)
  moreover have "own (e\<lparr>e_pdev := None, e_pdev := Some pd\<rparr>) = own (e\<lparr>e_pdev := Some pd\<rparr>)" by simp
  ultimately show ?thesis using assms wt_get [of "e\<lparr>e_pdev := None\<rparr>"]
    by (auto simp: pcie_try_reconnect_booting_locked_def pci_dev_get_def Let_def gap_def kframe wt_neutral)
qed

end

subsection \<open>Quiet stretches\<close>

text \<open>A stretch of a run that makes no call which any ledger weighs.\<close>

definition only :: "(kcall \<Rightarrow> bool) \<Rightarrow> 'd world \<Rightarrow> 'd world \<Rightarrow> bool" where
  "only C w w' \<longleftrightarrow> (\<exists>cs. rcalls w' = rcalls w @ cs \<and> (\<forall>c \<in> set cs. C (fst c)))"

lemma only_rcalls: "rcalls w' = rcalls w \<Longrightarrow> only C w w'"
  by (simp add: only_def)

lemma only_refl [simp, intro]: "only C w w"
  by (simp add: only_rcalls)

lemma only_trans: "only C w w1 \<Longrightarrow> only C w1 w2 \<Longrightarrow> only C w w2"
  by (auto simp: only_def)

lemma only_kdo [simp]: "only C u w \<Longrightarrow> C c \<Longrightarrow> only C u (kdo K c w)"
  by (auto simp: only_def kframe)

lemma only_kcall [simp]: "only C u w \<Longrightarrow> C c \<Longrightarrow> only C u (snd (kcall K c w))"
  using only_kdo [of C u w c K] by (simp add: kdo_def)

lemma only_kcallD: "kcall K c w = (r, w') \<Longrightarrow> only C u w \<Longrightarrow> C c \<Longrightarrow> only C u w'"
  using only_kcall [of C u w c K] by simp

lemma only_calls: "calls w' = calls w \<Longrightarrow> only C w w'"
  by (rule only_rcalls) (simp add: rcalls_def)

lemma only_mono: "only C w w' \<Longrightarrow> (\<And>c. C c \<Longrightarrow> D c) \<Longrightarrow> only D w w'"
  by (auto simp: only_def)

abbreviation quiet :: "'d world \<Rightarrow> 'd world \<Rightarrow> bool" where
  "quiet \<equiv> only neutral_call"

lemmas quiet_refl = only_refl [where C = neutral_call]
lemmas quiet_trans = only_trans [where C = neutral_call]
lemmas quiet_rcalls = only_rcalls [where C = neutral_call]
lemmas quiet_kcallD = only_kcallD [where C = neutral_call]

context ledger
begin

lemma quiet_balance: "quiet w w' \<Longrightarrow> balance wt w' = balance wt w"
proof -
  assume "quiet w w'"
  then obtain cs where cs: "rcalls w' = rcalls w @ cs" "\<forall>c \<in> set cs. neutral_call (fst c)" by (auto simp: only_def)
  have "sum_list (map wt cs) = 0" using cs(2) by (induction cs) (auto simp: wt_neutral)
  with cs(1) show ?thesis by (simp add: balance_def)
qed

lemma quiet_gap: "quiet w w' \<Longrightarrow> gap wt own e w' = gap wt own e w"
  by (simp add: gap_def quiet_balance)

end

subsection \<open>The three ledgers\<close>

fun map_wt :: "kcall \<times> int \<Rightarrow> int" where
  "map_wt (KC_pci_iomap p b l, r) = (if of_int r \<noteq> (0 :: u64) then 1 else 0)"
| "map_wt (KC_pci_iounmap p a, r) = - 1"
| "map_wt (c, r) = 0"

definition map_own :: "pcie_dev_entry \<Rightarrow> int" where
  "map_own e = (if e_boot_mem_base e \<noteq> 0 then 1 else 0)"

fun proc_wt :: "kcall \<times> int \<Rightarrow> int" where
  "proc_wt (KC_proc_mkdir n, r) = (if r \<noteq> 0 \<and> n \<noteq> DRIVER_NAME then 1 else 0)"
| "proc_wt (KC_remove_proc_subtree n, r) = - 1"
| "proc_wt (c, r) = 0"

definition proc_own :: "pcie_dev_entry \<Rightarrow> int" where
  "proc_own e = (if e_proc_dir e \<noteq> 0 then 1 else 0)"

fun ref_wt :: "nat \<Rightarrow> kcall \<times> int \<Rightarrow> int" where
  "ref_wt h (KC_pci_dev_get p, r) = (if p = h \<and> h \<noteq> 0 then 1 else 0)"
| "ref_wt h (KC_pci_dev_put p, r) = (if p = h \<and> h \<noteq> 0 then - 1 else 0)"
| "ref_wt h (c, r) = 0"

definition ref_own :: "nat \<Rightarrow> pcie_dev_entry \<Rightarrow> int" where
  "ref_own h e = (case e_pdev e of None \<Rightarrow> 0 | Some pd \<Rightarrow> if pd_handle pd = h \<and> h \<noteq> 0 then 1 else 0)"

lemma neutral_wt: "neutral_call c \<Longrightarrow> map_wt (c, r) = 0" "neutral_call c \<Longrightarrow> proc_wt (c, r) = 0" "neutral_call c \<Longrightarrow> ref_wt h (c, r) = 0"
  by (cases c; simp)+

interpretation maps: ledger map_wt map_own
  by unfold_locales (auto simp: map_own_def neutral_wt)

lemma slot_name_not_driver [simp]: "slot_proc_name i \<noteq> DRIVER_NAME"
  by (simp add: slot_proc_name_def scnprintf_def)

interpretation procs: ledger proc_wt proc_own
  by unfold_locales (auto simp: proc_own_def neutral_wt)

text \<open>What the module itself takes at load, as ledgers of which no slot owns a part.\<close>

datatype module_resource = Chrdev | Dev_Class | Cdev | Ctrl_Dev | Notifier | Proc_Root

fun module_wt :: "module_resource \<Rightarrow> kcall \<times> int \<Rightarrow> int" where
  "module_wt m (KC_alloc_chrdev_region, r) = (if m = Chrdev \<and> 0 \<le> r then 1 else 0)"
| "module_wt m (KC_unregister_chrdev_region n, r) = (if m = Chrdev then - 1 else 0)"
| "module_wt m (KC_class_create, r) = (if m = Dev_Class \<and> 0 < r then 1 else 0)"
| "module_wt m (KC_class_destroy, r) = (if m = Dev_Class then - 1 else 0)"
| "module_wt m (KC_cdev_add n, r) = (if m = Cdev \<and> r = 0 then 1 else 0)"
| "module_wt m (KC_cdev_del, r) = (if m = Cdev then - 1 else 0)"
| "module_wt m (KC_device_create n, r) = (if m = Ctrl_Dev \<and> 0 < r then 1 else 0)"
| "module_wt m (KC_device_destroy n, r) = (if m = Ctrl_Dev then - 1 else 0)"
| "module_wt m (KC_bus_register_notifier, r) = (if m = Notifier \<and> r = 0 then 1 else 0)"
| "module_wt m (KC_bus_unregister_notifier, r) = (if m = Notifier then - 1 else 0)"
| "module_wt m (KC_proc_mkdir n, r) = (if m = Proc_Root \<and> n = DRIVER_NAME \<and> r \<noteq> 0 then 1 else 0)"
| "module_wt m (KC_proc_remove, r) = (if m = Proc_Root then - 1 else 0)"
| "module_wt m (c, r) = 0"

lemma neutral_module_wt: "neutral_call c \<Longrightarrow> module_wt m (c, r) = 0"
  by (cases c) simp_all

interpretation mods: ledger "module_wt m" "\<lambda>e. 0" for m
  by unfold_locales (auto simp: neutral_module_wt)

interpretation refs: ledger "ref_wt h" "ref_own h" for h
  by unfold_locales (auto simp: ref_own_def neutral_wt)

end
