(* ===== verification/Hotplug_Correct.thy ===== *)
theory Hotplug_Correct
  imports Resource_Ledger
begin

section \<open>Correctness of the hotplug handlers\<close>

text \<open>
  The platform invariant (every slot entry well formed), its preservation by the add and delete
  handlers and the initial scan, the abstract hotplug specification the handlers refine, and the
  ledgers of the whole platform.
\<close>

definition plat_ok :: "amba_pci_platform \<Rightarrow> bool" where
  "plat_ok g \<longleftrightarrow> length (g_devs g) = AMBA_PCI_DEV_MAX \<and> (\<forall>i < AMBA_PCI_DEV_MAX. slot_ok i (g_devs g ! i))"

lemma plat_ok_slot: "plat_ok g \<Longrightarrow> i < AMBA_PCI_DEV_MAX \<Longrightarrow> slot_ok i (g_devs g ! i)"
  by (simp add: plat_ok_def)

lemma zero_platform_ok: "plat_ok zero_platform"
  by (simp add: plat_ok_def zero_platform_def zero_entry_ok)

lemma set_entry_nth: "length (g_devs g) = AMBA_PCI_DEV_MAX \<Longrightarrow> i < AMBA_PCI_DEV_MAX \<Longrightarrow>
    g_devs (set_entry g i e) ! j = (if j = i then e else g_devs g ! j)"
  by (simp add: set_entry_def)

lemma set_entry_ok:
  assumes "plat_ok g" "i < AMBA_PCI_DEV_MAX" "slot_ok i e"
  shows "plat_ok (set_entry g i e)"
  using assms by (auto simp: plat_ok_def set_entry_def nth_list_update)

lemma set_entry_twice: "set_entry (set_entry g i e) i f = set_entry g i f"
  by (simp add: set_entry_def)

lemma set_entry_fields [simp]:
  "g_next_dev_id (set_entry g i e) = g_next_dev_id g" "g_proc_root (set_entry g i e) = g_proc_root g"
  "g_class (set_entry g i e) = g_class g" "g_ctrl_dev (set_entry g i e) = g_ctrl_dev g"
  by (simp_all add: set_entry_def)

lemma plat_ok_next_id [simp]: "plat_ok (g\<lparr>g_next_dev_id := n\<rparr>) \<longleftrightarrow> plat_ok g"
  by (simp add: plat_ok_def)

lemma slot_id_index:
  assumes "\<not> get_pci_slot_id pd < 0"
  shows "nat (get_pci_slot_id pd) < AMBA_PCI_DEV_MAX" "get_pci_slot_id pd = int (nat (get_pci_slot_id pd))"
  using assms slot.slot_index [of pd] by simp_all

subsection \<open>The paths through the handlers\<close>

definition connected_state :: "'d kernel \<Rightarrow> pci_dev \<Rightarrow> 'd world \<Rightarrow> amba_pci_dev_state" where
  "connected_state K pd w = (if is_virtio_dev K pd w then AMBA_PCI_STATE_CONNECTED else AMBA_PCI_STATE_DISCONNECTED)"

lemma handle_add_cases:
  assumes add: "pcie_handle_add_locked K pd g w = (g', w')" and ok: "plat_ok g"
  obtains (ignored) "g' = g" "w' = w"
      "get_pci_slot_id pd < 0 \<or>
       e_in_use (g_devs g ! nat (get_pci_slot_id pd)) \<and>
         (e_state (g_devs g ! nat (get_pci_slot_id pd)) \<noteq> AMBA_PCI_STATE_BOOTING \<or> \<not> is_virtio_dev K pd w) \<or>
       \<not> e_in_use (g_devs g ! nat (get_pci_slot_id pd)) \<and> \<not> is_virtio_dev K pd w \<and> \<not> is_boot_dev K pd w"
  | (reconnect) i e where "get_pci_slot_id pd = int i" "i < AMBA_PCI_DEV_MAX" "is_virtio_dev K pd w"
      "e_in_use (g_devs g ! i)" "e_state (g_devs g ! i) = AMBA_PCI_STATE_BOOTING"
      "pcie_try_reconnect_booting_locked K i pd (g_devs g ! i) w = (e, w')" "g' = set_entry g i e"
  | (init_failed) i r e where "get_pci_slot_id pd = int i" "i < AMBA_PCI_DEV_MAX" "\<not> e_in_use (g_devs g ! i)"
      "is_virtio_dev K pd w \<or> is_boot_dev K pd w" "r \<noteq> 0"
      "pcie_create_proc_nodes K (g_proc_root g) (g_devs g ! i) i w = ((r, e), w')" "g' = set_entry g i e"
  | (init_ok) i e w1 where "get_pci_slot_id pd = int i" "i < AMBA_PCI_DEV_MAX" "\<not> e_in_use (g_devs g ! i)"
      "is_virtio_dev K pd w \<or> is_boot_dev K pd w"
      "pcie_create_proc_nodes K (g_proc_root g) (g_devs g ! i) i w = ((0, e), w1)"
      "w' = kdo K (KC_pci_dev_get (pd_handle pd)) w1"
      "g' = (set_entry g i ((initialised g pd i e)\<lparr>e_state := connected_state K pd w\<rparr>))\<lparr>g_next_dev_id := g_next_dev_id g + 1\<rparr>"
proof (cases "get_pci_slot_id pd < 0")
  case True
  with add ignored show ?thesis by (simp add: pcie_handle_add_locked_def)
next
  case pos: False
  define i where "i = nat (get_pci_slot_id pd)"
  have i: "get_pci_slot_id pd = int i" "i < AMBA_PCI_DEV_MAX" using slot_id_index [OF pos] by (simp_all add: i_def)
  have len: "length (g_devs g) = AMBA_PCI_DEV_MAX" using ok by (simp add: plat_ok_def)
  show ?thesis
  proof (cases "e_in_use (g_devs g ! i)")
    case use: True
    show ?thesis
    proof (cases "e_state (g_devs g ! i) = AMBA_PCI_STATE_BOOTING \<and> is_virtio_dev K pd w")
      case True
      obtain e w1 where rc: "pcie_try_reconnect_booting_locked K i pd (g_devs g ! i) w = (e, w1)"
        by (metis prod.exhaust)
      with True use i add have "g' = set_entry g i e" "w' = w1"
        by (simp_all add: pcie_handle_add_locked_def Let_def)
      with True use i rc reconnect show ?thesis by blast
    next
      case False
      with use i add have "g' = g" "w' = w" by (auto simp: pcie_handle_add_locked_def Let_def split: if_splits)
      with False use i ignored show ?thesis by auto
    qed
  next
    case unused: False
    show ?thesis
    proof (cases "is_virtio_dev K pd w \<or> is_boot_dev K pd w")
      case False
      with unused i add have "g' = g" "w' = w" by (auto simp: pcie_handle_add_locked_def Let_def)
      with False unused i ignored show ?thesis by auto
    next
      case True
      obtain r g1 w1 where ini: "pcie_init_slot K g pd i w = ((r, g1), w1)" by (metis prod.exhaust)
      have res: "(g', w') = (if r = 0 \<and> is_virtio_dev K pd w
          then (set_entry g1 i ((g_devs g1 ! i)\<lparr>e_state := AMBA_PCI_STATE_CONNECTED\<rparr>), w1) else (g1, w1))"
        unfolding add [symmetric] using True unused i ini by (auto simp: pcie_handle_add_locked_def Let_def)
      from ini show ?thesis
      proof (cases rule: init_slot_cases)
        case (init_failed e)
        with res have "g' = set_entry g i e" "w' = w1" by simp_all
        with that(3) [OF i unused True init_failed(1)] init_failed(2) show ?thesis by blast
      next
        case (init_ok e w2)
        let ?e = "initialised g pd i e"
        have at: "g_devs g1 ! i = ?e" using init_ok(4) len i(2) by (simp add: set_entry_def)
        have "g' = (set_entry g i (?e\<lparr>e_state := connected_state K pd w\<rparr>))\<lparr>g_next_dev_id := g_next_dev_id g + 1\<rparr>"
        proof (cases "is_virtio_dev K pd w")
          case True
          with res init_ok(1) have "g' = set_entry g1 i ((g_devs g1 ! i)\<lparr>e_state := AMBA_PCI_STATE_CONNECTED\<rparr>)" by simp
          with True show ?thesis unfolding at init_ok(4) connected_state_def by (simp add: set_entry_def len i(2))
        next
          case False
          with res have "g' = g1" by simp
          moreover have "?e\<lparr>e_state := AMBA_PCI_STATE_DISCONNECTED\<rparr> = ?e" by (simp add: initialised_def)
          ultimately show ?thesis using False unfolding init_ok(4) connected_state_def by simp
        qed
        moreover have "w' = w1" using res by (simp split: if_splits)
        ultimately show ?thesis using that(4) [OF i unused True init_ok(2)] init_ok(3) by simp
      qed
    qed
  qed
qed

lemma handle_del_cases:
  assumes del: "pcie_handle_del_locked K pd g w = (g', w')"
  obtains (ignored) "g' = g" "w' = w"
      "get_pci_slot_id pd < 0 \<or> \<not> e_in_use (g_devs g ! nat (get_pci_slot_id pd))"
  | (detached) i e where "get_pci_slot_id pd = int i" "i < AMBA_PCI_DEV_MAX" "e_in_use (g_devs g ! i)"
      "e_state (g_devs g ! i) = AMBA_PCI_STATE_BOOTING"
      "pcie_entry_detach_pdev K (g_devs g ! i) w = (e, w')" "g' = set_entry g i e"
  | (removed) i e where "get_pci_slot_id pd = int i" "i < AMBA_PCI_DEV_MAX" "e_in_use (g_devs g ! i)"
      "e_state (g_devs g ! i) \<noteq> AMBA_PCI_STATE_BOOTING"
      "pcie_release_dev K i (g_devs g ! i) w = (e, w')" "g' = set_entry g i e"
proof (cases "get_pci_slot_id pd < 0 \<or> \<not> e_in_use (g_devs g ! nat (get_pci_slot_id pd))")
  case True
  with del ignored show ?thesis by (simp add: pcie_handle_del_locked_def)
next
  case False
  define i where "i = nat (get_pci_slot_id pd)"
  have i: "get_pci_slot_id pd = int i" "i < AMBA_PCI_DEV_MAX" "e_in_use (g_devs g ! i)"
    using slot_id_index [of pd] False by (simp_all add: i_def)
  show ?thesis
  proof (cases "e_state (g_devs g ! i) = AMBA_PCI_STATE_BOOTING")
    case True
    obtain e w1 where d: "pcie_entry_detach_pdev K (g_devs g ! i) w = (e, w1)" by (metis prod.exhaust)
    with True i del have "g' = set_entry g i e" "w' = w1" by (simp_all add: pcie_handle_del_locked_def Let_def)
    with detached i True d show ?thesis by blast
  next
    case st: False
    obtain e w1 where d: "pcie_release_dev K i (g_devs g ! i) w = (e, w1)" by (metis prod.exhaust)
    with st i del have "g' = set_entry g i e" "w' = w1" by (simp_all add: pcie_handle_del_locked_def Let_def)
    with removed i st d show ?thesis by blast
  qed
qed

subsection \<open>The invariant\<close>

lemma handle_add_ok:
  assumes "pcie_handle_add_locked K pd g w = (g', w')" "plat_ok g"
  shows "plat_ok g'"
  using assms
proof (cases rule: handle_add_cases)
  case ignored
  then show ?thesis using assms(2) by simp
next
  case (reconnect i e)
  have "slot_ok i e"
    using reconnect_ok [OF plat_ok_slot [OF assms(2) reconnect(2)] reconnect(4,1), of K w] reconnect(6) by simp
  then show ?thesis using reconnect set_entry_ok [OF assms(2)] by blast
next
  case (init_failed i r e)
  have "slot_ok i e"
    using create_proc_failed_ok [OF init_failed(6,5) plat_ok_slot [OF assms(2) init_failed(2)] init_failed(3)] by blast
  then show ?thesis using init_failed set_entry_ok [OF assms(2)] by blast
next
  case (init_ok i e w1)
  have "slot_ok i (initialised g pd i e)"
    by (rule initialised_ok [OF init_ok(5) plat_ok_slot [OF assms(2) init_ok(2)] init_ok(3,1)])
  then have "slot_ok i ((initialised g pd i e)\<lparr>e_state := connected_state K pd w\<rparr>)"
    using plat_ok_slot [OF assms(2) init_ok(2)] init_ok(3) create_proc_ok_facts(4) [OF init_ok(5)]
    by (auto simp: slot_ok_def initialised_def bar_chosen_def)
  then show ?thesis using init_ok set_entry_ok [OF assms(2)] by simp
qed

lemma handle_del_ok:
  assumes "pcie_handle_del_locked K pd g w = (g', w')" "plat_ok g"
  shows "plat_ok g'"
  using assms(1)
proof (cases rule: handle_del_cases)
  case ignored
  then show ?thesis using assms(2) by simp
next
  case (detached i e)
  have "slot_ok i e"
    using detach_ok [OF plat_ok_slot [OF assms(2) detached(2)], of K w] detached(4,5) by simp
  then show ?thesis using detached set_entry_ok [OF assms(2)] by blast
next
  case (removed i e)
  have "e = released (g_devs g ! i)"
    using release_result [OF plat_ok_slot [OF assms(2) removed(2)], of K w] removed(3,5) by simp
  then show ?thesis using removed set_entry_ok [OF assms(2)] released_ok by blast
qed

lemma bus_notify_ok:
  assumes "pcie_pci_bus_notify K action is_pci pd g w = ((r, g'), w')" "plat_ok g"
  shows "plat_ok g'" "r = NOTIFY_DONE"
  using assms handle_add_ok [of K pd g "kdo K KC_mutex_lock w"] handle_del_ok [of K pd g "kdo K KC_mutex_lock w"]
  by (auto simp: pcie_pci_bus_notify_def split: if_splits prod.splits)

subsection \<open>The abstract hotplug specification\<close>

text \<open>
  What a slot promises: it is empty, or holds a card in a state with or without a device. A virtio
  function that appears connects a booting card or a card found running; a boot function in an
  empty slot is a new card to be booted; removal keeps a booting card (the device will come back)
  and empties the slot otherwise.
\<close>

datatype card_slot = Empty | Card amba_pci_dev_state "pci_dev option"

definition abs_slot :: "pcie_dev_entry \<Rightarrow> card_slot" where
  "abs_slot e = (if e_in_use e then Card (e_state e) (e_pdev e) else Empty)"

datatype dev_kind = Virtio_Fn | Boot_Fn | Other_Fn

definition kind_of :: "'d kernel \<Rightarrow> pci_dev \<Rightarrow> 'd world \<Rightarrow> dev_kind" where
  "kind_of K pd w = (if is_virtio_dev K pd w then Virtio_Fn else if is_boot_dev K pd w then Boot_Fn else Other_Fn)"

fun spec_add :: "dev_kind \<Rightarrow> bool \<Rightarrow> pci_dev \<Rightarrow> card_slot \<Rightarrow> card_slot" where
  "spec_add Virtio_Fn True pd Empty = Card AMBA_PCI_STATE_CONNECTED (Some pd)"
| "spec_add Boot_Fn True pd Empty = Card AMBA_PCI_STATE_DISCONNECTED (Some pd)"
| "spec_add Virtio_Fn nodes pd (Card AMBA_PCI_STATE_BOOTING d) = Card AMBA_PCI_STATE_CONNECTED (Some pd)"
| "spec_add kind nodes pd s = s"

fun spec_del :: "card_slot \<Rightarrow> card_slot" where
  "spec_del Empty = Empty"
| "spec_del (Card AMBA_PCI_STATE_BOOTING d) = Card AMBA_PCI_STATE_BOOTING None"
| "spec_del (Card st d) = Empty"

definition on_slot :: "pci_dev \<Rightarrow> (card_slot \<Rightarrow> card_slot) \<Rightarrow> card_slot list \<Rightarrow> card_slot list" where
  "on_slot pd f ss = (if get_pci_slot_id pd < 0 then ss
     else ss[nat (get_pci_slot_id pd) := f (ss ! nat (get_pci_slot_id pd))])"

definition nodes_created :: "'d kernel \<Rightarrow> pci_dev \<Rightarrow> amba_pci_platform \<Rightarrow> 'd world \<Rightarrow> bool" where
  "nodes_created K pd g w \<longleftrightarrow>
     (let i = nat (get_pci_slot_id pd)
      in fst (fst (pcie_create_proc_nodes K (g_proc_root g) (g_devs g ! i) i w)) = 0)"

lemma spec_add_simps:
  "s \<noteq> AMBA_PCI_STATE_BOOTING \<Longrightarrow> spec_add k n pd (Card s d) = Card s d"
  "k \<noteq> Virtio_Fn \<Longrightarrow> spec_add k n pd (Card s d) = Card s d"
  "spec_add Other_Fn n pd x = x" "spec_add k False pd Empty = Empty"
  "spec_add Virtio_Fn n pd (Card AMBA_PCI_STATE_BOOTING d) = Card AMBA_PCI_STATE_CONNECTED (Some pd)"
  by (cases k; cases s; cases n; cases x; simp)+

lemma spec_del_simps: "s \<noteq> AMBA_PCI_STATE_BOOTING \<Longrightarrow> spec_del (Card s d) = Empty"
  by (cases s) simp_all

lemma abs_set_entry: "map abs_slot (g_devs (set_entry g i e)) = (map abs_slot (g_devs g))[i := abs_slot e]"
  by (simp add: set_entry_def map_update)

lemma on_slot_at:
  "get_pci_slot_id pd = int i \<Longrightarrow> on_slot pd f ss = ss[i := f (ss ! i)]"
  by (simp add: on_slot_def)

lemma on_slot_same:
  assumes "get_pci_slot_id pd = int i" "f (ss ! i) = ss ! i"
  shows "on_slot pd f ss = ss"
  using assms by (simp add: on_slot_at)

lemma handle_add_refines:
  assumes "pcie_handle_add_locked K pd g w = (g', w')" "plat_ok g"
  shows "map abs_slot (g_devs g') =
    on_slot pd (spec_add (kind_of K pd w) (nodes_created K pd g w) pd) (map abs_slot (g_devs g))"
proof -
  have len: "length (g_devs g) = 4" using assms(2) by (simp add: plat_ok_def)
  show ?thesis
    using assms
  proof (cases rule: handle_add_cases)
    case ignored
    show ?thesis
    proof (cases "get_pci_slot_id pd < 0")
      case True
      then show ?thesis using ignored by (simp add: on_slot_def)
    next
      case False
      note i = slot_id_index [OF False]
      show ?thesis
        unfolding ignored(1)
        by (rule on_slot_same [OF i(2), symmetric])
           (use ignored(3) False i(1) len in \<open>auto simp: abs_slot_def kind_of_def spec_add_simps\<close>)
    qed
  next
    case (reconnect i e)
    have "e = (g_devs g ! i)\<lparr>e_pdev := Some pd, e_work_pending := False, e_state := AMBA_PCI_STATE_CONNECTED\<rparr>"
      using reconnect_result [of K i pd "g_devs g ! i" w] reconnect(6) by simp
    then have "abs_slot e = Card AMBA_PCI_STATE_CONNECTED (Some pd)" using reconnect(4) by (simp add: abs_slot_def)
    then show ?thesis
      using reconnect len unfolding reconnect(7) abs_set_entry on_slot_at [OF reconnect(1)]
      by (simp add: abs_slot_def kind_of_def spec_add_simps)
  next
    case (init_failed i r e)
    have "\<not> nodes_created K pd g w" using init_failed(1,5,6) by (simp add: nodes_created_def)
    moreover have "\<not> e_in_use e"
      using create_proc_failed_ok [OF init_failed(6,5) plat_ok_slot [OF assms(2) init_failed(2)] init_failed(3)] by blast
    ultimately show ?thesis
      using init_failed(2,3) len unfolding init_failed(7) abs_set_entry on_slot_at [OF init_failed(1)]
      by (simp add: abs_slot_def spec_add_simps)
  next
    case (init_ok i e w1)
    have n: "nodes_created K pd g w" using init_ok(1,5) by (simp add: nodes_created_def)
    have "abs_slot ((initialised g pd i e)\<lparr>e_state := connected_state K pd w\<rparr>) = Card (connected_state K pd w) (Some pd)"
      by (simp add: abs_slot_def initialised_def)
    moreover have "map abs_slot (g_devs g') =
        map abs_slot (g_devs (set_entry g i ((initialised g pd i e)\<lparr>e_state := connected_state K pd w\<rparr>)))"
      unfolding init_ok(7) by simp
    ultimately show ?thesis
      using init_ok(2,3,4) len n unfolding abs_set_entry on_slot_at [OF init_ok(1)]
      by (auto simp: abs_slot_def kind_of_def connected_state_def)
  qed
qed

lemma handle_del_refines:
  assumes "pcie_handle_del_locked K pd g w = (g', w')" "plat_ok g"
  shows "map abs_slot (g_devs g') = on_slot pd spec_del (map abs_slot (g_devs g))"
proof -
  have len: "length (g_devs g) = 4" using assms(2) by (simp add: plat_ok_def)
  show ?thesis
    using assms(1)
  proof (cases rule: handle_del_cases)
    case ignored
    show ?thesis
    proof (cases "get_pci_slot_id pd < 0")
      case True
      then show ?thesis using ignored by (simp add: on_slot_def)
    next
      case False
      note i = slot_id_index [OF False]
      show ?thesis
        unfolding ignored(1)
        by (rule on_slot_same [OF i(2), symmetric])
           (use ignored(3) False i(1) len in \<open>auto simp: abs_slot_def\<close>)
    qed
  next
    case (detached i e)
    have "e = (if e_pdev (g_devs g ! i) = None then g_devs g ! i
        else (g_devs g ! i)\<lparr>e_boot_mem_base := 0, e_pdev := None\<rparr>)"
      using detach_result [of K "g_devs g ! i" w] detached(5) by simp
    then have "abs_slot e = Card AMBA_PCI_STATE_BOOTING None"
      using detached(3,4) by (simp add: abs_slot_def)
    then show ?thesis
      using detached(2,3,4) len unfolding detached(6) abs_set_entry on_slot_at [OF detached(1)]
      by (simp add: abs_slot_def)
  next
    case (removed i e)
    have "e = released (g_devs g ! i)"
      using release_result [OF plat_ok_slot [OF assms(2) removed(2)], of K w] removed(3,5) by simp
    then have "abs_slot e = Empty" by (simp add: abs_slot_def released_def zero_entry_def)
    then show ?thesis
      using removed(2,3,4) len unfolding removed(6) abs_set_entry on_slot_at [OF removed(1)]
      by (simp add: abs_slot_def spec_del_simps)
  qed
qed

lemma handle_add_frame [kframe]: "iow (snd (pcie_handle_add_locked K pd g w)) = iow w"
proof -
  have ini: "iow (snd (pcie_init_slot K g pd i w)) = iow w" for i
    by (simp add: pcie_init_slot_def pci_dev_get_def Let_def case_prod_beta kframe)
  show ?thesis
    by (simp add: pcie_handle_add_locked_def pcie_try_reconnect_booting_locked_def pci_dev_get_def
        Let_def case_prod_beta kframe ini)
qed

lemma handle_del_frame [kframe]: "iow (snd (pcie_handle_del_locked K pd g w)) = iow w"
  by (simp add: pcie_handle_del_locked_def Let_def case_prod_beta kframe)

lemma bus_notify_refines:
  assumes "pcie_pci_bus_notify K action is_pci pd g w = ((r, g'), w')" and "plat_ok g"
  shows "r = NOTIFY_DONE \<and> plat_ok g' \<and> iow w' = iow w \<and>
    map abs_slot (g_devs g') =
      (if \<not> is_pci then map abs_slot (g_devs g)
       else if action = BUS_NOTIFY_ADD_DEVICE
       then let w1 = kdo K KC_mutex_lock w
            in on_slot pd (spec_add (kind_of K pd w1) (nodes_created K pd g w1) pd) (map abs_slot (g_devs g))
       else if action = BUS_NOTIFY_DEL_DEVICE then on_slot pd spec_del (map abs_slot (g_devs g))
       else map abs_slot (g_devs g))"
proof -
  obtain ga wa where a: "pcie_handle_add_locked K pd g (kdo K KC_mutex_lock w) = (ga, wa)" by (metis prod.exhaust)
  obtain gd wd where d: "pcie_handle_del_locked K pd g (kdo K KC_mutex_lock w) = (gd, wd)" by (metis prod.exhaust)
  have "iow wa = iow w" "iow wd = iow w"
    using a d handle_add_frame [of K pd g "kdo K KC_mutex_lock w"] handle_del_frame [of K pd g "kdo K KC_mutex_lock w"]
    by (simp_all add: kframe)
  then show ?thesis
    using assms handle_add_refines [OF a assms(2)] handle_del_refines [OF d assms(2)] bus_notify_ok [OF assms] a d
    by (auto simp: pcie_pci_bus_notify_def Let_def kframe split: if_splits)
qed

text \<open>C6: The bus notifier implements the abstract hotplug specification: whatever is added to or
  removed from the bus, the slot of the device's own bus changes as specified, no other slot
  changes, every slot stays well formed, other bus types and actions change nothing, and no
  endpoint register is written.\<close>

theorem bus_notify_refines_spec:
  assumes "pcie_pci_bus_notify K action is_pci pd g w = ((r, g'), w')" and "plat_ok g"
  shows "r = NOTIFY_DONE \<and> plat_ok g' \<and> iow w' = iow w \<and>
    map abs_slot (g_devs g') =
      (if \<not> is_pci then map abs_slot (g_devs g)
       else if action = BUS_NOTIFY_ADD_DEVICE
       then let w1 = kdo K KC_mutex_lock w
            in on_slot pd (spec_add (kind_of K pd w1) (nodes_created K pd g w1) pd) (map abs_slot (g_devs g))
       else if action = BUS_NOTIFY_DEL_DEVICE then on_slot pd spec_del (map abs_slot (g_devs g))
       else map abs_slot (g_devs g))"
  using assms by (rule bus_notify_refines)

text \<open>\<open>pci_stop_and_remove_bus_device_locked\<close> as the kernel documents it: the device leaves the bus,
  and the notifiers of the bus hear of it before the call returns.\<close>

definition bus_remove :: "'d kernel \<Rightarrow> 'd remove_fn" where
  "bus_remove K pd g w =
     (let ((r, g1), w1) = pcie_pci_bus_notify K BUS_NOTIFY_DEL_DEVICE True pd g
                            (kdo K (KC_pci_stop_and_remove (pd_handle pd)) w)
      in (g1, w1))"

lemma bus_remove_result:
  assumes "bus_remove K pd g w = (g', w')" "plat_ok g"
  shows "plat_ok g'" "map abs_slot (g_devs g') = on_slot pd spec_del (map abs_slot (g_devs g))" "iow w' = iow w"
proof -
  obtain r where "pcie_pci_bus_notify K BUS_NOTIFY_DEL_DEVICE True pd g
      (kdo K (KC_pci_stop_and_remove (pd_handle pd)) w) = ((r, g'), w')"
    using assms(1) by (auto simp: bus_remove_def split: prod.splits)
  from bus_notify_refines [OF this assms(2)]
  show "plat_ok g'" "map abs_slot (g_devs g') = on_slot pd spec_del (map abs_slot (g_devs g))" "iow w' = iow w"
    by (simp_all add: kframe)
qed

definition demo_platform :: amba_pci_platform where
  "demo_platform = zero_platform\<lparr>g_proc_root := 1\<rparr>"

lemma demo_platform_ok: "plat_ok demo_platform"
  using zero_platform_ok by (simp add: plat_ok_def demo_platform_def)

definition demo_entry :: pcie_dev_entry where
  "demo_entry = zero_entry\<lparr>e_pdev := Some demo_pci_dev, e_proc_dir := 1, e_proc_name := slot_proc_name 0,
     e_in_use := True, e_phy_slot := pcie_physical_slots ! 0, e_boot_bar := - 1\<rparr>"

lemma demo_entry_ok: "slot_ok 0 demo_entry"
  by (simp add: slot_ok_def demo_entry_def zero_entry_def get_pci_slot_id_cases demo_pci_dev_def)

definition connected_entry :: pcie_dev_entry where
  "connected_entry = demo_entry\<lparr>e_state := AMBA_PCI_STATE_CONNECTED\<rparr>"

definition connected_platform :: amba_pci_platform where
  "connected_platform = set_entry demo_platform 0 connected_entry"

lemma connected_platform_ok: "plat_ok connected_platform"
  unfolding connected_platform_def
  by (rule set_entry_ok [OF demo_platform_ok])
    (simp_all add: slot_ok_def connected_entry_def demo_entry_def zero_entry_def get_pci_slot_id_cases demo_pci_dev_def)

lemma connected_platform_entry: "g_devs connected_platform ! 0 = connected_entry"
  by (simp add: connected_platform_def set_entry_def demo_platform_def zero_platform_def numeral_eq_Suc)

lemma demo_create_proc:
  "fst (fst (pcie_create_proc_nodes demo_kernel 1 e i w)) = 0"
  by (simp add: pcie_create_proc_nodes_def proc_node_names_def kcall_def Let_def)

theorem bus_notify_refines_spec_witness:
  "\<exists>g' w'. pcie_pci_bus_notify demo_kernel BUS_NOTIFY_ADD_DEVICE True demo_pci_dev demo_platform demo_world = ((0, g'), w') \<and>
     map abs_slot (g_devs g') = [Card AMBA_PCI_STATE_DISCONNECTED (Some demo_pci_dev), Empty, Empty, Empty]"
proof -
  obtain r g' w' where n: "pcie_pci_bus_notify demo_kernel BUS_NOTIFY_ADD_DEVICE True demo_pci_dev demo_platform demo_world
      = ((r, g'), w')" by (metis prod.exhaust)
  have slot: "get_pci_slot_id demo_pci_dev = 0" by (simp add: get_pci_slot_id_cases demo_pci_dev_def)
  have kind: "kind_of demo_kernel demo_pci_dev w = Boot_Fn" for w
    by (simp add: kind_of_def is_virtio_dev_def is_boot_dev_def pci_resource_len_def demo_pci_dev_def)
  have nodes: "nodes_created demo_kernel demo_pci_dev demo_platform w" for w
    using demo_create_proc [of "g_devs demo_platform ! 0" 0 w]
    by (simp add: nodes_created_def slot) (simp add: demo_platform_def)
  have empty: "map abs_slot (g_devs demo_platform) = [Empty, Empty, Empty, Empty]"
    by (simp add: demo_platform_def zero_platform_def abs_slot_def zero_entry_def numeral_eq_Suc)
  from bus_notify_refines_spec [OF n demo_platform_ok] n
  show ?thesis by (simp add: Let_def on_slot_def slot kind nodes empty)
qed

subsection \<open>Ledgers of the platform\<close>

definition plat_gap :: "(kcall \<times> int \<Rightarrow> int) \<Rightarrow> (pcie_dev_entry \<Rightarrow> int) \<Rightarrow> amba_pci_platform \<Rightarrow> 'd world \<Rightarrow> int" where
  "plat_gap wt own g w = balance wt w - sum_list (map own (g_devs g))"

lemma sum_list_update_int: "i < length xs \<Longrightarrow> sum_list (map f (xs[i := x])) = sum_list (map f xs) - f (xs ! i) + (f x :: int)"
proof (induction xs arbitrary: i)
  case Nil
  then show ?case by simp
next
  case (Cons y ys)
  then show ?case by (cases i) simp_all
qed

lemma set_entry_gap:
  assumes "gap wt own e w' = gap wt own (g_devs g ! i) w + d" "i < length (g_devs g)"
  shows "plat_gap wt own (set_entry g i e) w' = plat_gap wt own g w + d"
  using assms by (simp add: gap_def plat_gap_def set_entry_def sum_list_update_int)

lemma set_entry_gap_same:
  assumes "gap wt own e w' = gap wt own (g_devs g ! i) w" "i < length (g_devs g)"
  shows "plat_gap wt own (set_entry g i e) w' = plat_gap wt own g w"
  using set_entry_gap [of wt own e w' g i w 0] assms by simp

lemma plat_gap_next_id [simp]: "plat_gap wt own (g\<lparr>g_next_dev_id := n\<rparr>) w = plat_gap wt own g w"
  by (simp add: plat_gap_def)

text \<open>What a reconnect overwrites.\<close>

definition overwritten :: "(pcie_dev_entry \<Rightarrow> int) \<Rightarrow> pcie_dev_entry \<Rightarrow> int" where
  "overwritten own e = own e - own (e\<lparr>e_pdev := None\<rparr>)"

context ledger
begin

lemma handle_add_gap:
  assumes "pcie_handle_add_locked K pd g w = (g', w')" "plat_ok g"
  shows "plat_gap wt own g' w' = plat_gap wt own g w \<or>
    (\<exists>i < AMBA_PCI_DEV_MAX. e_state (g_devs g ! i) = AMBA_PCI_STATE_BOOTING \<and> get_pci_slot_id pd = int i \<and>
       plat_gap wt own g' w' = plat_gap wt own g w + overwritten own (g_devs g ! i))"
  using assms
proof (cases rule: handle_add_cases)
  case ignored
  then show ?thesis by simp
next
  case (reconnect i e)
  have "plat_gap wt own g' w' = plat_gap wt own g w + overwritten own (g_devs g ! i)"
    unfolding reconnect(7) overwritten_def
    by (rule set_entry_gap [OF reconnect_gap [OF reconnect(6)]]) (use reconnect(2) assms(2) in \<open>simp add: plat_ok_def\<close>)
  then show ?thesis using reconnect by blast
next
  case (init_failed i r e)
  have ok: "slot_ok i (g_devs g ! i)" using plat_ok_slot assms(2) init_failed(2) by blast
  then have "e_proc_dir (g_devs g ! i) = 0" using init_failed(3) by (simp add: slot_ok_def)
  from create_proc_gap [OF init_failed(6) this] have "plat_gap wt own g' w' = plat_gap wt own g w"
    unfolding init_failed(7) by (rule set_entry_gap_same) (use init_failed(2) assms(2) in \<open>simp add: plat_ok_def\<close>)
  then show ?thesis ..
next
  case (init_ok i e w1)
  have ok: "slot_ok i (g_devs g ! i)" using plat_ok_slot assms(2) init_ok(2) by blast
  then have z: "e_proc_dir (g_devs g ! i) = 0" "e_pdev (g_devs g ! i) = None" "e_boot_mem_base (g_devs g ! i) = 0"
    using init_ok(3) by (auto simp: slot_ok_def)
  from init_ok(5) z have e: "e_pdev e = None" "e_boot_mem_base e = 0" by (cases rule: create_proc_cases; simp)+
  have "gap wt own ((initialised g pd i e)\<lparr>e_state := connected_state K pd w\<rparr>) w' = gap wt own (g_devs g ! i) w"
    using create_proc_gap [OF init_ok(5) z(1)] initialised_gap [OF e, of g pd i K w1]
      gap_board [of "(initialised g pd i e)\<lparr>e_state := connected_state K pd w\<rparr>" "initialised g pd i e"
        "kdo K (KC_pci_dev_get (pd_handle pd)) w1"]
    unfolding init_ok(6) by simp
  then have "plat_gap wt own (set_entry g i ((initialised g pd i e)\<lparr>e_state := connected_state K pd w\<rparr>)) w'
      = plat_gap wt own g w"
    by (rule set_entry_gap_same) (use init_ok(2) assms(2) in \<open>simp add: plat_ok_def\<close>)
  then show ?thesis unfolding init_ok(7) by simp
qed

lemma handle_del_gap:
  assumes "pcie_handle_del_locked K pd g w = (g', w')" "plat_ok g"
  shows "plat_gap wt own g' w' = plat_gap wt own g w"
  using assms(1)
proof (cases rule: handle_del_cases)
  case ignored
  then show ?thesis by simp
next
  case (detached i e)
  from detach_gap [OF detached(5)] show ?thesis
    unfolding detached(6) by (rule set_entry_gap_same) (use detached(2) assms(2) in \<open>simp add: plat_ok_def\<close>)
next
  case (removed i e)
  from release_gap [OF removed(5) plat_ok_slot [OF assms(2) removed(2)]] show ?thesis
    unfolding removed(6) by (rule set_entry_gap_same) (use removed(2) assms(2) in \<open>simp add: plat_ok_def\<close>)
qed

end

lemma overwritten_eval:
  "overwritten map_own e = 0" "overwritten proc_own e = 0" "0 \<le> overwritten (ref_own h) e"
  "e_pdev e = None \<Longrightarrow> overwritten (ref_own h) e = 0"
  by (simp_all add: overwritten_def map_own_def proc_own_def ref_own_def split: option.splits)

subsection \<open>The initial scan\<close>

text \<open>
  \<open>pci_get_device\<close> as the kernel documents it: it returns only devices with the wanted vendor and
  device number, walks the device list forward (so some rank falls from one result to the next),
  and changes nothing of the driver.
\<close>

definition device_walk :: "'d get_device \<Rightarrow> (pci_dev option \<Rightarrow> nat) \<Rightarrow> bool" where
  "device_walk next_dev rank \<longleftrightarrow>
     (\<forall>v d prev w pd w'. next_dev v d prev w = (pd, w') \<longrightarrow>
        w_trc w' = w_trc w \<and> w_io w' = w_io w \<and>
        (\<forall>p. pd = Some p \<longrightarrow> pd_vendor p = v \<and> pd_device p = d \<and> rank pd < rank prev))"

text \<open>What the scan keeps: the invariant, and that no slot it fills is taken for a running card.\<close>

definition only_boot_cards :: "amba_pci_platform \<Rightarrow> bool" where
  "only_boot_cards g \<longleftrightarrow> (\<forall>e \<in> set (g_devs g). e_state e = AMBA_PCI_STATE_DISCONNECTED)"

lemma only_boot_cards_set_entry:
  "only_boot_cards g \<Longrightarrow> e_state e = AMBA_PCI_STATE_DISCONNECTED \<Longrightarrow> only_boot_cards (set_entry g i e)"
  unfolding only_boot_cards_def set_entry_def
  by (auto dest!: set_update_subset_insert [THEN subsetD])

lemma handle_add_boot_only:
  assumes "pcie_handle_add_locked K pd g w = (g', w')" "plat_ok g" "only_boot_cards g"
    "pd_device pd = AMBA_PCI_TARGET_DEVICE_ID"
  shows "only_boot_cards g'"
  using assms(1,2)
proof (cases rule: handle_add_cases)
  case ignored
  then show ?thesis using assms(3) by simp
next
  case (reconnect i e)
  then show ?thesis using assms(4) by (simp add: is_virtio_dev_def)
next
  case (init_failed i r e)
  have "slot_ok i e \<and> \<not> e_in_use e"
    using create_proc_failed_ok [OF init_failed(6,5) plat_ok_slot [OF assms(2) init_failed(2)] init_failed(3)] .
  then have "e_state e = AMBA_PCI_STATE_DISCONNECTED" by (simp add: slot_ok_def)
  then show ?thesis using init_failed(7) only_boot_cards_set_entry assms(3) by simp
next
  case (init_ok i e w1)
  have "\<not> is_virtio_dev K pd w" using assms(4) by (simp add: is_virtio_dev_def)
  then have "e_state ((initialised g pd i e)\<lparr>e_state := connected_state K pd w\<rparr>) = AMBA_PCI_STATE_DISCONNECTED"
    by (simp add: connected_state_def)
  from only_boot_cards_set_entry [OF assms(3) this, of i] show ?thesis
    unfolding init_ok(7) by (simp add: only_boot_cards_def)
qed

lemma scan_slot_ok:
  assumes walk: "device_walk next_dev rank" and target: "ps_target_device slot = AMBA_PCI_TARGET_DEVICE_ID"
  shows "plat_ok g \<Longrightarrow> only_boot_cards g \<Longrightarrow>
     \<exists>g' w'. scan_slot K next_dev slot prev g w = Some (g', w') \<and> plat_ok g' \<and> only_boot_cards g' \<and> iow w' = iow w"
proof (induction "rank prev" arbitrary: prev g w rule: less_induct)
  case less
  obtain pd w1 where nx: "next_dev (ps_target_vendor slot) (ps_target_device slot) prev w = (pd, w1)"
    by (metis prod.exhaust)
  with walk have w1: "w_trc w1 = w_trc w"
    and hit: "\<And>p. pd = Some p \<Longrightarrow> pd_device p = AMBA_PCI_TARGET_DEVICE_ID \<and> rank (Some p) < rank prev"
    unfolding device_walk_def target by blast+
  have iow1: "iow w1 = iow w" using w1 by (simp add: iow_def)
  show ?case
  proof (cases pd)
    case None
    with nx less.prems iow1 show ?thesis by (subst scan_slot.simps) (simp add: kframe)
  next
    case (Some p)
    note h = hit [OF Some]
    show ?thesis
    proof (cases "pd_bus p = ps_bus slot")
      case False
      from less.hyps [OF conjunct2 [OF h] less.prems, of w1] nx Some False iow1
      show ?thesis by (subst scan_slot.simps) simp
    next
      case True
      obtain g1 w2 where a: "pcie_handle_add_locked K p g w1 = (g1, w2)" by (metis prod.exhaust)
      have g1: "plat_ok g1" "only_boot_cards g1"
        using handle_add_ok [OF a less.prems(1)] handle_add_boot_only [OF a less.prems conjunct1 [OF h]] by blast+
      have "iow w2 = iow w1" using handle_add_frame [of K p g w1] a by simp
      with less.hyps [OF conjunct2 [OF h] g1, of w2] nx Some True iow1 a
      show ?thesis by (subst scan_slot.simps) simp
    qed
  qed
qed

lemma enumerate_result:
  assumes "device_walk next_dev rank" and "plat_ok g" and "only_boot_cards g"
  shows "\<exists>g' w'. pcie_enumerate_existed_devs K next_dev g w = Some (g', w') \<and> plat_ok g' \<and>
    only_boot_cards g' \<and> iow w' = iow w"
proof -
  have slots: "\<exists>g' w'. scan_slots K next_dev ss g w = Some (g', w') \<and> plat_ok g' \<and> only_boot_cards g' \<and> iow w' = iow w"
    if "\<forall>s \<in> set ss. ps_target_device s = AMBA_PCI_TARGET_DEVICE_ID" "plat_ok g" "only_boot_cards g" for ss g and w :: "'a world"
    using that
  proof (induction ss arbitrary: g w)
    case Nil
    then show ?case by simp
  next
    case (Cons s ss)
    obtain g1 w1 where s: "scan_slot K next_dev s None g w = Some (g1, w1)" "plat_ok g1" "only_boot_cards g1" "iow w1 = iow w"
      using scan_slot_ok [OF assms(1) _ Cons.prems(2,3), of s K None w] Cons.prems(1) by auto
    from Cons.IH [OF _ s(2,3), of w1] Cons.prems(1) s show ?case by auto
  qed
  have "\<forall>s \<in> set pcie_physical_slots. ps_target_device s = AMBA_PCI_TARGET_DEVICE_ID"
    by (simp add: pcie_physical_slots_def)
  from slots [OF this assms(2,3), of "kdo K KC_mutex_lock w"] show ?thesis
    by (auto simp: pcie_enumerate_existed_devs_def kframe)
qed

text \<open>C22: The scan at module load ends as soon as the device list is finite, keeps every slot well
  formed, and fills slots only with cards waiting to be booted: it asks for the boot function's
  device number alone, so a card that is already running is not taken over.\<close>

theorem enumerate_boot_cards_only:
  assumes "device_walk next_dev rank" and "plat_ok g" and "only_boot_cards g"
  shows "\<exists>g' w'. pcie_enumerate_existed_devs K next_dev g w = Some (g', w') \<and> plat_ok g' \<and>
    only_boot_cards g' \<and> iow w' = iow w"
  using assms by (rule enumerate_result)

definition demo_next_dev :: "nat get_device" where
  "demo_next_dev v d prev w =
     (if prev = None \<and> v = pd_vendor demo_pci_dev \<and> d = pd_device demo_pci_dev then Some demo_pci_dev else None, w)"

theorem enumerate_boot_cards_only_witness:
  "\<exists>g' w'. pcie_enumerate_existed_devs demo_kernel demo_next_dev demo_platform demo_world = Some (g', w') \<and>
     plat_ok g' \<and> only_boot_cards g'"
proof -
  have walk: "device_walk demo_next_dev (\<lambda>p. if p = None then 1 else 0)"
    by (auto simp: device_walk_def demo_next_dev_def)
  have boot: "only_boot_cards demo_platform"
    by (simp add: only_boot_cards_def demo_platform_def zero_platform_def zero_entry_def)
  from enumerate_boot_cards_only [OF walk demo_platform_ok boot, of demo_kernel demo_world] show ?thesis by blast
qed

end
