(* ===== verification/Ring_Trace.thy ===== *)
theory Ring_Trace
  imports Ring_Xfer
begin

section \<open>The trace of a transfer\<close>

text \<open>
  What the operations of the ring add to the trace of the world, reads included: the stretches
  that wait, the five words of a descriptor, the block copy and the bump of \<open>used\<close>.
\<close>

subsection \<open>Stretches of a trace\<close>

text \<open>From one world to another only events of a kind were added to the trace.\<close>

definition did :: "(event \<Rightarrow> bool) \<Rightarrow> 'd world \<Rightarrow> 'd world \<Rightarrow> bool" where
  "did P w w' \<longleftrightarrow> (\<exists>evs. w_trc w' = w_trc w @ evs \<and> (\<forall>e \<in> set evs. P e))"

lemma did_same: "w_trc w' = w_trc w \<Longrightarrow> did P w w'"
  by (simp add: did_def)

lemma did_refl [simp, intro]: "did P w w"
  by (simp add: did_same)

lemma did_trans [trans]: "did P w w1 \<Longrightarrow> did P w1 w2 \<Longrightarrow> did P w w2"
  by (force simp: did_def)

lemma did_mono: "did P w w' \<Longrightarrow> (\<And>e. P e \<Longrightarrow> Q e) \<Longrightarrow> did Q w w'"
  by (force simp: did_def)

lemma did_snoc: "did P u w \<Longrightarrow> w_trc w' = w_trc w @ [e] \<Longrightarrow> P e \<Longrightarrow> did P u w'"
  by (force simp: did_def)

lemma did_kcall [simp]: "did P u w \<Longrightarrow> (\<And>r. P (Call c r)) \<Longrightarrow> did P u (snd (kcall K c w))"
  by (erule did_snoc [where e = "Call c (fst (kcall K c w))"]) (simp_all add: kcall_def split: prod.splits)

lemma did_kdo [simp]: "did P u w \<Longrightarrow> (\<And>r. P (Call c r)) \<Longrightarrow> did P u (kdo K c w)"
  by (simp add: kdo_def)

lemma did_kcallD: "kcall K c w = (r, w') \<Longrightarrow> did P u w \<Longrightarrow> (\<And>r. P (Call c r)) \<Longrightarrow> did P u w'"
  using did_kcall [of P u w c K] by simp

definition desc_writes :: "u64 \<Rightarrow> u32 \<Rightarrow> u32 \<Rightarrow> u64 \<Rightarrow> u32 \<Rightarrow> event list" where
  "desc_writes d cmd sz addr blk =
     [Writel d cmd, Writel (d + 4) sz, Writel (d + 8) (ucast (addr AND 0xffffffff)),
      Writel (d + 12) (ucast (drop_bit 32 addr)), Writel (d + 16) blk]"

text \<open>What a wait does: it reads its register, sleeps and yields.\<close>

fun polls :: "u64 \<Rightarrow> event \<Rightarrow> bool" where
  "polls a (Readl b v) = (b = a)"
| "polls a (Call c r) = True"
| "polls a (Writel b v) = False"
| "polls a (MemcpyToio b bs) = False"

lemma polls_no_write: "polls a e \<Longrightarrow> \<not> is_iow e"
  by (cases e) simp_all

lemma write_desc_trc: "w_trc (write_desc K d cmd sz addr blk w) = w_trc w @ desc_writes d cmd sz addr blk"
  by (simp add: write_desc_def desc_writes_def pcie_ring_w32_def pcie_ring_ptr_def writel_def Let_def)

lemma memcpy_trc: "w_trc (memcpy_toio K a bs w) = w_trc w @ [MemcpyToio a bs]"
  by (simp add: memcpy_toio_def Let_def)

lemma bump_trc: "\<exists>u. w_trc (bump_used K base w) = w_trc w @ [Readl (base + 12) u, Writel (base + 12) (u + 1)]"
  by (simp add: bump_used_def case_prod_beta Let_def pcie_ring_w32_def pcie_ring_ptr_def writel_def r32_trc)

lemma kdo_trc: "w_trc (kdo K c w) = w_trc w @ [Call c (fst (kcall K c w))]"
  by (simp add: kdo_def kcall_def split: prod.splits)

lemma wait_u32_loop_trc:
  assumes "wait_u32_loop K base off want equal deadline w = Some (r, w')"
  shows "\<exists>t. w_trc w' = w_trc w @ t \<and> (\<forall>e \<in> set t. polls (base + off) e) \<and>
    (r = 0 \<longrightarrow> (\<exists>t0 v. t = t0 @ [Readl (base + off) v] \<and> wait_done want equal v))"
proof -
  let ?P = "\<lambda>K base off want equal deadline w (r, w'). \<exists>t. w_trc w' = w_trc w @ t \<and> (\<forall>e \<in> set t. polls (base + off) e) \<and>
    (r = 0 \<longrightarrow> (\<exists>t0 v. t = t0 @ [Readl (base + off) v] \<and> wait_done want equal v))"
  have "?P K base off want equal deadline w (r, w')"
  proof (rule wait_u32_loop.raw_induct [where P = ?P, OF _ assms])
    fix f K base off want equal deadline and w :: "'a world" and res
    assume IH: "\<And>K base off want equal deadline w y.
        f K base off want equal deadline w = Some y \<Longrightarrow> ?P K base off want equal deadline w y"
      and eq: "(if time_before (jiffies K w) deadline then
        (let val = fst (pcie_ring_r32 K base off w); w1 = snd (pcie_ring_r32 K base off w) in
         if wait_done want equal val then Some (0, w1)
         else f K base off want equal deadline
                (kdo K KC_cond_resched (kdo K (KC_usleep_range 1000 2000) w1)))
      else Some (- ETIMEDOUT, w)) = Some res"
    let ?w1 = "snd (pcie_ring_r32 K base off w)"
    let ?v = "fst (pcie_ring_r32 K base off w)"
    let ?w2 = "kdo K KC_cond_resched (kdo K (KC_usleep_range 1000 2000) ?w1)"
    consider "res = (- ETIMEDOUT, w)" | "res = (0, ?w1)" "wait_done want equal ?v"
      | "f K base off want equal deadline ?w2 = Some res"
      using eq unfolding Let_def by (metis option.inject)
    then show "?P K base off want equal deadline w res"
    proof cases
      case 3
      obtain r2 w3 where res: "res = (r2, w3)" by (metis prod.exhaust)
      with IH [OF 3] obtain t where t: "w_trc w3 = w_trc ?w2 @ t" "\<forall>e \<in> set t. polls (base + off) e"
        "r2 = 0 \<longrightarrow> (\<exists>t0 v. t = t0 @ [Readl (base + off) v] \<and> wait_done want equal v)" by auto
      define t1 where "t1 = [Readl (base + off) ?v, Call (KC_usleep_range 1000 2000) (fst (kcall K (KC_usleep_range 1000 2000) ?w1)),
        Call KC_cond_resched (fst (kcall K KC_cond_resched (kdo K (KC_usleep_range 1000 2000) ?w1)))]"
      have "w_trc ?w2 = w_trc w @ t1" "\<forall>e \<in> set t1. polls (base + off) e" by (simp_all add: t1_def kdo_trc r32_trc)
      with t have "w_trc w3 = w_trc w @ t1 @ t \<and> (\<forall>e \<in> set (t1 @ t). polls (base + off) e) \<and>
        (r2 = 0 \<longrightarrow> (\<exists>t0 v. t1 @ t = t0 @ [Readl (base + off) v] \<and> wait_done want equal v))"
        by (auto intro: exI [of _ "t1 @ _"])
      with res show ?thesis by blast
    qed (auto simp: r32_trc)
  qed
  then show ?thesis by simp
qed

lemma xfer_poll_loop_trc:
  assumes "xfer_poll_loop K base deadline w = Some (r, w')"
  shows "\<exists>t. w_trc w' = w_trc w @ t \<and> (\<forall>e \<in> set t. \<not> is_iow e)"
proof -
  let ?P = "\<lambda>K base deadline w (r, w'). \<exists>t. w_trc w' = w_trc w @ t \<and> (\<forall>e \<in> set t. \<not> is_iow e)"
  have "?P K base deadline w (r, w')"
  proof (rule xfer_poll_loop.raw_induct [where P = ?P, OF _ assms])
    fix f K base deadline and w :: "'a world" and res
    assume IH: "\<And>K base deadline w y. f K base deadline w = Some y \<Longrightarrow> ?P K base deadline w y"
      and eq: "(if time_before (jiffies K w) deadline then
        (let idle = fst (xfer_poll_read K base w); w1 = snd (xfer_poll_read K base w) in
         if idle then Some (0, w1)
         else f K base deadline
                (kdo K KC_cond_resched (kdo K (KC_usleep_range 1000 2000) w1)))
      else Some (- ETIMEDOUT, w)) = Some res"
    let ?w1 = "snd (xfer_poll_read K base w)"
    let ?w2 = "kdo K KC_cond_resched (kdo K (KC_usleep_range 1000 2000) ?w1)"
    obtain t1 where t1: "w_trc ?w1 = w_trc w @ t1" "\<forall>e \<in> set t1. \<not> is_iow e"
      by (simp add: xfer_poll_read_def case_prod_beta r32_trc)
    obtain t2 where t2: "w_trc ?w2 = w_trc w @ t2" "\<forall>e \<in> set t2. \<not> is_iow e"
      using t1 by (simp add: kdo_trc)
    consider "res = (- ETIMEDOUT, w)" | "res = (0, ?w1)" | "f K base deadline ?w2 = Some res"
      using eq unfolding Let_def by (metis option.inject)
    then show "?P K base deadline w res"
    proof cases
      case 3
      obtain r2 w3 where res: "res = (r2, w3)" by (metis prod.exhaust)
      with IH [OF 3] obtain t where "w_trc w3 = w_trc ?w2 @ t" "\<forall>e \<in> set t. \<not> is_iow e" by auto
      with t2 have "w_trc w3 = w_trc w @ t2 @ t \<and> (\<forall>e \<in> set (t2 @ t). \<not> is_iow e)" by auto
      with res show ?thesis by blast
    qed (use t1 in auto)
  qed
  then show ?thesis by simp
qed

lemma wait_u32_trc:
  assumes "pcie_ring_wait_u32 K base off want equal ms w = Some (r, w')"
  obtains t where "w_trc w' = w_trc w @ t" "\<forall>e \<in> set t. polls (base + off) e"
  using wait_u32_loop_trc assms unfolding pcie_ring_wait_u32_def by blast

lemma wait_u32_quiet: "pcie_ring_wait_u32 K base off want equal ms w = Some (r, w') \<Longrightarrow> did (\<lambda>e. \<not> is_iow e) w w'"
  by (erule wait_u32_trc) (auto simp: did_def dest: polls_no_write)

lemma wait_ready_quiet: "pcie_ring_wait_ep_ready K base w = Some (r, w') \<Longrightarrow> did (\<lambda>e. \<not> is_iow e) w w'"
  by (auto simp: pcie_ring_wait_ep_ready_def bind_eq_Some_conv dest: wait_u32_quiet intro: did_trans split: if_splits)

lemma xfer_poll_quiet: "pcie_ring_xfer_poll K base ms w = Some (r, w') \<Longrightarrow> did (\<lambda>e. \<not> is_iow e) w w'"
  using xfer_poll_loop_trc unfolding pcie_ring_xfer_poll_def did_def by blast

lemma kcall_trc: "w_trc (snd (kcall K c w)) = w_trc w @ [Call c (fst (kcall K c w))]"
  by (simp add: kcall_def split: prod.splits)

subsection \<open>The words of the header and of the descriptors\<close>

definition ring_word :: "u64 \<Rightarrow> nat \<Rightarrow> iomem \<Rightarrow> u32" where
  "ring_word base off m = from_le (read_bytes m (base + of_nat off) 4)"

lemma ring_word_before:
  "off + 4 \<le> j \<Longrightarrow> j + length bs \<le> 2 ^ 64 \<Longrightarrow>
     ring_word base off (write_bytes m (base + of_nat j) bs) = ring_word base off m"
  unfolding ring_word_def by (subst io.rd_wr_before) simp_all

lemma ring_word_after:
  "j + length bs \<le> off \<Longrightarrow> off + 4 \<le> 2 ^ 64 \<Longrightarrow>
     ring_word base off (write_bytes m (base + of_nat j) bs) = ring_word base off m"
  unfolding ring_word_def by (subst io.rd_wr_after) simp_all

lemma ring_word_same: "ring_word base off (write_bytes m (base + of_nat off) (to_le 4 v)) = v"
  using io.rd_wr_same [of "to_le 4 v" m "base + of_nat off"] by (simp add: ring_word_def)

text \<open>The number of descriptors the header block has room for, as an endpoint announces it.\<close>

fun few_descs :: "u64 \<Rightarrow> event \<Rightarrow> bool" where
  "few_descs base (Readl a v) = (a = base + RH_NUM_OFF \<longrightarrow> v \<le> 21)"
| "few_descs base (Writel a v) = True"
| "few_descs base (MemcpyToio a bs) = True"
| "few_descs base (Call c r) = True"

end
