(* ===== verification/Ring_Reader.thy ===== *)
theory Ring_Reader
  imports Ring_Trace
begin

section \<open>The endpoint's reading of the ring\<close>

text \<open>
  What an endpoint that follows the protocol of the ring finds in its memory each time \<open>used\<close> is
  bumped. Everything is looked up by address in the memory the driver has written so far: the
  descriptor at the endpoint's own position, the five words in it, and for a DATA command as many
  bytes as its size word says from the block its block word names. A transfer opens with the reads
  of \<open>num\<close>, \<open>max_blk\<close> and \<open>avail\<close>; the endpoint has then taken out \<open>avail - num\<close> messages, which
  is its position. A message that does not follow the protocol is \<open>MBad\<close>: \<open>used\<close> raised by
  another amount than 1, a block outside the ring, a size above a block, or a command with a block.
\<close>

datatype ring_msg = MData u64 "u8 list" | MCmd u32 u32 u64 | MBad

definition join64 :: "u32 \<Rightarrow> u32 \<Rightarrow> u64" where
  "join64 lo hi = ucast lo OR push_bit 32 (ucast hi)"

record ep_view =
  ev_num :: u32
  ev_max :: u32
  ev_opening :: bool
  ev_pos :: u32
  ev_used :: u32
  ev_mem :: iomem

definition ep_start :: "iomem \<Rightarrow> ep_view" where
  "ep_start m = \<lparr>ev_num = 0, ev_max = 0, ev_opening = False, ev_pos = 0, ev_used = 0, ev_mem = m\<rparr>"

definition take_msg :: "u64 \<Rightarrow> ep_view \<Rightarrow> ring_msg" where
  "take_msg base V =
     (let d = 80 + 20 * unat (ev_pos V mod ev_num V);
          cmd = ring_word base d (ev_mem V); sz = ring_word base (d + 4) (ev_mem V);
          addr = join64 (ring_word base (d + 8) (ev_mem V)) (ring_word base (d + 12) (ev_mem V));
          blk = ring_word base (d + 16) (ev_mem V)
      in if cmd = RING_CMD_DATA
         then if blk < ev_max V \<and> sz \<le> 512
              then MData addr (read_bytes (ev_mem V) (base + of_nat ((unat blk + 1) * 512)) (unat sz))
              else MBad
         else if blk = 0 then MCmd cmd sz addr else MBad)"

fun msgs_at :: "u64 \<Rightarrow> event \<Rightarrow> ep_view \<Rightarrow> ring_msg list" where
  "msgs_at base (Writel a v) V =
     (if a = base + RH_USED_OFF then [if v = ev_used V + 1 then take_msg base V else MBad] else [])"
| "msgs_at base (MemcpyToio a bs) V = []"
| "msgs_at base (Readl a v) V = []"
| "msgs_at base (Call c r) V = []"

fun see :: "u64 \<Rightarrow> event \<Rightarrow> ep_view \<Rightarrow> ep_view" where
  "see base (Readl a v) V =
     (if a = base + RH_NUM_OFF then V\<lparr>ev_num := v\<rparr>
      else if a = base + RH_MAX_BLK_OFF then V\<lparr>ev_max := v, ev_opening := True\<rparr>
      else if a = base + RH_AVAIL_OFF \<and> ev_opening V then V\<lparr>ev_pos := v - ev_num V, ev_opening := False\<rparr>
      else if a = base + RH_USED_OFF then V\<lparr>ev_used := v\<rparr>
      else V)"
| "see base (Writel a v) V =
     (let m = write_bytes (ev_mem V) a (to_le 4 v)
      in if a = base + RH_USED_OFF then V\<lparr>ev_mem := m, ev_pos := ev_pos V + 1\<rparr> else V\<lparr>ev_mem := m\<rparr>)"
| "see base (MemcpyToio a bs) V = V\<lparr>ev_mem := write_bytes (ev_mem V) a bs\<rparr>"
| "see base (Call c r) V = V"

fun ep_msgs :: "u64 \<Rightarrow> event list \<Rightarrow> ep_view \<Rightarrow> ring_msg list" where
  "ep_msgs base [] V = []"
| "ep_msgs base (e # es) V = msgs_at base e V @ ep_msgs base es (see base e V)"

definition ring_msgs :: "u64 \<Rightarrow> event list \<Rightarrow> iomem \<Rightarrow> ring_msg list" where
  "ring_msgs base es m = ep_msgs base es (ep_start m)"

text \<open>What the messages do: data goes to the endpoint's memory, commands are obeyed in order.\<close>

fun ep_apply :: "ring_msg list \<Rightarrow> iomem \<Rightarrow> iomem" where
  "ep_apply [] m = m"
| "ep_apply (MData a bs # ms) m = ep_apply ms (write_bytes m a bs)"
| "ep_apply (MCmd c sz a # ms) m = ep_apply ms m"
| "ep_apply (MBad # ms) m = ep_apply ms m"

text \<open>The messages an image must arrive as: blocks of 512 bytes at increasing addresses, the last one
  shorter.\<close>

function image_msgs :: "u64 \<Rightarrow> u8 list \<Rightarrow> ring_msg list" where
  "image_msgs a bs = (if bs = [] then [] else MData a (take 512 bs) # image_msgs (a + 512) (drop 512 bs))"
  by pat_completeness auto
termination by (relation "measure (\<lambda>(a, bs). length bs)") auto

declare image_msgs.simps [simp del]

lemma image_msgs_Nil [simp]: "image_msgs a [] = []"
  by (simp add: image_msgs.simps)

lemma image_msgs_chunk:
  "xs \<noteq> [] \<Longrightarrow> length xs = 512 \<or> length xs < 512 \<and> ys = [] \<Longrightarrow>
     image_msgs a (xs @ ys) = MData a xs # image_msgs (a + of_nat (length xs)) ys"
  by (subst image_msgs.simps) auto

lemma ep_apply_append: "ep_apply (ms @ ms') m = ep_apply ms' (ep_apply ms m)"
  by (induction ms m rule: ep_apply.induct) auto

lemma join64_split: "join64 (ucast (addr AND 0xffffffff)) (ucast (drop_bit 32 addr)) = addr"
proof (rule bit_eqI)
  fix n assume n: "possible_bit TYPE(64 word) n"
  have mask: "(0xffffffff :: u64) = mask 32" by (simp add: mask_eq_exp_minus_1)
  show "bit (join64 (ucast (addr AND 0xffffffff)) (ucast (drop_bit 32 addr))) n = bit addr n"
    using n unfolding join64_def mask by (auto simp: bit_simps)
qed

lemma write_bytes_append:
  "write_bytes (write_bytes m a xs) (a + of_nat (length xs)) ys = write_bytes m a (xs @ ys)"
proof (induction xs arbitrary: m a)
  case (Cons x xs)
  have "a + of_nat (length (x # xs)) = (a + 1) + of_nat (length xs)" by simp
  then show ?case by (simp only: write_bytes.simps append_Cons Cons)
qed simp

lemma image_msgs_apply: "ep_apply (image_msgs a bs) m = write_bytes m a bs"
proof (induction a bs arbitrary: m rule: image_msgs.induct)
  case (1 a bs)
  show ?case
  proof (cases "length bs \<le> 512")
    case True
    then show ?thesis by (subst image_msgs.simps) simp
  next
    case False
    then have "bs \<noteq> []" "length (take 512 bs) = 512" by auto
    with 1 show ?thesis
      using write_bytes_append [of m a "take 512 bs" "drop 512 bs"]
      by (subst image_msgs.simps) simp
  qed
qed

subsection \<open>Stretches of a trace and the messages in them\<close>

definition hands :: "(ep_view \<Rightarrow> bool) \<Rightarrow> u64 \<Rightarrow> event list \<Rightarrow> ring_msg list \<Rightarrow> (ep_view \<Rightarrow> bool) \<Rightarrow> bool" where
  "hands P base es ms Q \<longleftrightarrow> (\<forall>V. P V \<longrightarrow> ep_msgs base es V = ms \<and> Q (fold (see base) es V))"

lemma ep_msgs_append: "ep_msgs base (es @ es') V = ep_msgs base es V @ ep_msgs base es' (fold (see base) es V)"
  by (induction es arbitrary: V) auto

lemma hands_append: "hands P base es ms Q \<Longrightarrow> hands Q base es' ms' R \<Longrightarrow> hands P base (es @ es') (ms @ ms') R"
  by (simp add: hands_def ep_msgs_append)

lemma hands_weaken: "hands P base es ms Q \<Longrightarrow> (\<And>V. P' V \<Longrightarrow> P V) \<Longrightarrow> (\<And>V. Q V \<Longrightarrow> Q' V) \<Longrightarrow> hands P' base es ms Q'"
  by (simp add: hands_def)

lemma hands_Nil: "hands P base [] [] P"
  by (simp add: hands_def)

abbreviation any_view :: "ep_view \<Rightarrow> bool" where
  "any_view \<equiv> \<lambda>V. True"

lemma hands_msgs: "hands any_view base es ms Q \<Longrightarrow> ring_msgs base es m = ms"
  by (simp add: hands_def ring_msgs_def)

text \<open>Without a write nothing is handed over.\<close>

lemma msgs_at_no_write: "\<not> is_iow e \<Longrightarrow> msgs_at base e V = []"
  by (cases e) simp_all

lemma hands_no_write: "\<forall>e \<in> set es. \<not> is_iow e \<Longrightarrow> hands P base es [] any_view"
proof -
  assume "\<forall>e \<in> set es. \<not> is_iow e"
  then have "ep_msgs base es V = []" for V by (induction es arbitrary: V) (simp_all add: msgs_at_no_write)
  then show ?thesis by (simp add: hands_def)
qed

text \<open>A view in step with the context of a transfer.\<close>

definition tracks :: "pcie_ring_ctx \<Rightarrow> ep_view \<Rightarrow> bool" where
  "tracks ctx V \<longleftrightarrow> ev_num V = rc_num ctx \<and> ev_max V = rc_max_blk ctx \<and> \<not> ev_opening V \<and> ev_pos V = rc_cur_avail ctx"

lemma hands_polls: "\<forall>e \<in> set es. polls (base + RH_AVAIL_OFF) e \<Longrightarrow> hands (tracks ctx) base es [] (tracks ctx)"
proof -
  assume p: "\<forall>e \<in> set es. polls (base + RH_AVAIL_OFF) e"
  have see: "see base e V = V" if "polls (base + RH_AVAIL_OFF) e" "tracks ctx V" for e V
    using that by (cases e) (simp_all add: tracks_def)
  have "ep_msgs base es V = [] \<and> tracks ctx (fold (see base) es V)" if "tracks ctx V" for V
    using p that by (induction es arbitrary: V) (auto simp: see msgs_at_no_write dest: polls_no_write)
  then show ?thesis by (simp add: hands_def)
qed

lemma hands_open:
  "hands P base [Readl (base + 16) num, Readl (base + 20) mb, Readl (base + 8) av]
     [] (tracks (ctx\<lparr>rc_num := num, rc_max_blk := mb, rc_cur_avail := av - num\<rparr>))"
  by (simp add: hands_def tracks_def)

subsection \<open>A message and its hand-over\<close>

lemma see_write:
  "a \<noteq> base + 12 \<Longrightarrow> see base (Writel a v) V = V\<lparr>ev_mem := write_bytes (ev_mem V) a (to_le 4 v)\<rparr>"
  "a \<noteq> base + 12 \<Longrightarrow> msgs_at base (Writel a v) V = []"
  by simp_all

text \<open>The five words of descriptor \<open>s\<close> in memory.\<close>

definition desc_mem :: "u64 \<Rightarrow> nat \<Rightarrow> u32 \<Rightarrow> u32 \<Rightarrow> u64 \<Rightarrow> u32 \<Rightarrow> iomem \<Rightarrow> bool" where
  "desc_mem base s cmd sz addr blk m \<longleftrightarrow>
     ring_word base (80 + 20 * s) m = cmd \<and> ring_word base (80 + 20 * s + 4) m = sz \<and>
     ring_word base (80 + 20 * s + 8) m = ucast (addr AND 0xffffffff) \<and>
     ring_word base (80 + 20 * s + 12) m = ucast (drop_bit 32 addr) \<and> ring_word base (80 + 20 * s + 16) m = blk"

lemma header_offset_neq:
  fixes base :: u64
  shows "12 < j \<Longrightarrow> j < 2 ^ 64 \<Longrightarrow> base + of_nat j \<noteq> base + 12"
proof
  assume j: "12 < j" "j < 2 ^ 64" and "base + of_nat j = base + (12 :: u64)"
  then have "(of_nat j :: u64) = of_nat 12" by simp
  with j show False by (subst (asm) of_nat_u64_inject) simp_all
qed

lemma desc_writes_seen:
  fixes base :: u64
  assumes "s < 2 ^ 32" "d = base + of_nat (80 + 20 * s)"
  shows "ep_msgs base (desc_writes d cmd sz addr blk) V = [] \<and>
    (\<exists>m. fold (see base) (desc_writes d cmd sz addr blk) V = V\<lparr>ev_mem := m\<rparr> \<and> desc_mem base s cmd sz addr blk m)"
proof -
  define q where "q = 80 + 20 * s"
  have at: "desc_writes d cmd sz addr blk =
      [Writel (base + of_nat (q + 0)) cmd, Writel (base + of_nat (q + 4)) sz,
       Writel (base + of_nat (q + 8)) (ucast (addr AND 0xffffffff)),
       Writel (base + of_nat (q + 12)) (ucast (drop_bit 32 addr)), Writel (base + of_nat (q + 16)) blk]"
    by (simp add: desc_writes_def assms(2) q_def)
  have small: "q + 16 < 2 ^ 63" using assms(1) by (simp add: q_def)
  have neq: "base + of_nat (q + k) \<noteq> base + 12" if "k \<le> 16" for k
    by (rule header_offset_neq) (use small that in \<open>simp_all add: q_def\<close>)
  have n: "base + of_nat (q + 0) \<noteq> base + 12" "base + of_nat (q + 4) \<noteq> base + 12" "base + of_nat (q + 8) \<noteq> base + 12"
    "base + of_nat (q + 12) \<noteq> base + 12" "base + of_nat (q + 16) \<noteq> base + 12"
    by (rule neq, simp)+
  let ?wr = "\<lambda>k v m. write_bytes m (base + of_nat (q + k)) (to_le 4 (v :: u32))"
  let ?m = "?wr 16 blk (?wr 12 (ucast (drop_bit 32 addr)) (?wr 8 (ucast (addr AND 0xffffffff)) (?wr 4 sz (?wr 0 cmd (ev_mem V)))))"
  have word: "ring_word base (q + k) (?wr k v m) = v" for k v m by (rule ring_word_same)
  have keep: "ring_word base (q + k) (?wr j v m) = ring_word base (q + k) m" if "k + 4 \<le> j" "j \<le> 16" for k j v m
    by (rule ring_word_before) (use small that in simp_all)
  have first: "ring_word base q (?wr j v m) = ring_word base q m" if "4 \<le> j" "j \<le> 16" for j v m
    using keep [of 0 j] that by simp
  have "ring_word base (q + 0) ?m = cmd" "ring_word base (q + 4) ?m = sz"
    "ring_word base (q + 8) ?m = ucast (addr AND 0xffffffff)" "ring_word base (q + 12) ?m = ucast (drop_bit 32 addr)"
    "ring_word base (q + 16) ?m = blk"
    by (simp_all add: word keep first ring_word_same del: of_nat_add)
  then have "desc_mem base s cmd sz addr blk ?m" by (simp add: desc_mem_def q_def)
  moreover have "ep_msgs base (desc_writes d cmd sz addr blk) V = []"
    "fold (see base) (desc_writes d cmd sz addr blk) V = V\<lparr>ev_mem := ?m\<rparr>"
    unfolding at using n by (simp_all only: ep_msgs.simps fold.simps see_write append.simps comp_def id_def simp_thms) (simp del: of_nat_add)
  ultimately show ?thesis by blast
qed

text \<open>The endpoint finds what was put into the descriptor of its position, and in the block.\<close>

lemma take_cmd:
  assumes "desc_mem base s cmd sz addr 0 (ev_mem V)" "s = unat (ev_pos V mod ev_num V)" "cmd \<noteq> RING_CMD_DATA"
  shows "take_msg base V = MCmd cmd sz addr"
  using assms by (simp add: take_msg_def desc_mem_def Let_def join64_split)

lemma take_data:
  assumes "desc_mem base s RING_CMD_DATA sz addr blk (ev_mem V)" "s = unat (ev_pos V mod ev_num V)"
    and "blk < ev_max V" "sz \<le> 512"
    and "read_bytes (ev_mem V) (base + of_nat ((unat blk + 1) * 512)) (unat sz) = bs"
  shows "take_msg base V = MData addr bs"
  using assms by (simp add: take_msg_def desc_mem_def Let_def join64_split)

lemma hands_over:
  assumes "take_msg base (V\<lparr>ev_used := u\<rparr>) = msg"
  shows "ep_msgs base [Readl (base + 12) u, Writel (base + 12) (u + 1)] V = [msg] \<and>
    (\<exists>m. fold (see base) [Readl (base + 12) u, Writel (base + 12) (u + 1)] V =
      V\<lparr>ev_used := u, ev_mem := m, ev_pos := ev_pos V + 1\<rparr>)"
  using assms by (auto simp: Let_def)

lemma take_msg_used [simp]: "take_msg base (V\<lparr>ev_used := u\<rparr>) = take_msg base (V :: ep_view)"
  by (simp add: take_msg_def Let_def cong: if_cong)

lemma hands_cmd:
  assumes "s = unat (rc_cur_avail ctx mod rc_num ctx)" "d = base + of_nat (80 + 20 * s)" "cmd \<noteq> RING_CMD_DATA"
  shows "hands (tracks ctx) base (desc_writes d cmd sz addr 0 @ [Readl (base + 12) u, Writel (base + 12) (u + 1)])
    [MCmd cmd sz addr] (tracks (ctx\<lparr>rc_cur_avail := rc_cur_avail ctx + 1\<rparr>))"
  unfolding hands_def
proof (intro allI impI)
  fix V assume V: "tracks ctx V"
  have "s < 2 ^ 32" using unat_u32_less [of "rc_cur_avail ctx mod rc_num ctx"] assms(1) by simp
  from desc_writes_seen [OF this assms(2), of cmd sz addr 0 V] obtain m where
    m: "ep_msgs base (desc_writes d cmd sz addr 0) V = []"
      "fold (see base) (desc_writes d cmd sz addr 0) V = V\<lparr>ev_mem := m\<rparr>" "desc_mem base s cmd sz addr 0 m" by blast
  have "take_msg base (V\<lparr>ev_mem := m\<rparr>) = MCmd cmd sz addr"
    by (rule take_cmd [OF _ _ assms(3)]) (use m(3) V assms(1) in \<open>simp_all add: tracks_def\<close>)
  with hands_over [where base = base and V = "V\<lparr>ev_mem := m\<rparr>" and u = u] m V show
    "ep_msgs base (desc_writes d cmd sz addr 0 @ [Readl (base + 12) u, Writel (base + 12) (u + 1)]) V = [MCmd cmd sz addr] \<and>
      tracks (ctx\<lparr>rc_cur_avail := rc_cur_avail ctx + 1\<rparr>)
        (fold (see base) (desc_writes d cmd sz addr 0 @ [Readl (base + 12) u, Writel (base + 12) (u + 1)]) V)"
    by (auto simp: ep_msgs_append tracks_def simp del: ep_msgs.simps see.simps)
qed

lemma desc_mem_below_block:
  assumes "s \<le> 20" "desc_mem base s cmd sz addr blk m" "b < 2 ^ 32" "length bs \<le> 512"
  shows "desc_mem base s cmd sz addr blk (write_bytes m (base + of_nat ((b + 1) * 512)) bs)"
proof -
  have "ring_word base (80 + 20 * s + k) (write_bytes m (base + of_nat ((b + 1) * 512)) bs) = ring_word base (80 + 20 * s + k) m"
    if "k \<le> 16" for k
    by (rule ring_word_before) (use assms that in simp_all)
  from this [of 0] this [of 4] this [of 8] this [of 12] this [of 16] assms(2) show ?thesis
    by (simp add: desc_mem_def)
qed

lemma hands_data:
  assumes "s = unat (rc_cur_avail ctx mod rc_num ctx)" "d = base + of_nat (80 + 20 * s)" "s \<le> 20"
    and "blk < rc_max_blk ctx" "a = base + of_nat ((unat blk + 1) * 512)" "length bs = unat sz" "unat sz \<le> 512"
  shows "hands (tracks ctx) base
    (desc_writes d RING_CMD_DATA sz addr blk @ [MemcpyToio a bs, Readl (base + 12) u, Writel (base + 12) (u + 1)])
    [MData addr bs] (tracks (ctx\<lparr>rc_cur_blk := c, rc_cur_avail := rc_cur_avail ctx + 1\<rparr>))"
  unfolding hands_def
proof (intro allI impI)
  fix V assume V: "tracks ctx V"
  have s: "s < 2 ^ 32" using assms(3) by simp
  from desc_writes_seen [OF s assms(2), of RING_CMD_DATA sz addr blk V] obtain m where
    m: "ep_msgs base (desc_writes d RING_CMD_DATA sz addr blk) V = []"
      "fold (see base) (desc_writes d RING_CMD_DATA sz addr blk) V = V\<lparr>ev_mem := m\<rparr>"
      "desc_mem base s RING_CMD_DATA sz addr blk m" by blast
  let ?m = "write_bytes m a bs"
  have "desc_mem base s RING_CMD_DATA sz addr blk ?m"
    unfolding assms(5) by (rule desc_mem_below_block [OF assms(3) m(3)]) (use assms(6,7) unat_u32_less [of blk] in simp_all)
  moreover have "read_bytes ?m a (unat sz) = bs"
    using io.rd_wr_same [of bs m a] assms(6,7) by simp
  ultimately have "take_msg base (V\<lparr>ev_mem := ?m\<rparr>) = MData addr bs"
    by (intro take_data [where s = s and sz = sz and blk = blk])
      (use V assms(1,4,5,7) in \<open>simp_all add: tracks_def word_le_nat_alt\<close>)
  with hands_over [where base = base and V = "V\<lparr>ev_mem := ?m\<rparr>" and u = u] have h:
    "ep_msgs base [Readl (base + 12) u, Writel (base + 12) (u + 1)] (V\<lparr>ev_mem := ?m\<rparr>) = [MData addr bs]"
    "\<exists>m'. fold (see base) [Readl (base + 12) u, Writel (base + 12) (u + 1)] (V\<lparr>ev_mem := ?m\<rparr>) =
      V\<lparr>ev_mem := ?m, ev_used := u, ev_mem := m', ev_pos := ev_pos V + 1\<rparr>" by auto
  have split: "desc_writes d RING_CMD_DATA sz addr blk @ [MemcpyToio a bs, Readl (base + 12) u, Writel (base + 12) (u + 1)]
      = desc_writes d RING_CMD_DATA sz addr blk @ [MemcpyToio a bs] @ [Readl (base + 12) u, Writel (base + 12) (u + 1)]" by simp
  have copy: "ep_msgs base [MemcpyToio a bs] (V\<lparr>ev_mem := m\<rparr>) = []"
    "fold (see base) [MemcpyToio a bs] (V\<lparr>ev_mem := m\<rparr>) = V\<lparr>ev_mem := ?m\<rparr>" by simp_all
  show "ep_msgs base (desc_writes d RING_CMD_DATA sz addr blk @ [MemcpyToio a bs, Readl (base + 12) u, Writel (base + 12) (u + 1)]) V
        = [MData addr bs] \<and>
      tracks (ctx\<lparr>rc_cur_blk := c, rc_cur_avail := rc_cur_avail ctx + 1\<rparr>)
        (fold (see base) (desc_writes d RING_CMD_DATA sz addr blk @ [MemcpyToio a bs, Readl (base + 12) u, Writel (base + 12) (u + 1)]) V)"
    unfolding split ep_msgs_append fold_append comp_def m(1,2) copy h(1)
    using h(2) V by (auto simp: tracks_def simp del: see.simps)
qed

end
