(* ===== verification/Ring_Xfer_Correct.thy ===== *)
theory Ring_Xfer_Correct
  imports Ring_Reader
begin

section \<open>Correctness of the image transfer\<close>

text \<open>
  The trace of \<open>pcie_ring_xfer_user\<close>, read back the way the endpoint reads the ring (theory
  \<open>Ring_Reader\<close>), is the messages of an abstract specification: the image, zero padded to 16 bytes, stored from the
  load address on, then one command that announces the address. Every write stays inside the
  window the ring header describes; the chunk buffer is freed on every path; the routine
  returns whenever the clock moves.
\<close>

subsection \<open>Single posts\<close>

lemma write_desc_frame [kframe]:
  "iow (write_desc K d cmd sz addr blk w) = iow w @ desc_writes d cmd sz addr blk"
  "rcalls (write_desc K d cmd sz addr blk w) = rcalls w"
  by (simp_all add: write_desc_def desc_writes_def kframe)

lemma bump_used_frame:
  "iow (bump_used K base w) =
     iow w @ [Writel (base + 12) (fst (pcie_ring_r32 K base RH_USED_OFF w) + 1)]"
  "rcalls (bump_used K base w) = rcalls w"
  by (simp_all add: bump_used_def kframe case_prod_beta Let_def)

definition ring_desc_of :: "pcie_ring_ctx \<Rightarrow> u64" where
  "ring_desc_of ctx = pcie_ring_desc (rc_base ctx) (rc_cur_avail ctx) (rc_num ctx)"

definition ring_blk_of :: "pcie_ring_ctx \<Rightarrow> u64" where
  "ring_blk_of ctx = pcie_ring_data_blk (rc_base ctx) (rc_cur_blk ctx mod rc_max_blk ctx)"

lemma post_data_result:
  assumes "pcie_ring_post_data K ctx chunk csz ep_addr w = Some ((r, ctx'), w')"
  shows "rcalls w' = rcalls w"
    "r \<noteq> 0 \<Longrightarrow> r = - ETIMEDOUT \<and> ctx' = ctx \<and> iow w' = iow w"
    "r = 0 \<Longrightarrow> ctx' = ctx\<lparr>rc_cur_blk := rc_cur_blk ctx + 1, rc_cur_avail := rc_cur_avail ctx + 1\<rparr> \<and>
       (\<exists>u. iow w' = iow w @ desc_writes (ring_desc_of ctx) RING_CMD_DATA csz ep_addr
                (rc_cur_blk ctx mod rc_max_blk ctx) @
              [MemcpyToio (ring_blk_of ctx) (take (unat csz) chunk), Writel (rc_base ctx + 12) u])"
proof -
  obtain ret w1 where wait: "pcie_ring_wait_u32 K (rc_base ctx) RH_AVAIL_OFF (rc_cur_avail ctx) False 5000 w = Some (ret, w1)"
    using assms by (auto simp: pcie_ring_post_data_def bind_eq_Some_conv)
  note wr = wait_u32_result [OF wait]
  show "rcalls w' = rcalls w"
    using assms wait wr(2) by (auto simp: pcie_ring_post_data_def Let_def kframe bump_used_frame split: if_splits)
  show "r \<noteq> 0 \<Longrightarrow> r = - ETIMEDOUT \<and> ctx' = ctx \<and> iow w' = iow w"
    using assms wait wr(1,3) by (simp add: pcie_ring_post_data_def Let_def split: if_splits)
  assume "r = 0"
  with assms wait wr(1) show "ctx' = ctx\<lparr>rc_cur_blk := rc_cur_blk ctx + 1, rc_cur_avail := rc_cur_avail ctx + 1\<rparr> \<and>
       (\<exists>u. iow w' = iow w @ desc_writes (ring_desc_of ctx) RING_CMD_DATA csz ep_addr
                (rc_cur_blk ctx mod rc_max_blk ctx) @
              [MemcpyToio (ring_blk_of ctx) (take (unat csz) chunk), Writel (rc_base ctx + 12) u])"
    by (simp add: pcie_ring_post_data_def Let_def kframe bump_used_frame ring_desc_of_def ring_blk_of_def
        split: if_splits) (auto simp: kframe bump_used_frame)
qed

lemma post_cmd_result:
  assumes "pcie_ring_post_cmd K ctx cmd sz addr w = Some ((r, ctx'), w')"
  shows "rcalls w' = rcalls w"
    "r \<noteq> 0 \<Longrightarrow> r = - ETIMEDOUT \<and> ctx' = ctx \<and> iow w' = iow w"
    "r = 0 \<Longrightarrow> ctx' = ctx\<lparr>rc_cur_avail := rc_cur_avail ctx + 1\<rparr> \<and>
       (\<exists>u. iow w' = iow w @ desc_writes (ring_desc_of ctx) cmd sz addr 0 @ [Writel (rc_base ctx + 12) u])"
proof -
  obtain ret w1 where wait: "pcie_ring_wait_u32 K (rc_base ctx) RH_AVAIL_OFF (rc_cur_avail ctx) False 5000 w = Some (ret, w1)"
    using assms by (auto simp: pcie_ring_post_cmd_def bind_eq_Some_conv)
  note wr = wait_u32_result [OF wait]
  show "rcalls w' = rcalls w"
    using assms wait wr(2) by (auto simp: pcie_ring_post_cmd_def Let_def kframe bump_used_frame split: if_splits)
  show "r \<noteq> 0 \<Longrightarrow> r = - ETIMEDOUT \<and> ctx' = ctx \<and> iow w' = iow w"
    using assms wait wr(1,3) by (simp add: pcie_ring_post_cmd_def Let_def split: if_splits)
  assume "r = 0"
  with assms wait wr(1) show "ctx' = ctx\<lparr>rc_cur_avail := rc_cur_avail ctx + 1\<rparr> \<and>
       (\<exists>u. iow w' = iow w @ desc_writes (ring_desc_of ctx) cmd sz addr 0 @ [Writel (rc_base ctx + 12) u])"
    by (simp add: pcie_ring_post_cmd_def Let_def kframe bump_used_frame ring_desc_of_def
        split: if_splits) (auto simp: kframe bump_used_frame)
qed

text \<open>What a post that returned 0 left in the trace, and the message it handed over.\<close>

lemma post_data_trace:
  assumes "pcie_ring_post_data K ctx chunk csz ep_addr w = Some ((0, ctx'), w')"
  obtains t u where "\<forall>e \<in> set t. polls (rc_base ctx + RH_AVAIL_OFF) e"
    "ctx' = ctx\<lparr>rc_cur_blk := rc_cur_blk ctx + 1, rc_cur_avail := rc_cur_avail ctx + 1\<rparr>"
    "w_trc w' = w_trc w @ t @ desc_writes (ring_desc_of ctx) RING_CMD_DATA csz ep_addr (rc_cur_blk ctx mod rc_max_blk ctx) @
       [MemcpyToio (ring_blk_of ctx) (take (unat csz) chunk), Readl (rc_base ctx + 12) u, Writel (rc_base ctx + 12) (u + 1)]"
proof -
  from assms obtain w1 where wait: "pcie_ring_wait_u32 K (rc_base ctx) RH_AVAIL_OFF (rc_cur_avail ctx) False 5000 w = Some (0, w1)"
    and rest: "w' = bump_used K (rc_base ctx) (memcpy_toio K (ring_blk_of ctx) (take (unat csz) chunk)
        (write_desc K (ring_desc_of ctx) RING_CMD_DATA csz ep_addr (rc_cur_blk ctx mod rc_max_blk ctx) w1))"
      "ctx' = ctx\<lparr>rc_cur_blk := rc_cur_blk ctx + 1, rc_cur_avail := rc_cur_avail ctx + 1\<rparr>"
    by (auto simp: pcie_ring_post_data_def bind_eq_Some_conv Let_def ring_desc_of_def ring_blk_of_def split: if_splits)
  from wait obtain t where t: "w_trc w1 = w_trc w @ t" "\<forall>e \<in> set t. polls (rc_base ctx + RH_AVAIL_OFF) e"
    by (rule wait_u32_trc)
  obtain u where "w_trc w' = w_trc (memcpy_toio K (ring_blk_of ctx) (take (unat csz) chunk)
        (write_desc K (ring_desc_of ctx) RING_CMD_DATA csz ep_addr (rc_cur_blk ctx mod rc_max_blk ctx) w1)) @
      [Readl (rc_base ctx + 12) u, Writel (rc_base ctx + 12) (u + 1)]"
    unfolding rest(1) using bump_trc by blast
  then show thesis by (intro that [OF t(2) rest(2)]) (simp add: memcpy_trc write_desc_trc t(1))
qed

lemma post_cmd_trace:
  assumes "pcie_ring_post_cmd K ctx cmd sz addr w = Some ((0, ctx'), w')"
  obtains t u where "\<forall>e \<in> set t. polls (rc_base ctx + RH_AVAIL_OFF) e"
    "ctx' = ctx\<lparr>rc_cur_avail := rc_cur_avail ctx + 1\<rparr>"
    "w_trc w' = w_trc w @ t @ desc_writes (ring_desc_of ctx) cmd sz addr 0 @
       [Readl (rc_base ctx + 12) u, Writel (rc_base ctx + 12) (u + 1)]"
proof -
  from assms obtain w1 where wait: "pcie_ring_wait_u32 K (rc_base ctx) RH_AVAIL_OFF (rc_cur_avail ctx) False 5000 w = Some (0, w1)"
    and rest: "w' = bump_used K (rc_base ctx) (write_desc K (ring_desc_of ctx) cmd sz addr 0 w1)"
      "ctx' = ctx\<lparr>rc_cur_avail := rc_cur_avail ctx + 1\<rparr>"
    by (auto simp: pcie_ring_post_cmd_def bind_eq_Some_conv Let_def ring_desc_of_def split: if_splits)
  from wait obtain t where t: "w_trc w1 = w_trc w @ t" "\<forall>e \<in> set t. polls (rc_base ctx + RH_AVAIL_OFF) e"
    by (rule wait_u32_trc)
  obtain u where "w_trc w' = w_trc (write_desc K (ring_desc_of ctx) cmd sz addr 0 w1) @
      [Readl (rc_base ctx + 12) u, Writel (rc_base ctx + 12) (u + 1)]"
    unfolding rest(1) using bump_trc by blast
  then show thesis by (intro that [OF t(2) rest(2)]) (simp add: write_desc_trc t(1))
qed

subsection \<open>Where a context points\<close>

lemma unat_mod_less: "n \<noteq> 0 \<Longrightarrow> unat (x mod n) < unat (n :: 'a::len word)"
  by (metis word_mod_less_divisor word_less_nat_alt word_neq_0_conv)

lemma of_nat_unat_32_64: "(of_nat (unat (x :: u32)) :: u64) = ucast x"
  by (rule word_unat_eq_iff [THEN iffD2])
    (use unat_u32_less [of x] in \<open>simp add: unsigned_of_nat take_bit_nat_eq_self\<close>)

text \<open>Where the descriptor words and the data block of a context are.\<close>

lemma desc_word:
  "ring_desc_of ctx + of_nat (4 * k) = rc_base ctx + of_nat (80 + 20 * unat (rc_cur_avail ctx mod rc_num ctx) + 4 * k)"
  by (simp add: ring_desc_of_def pcie_ring_desc_def pcie_ring_ptr_def of_nat_unat_32_64 algebra_simps)

lemma blk_at:
  assumes "rc_max_blk ctx \<noteq> 0"
  shows "ring_blk_of ctx = rc_base ctx + of_nat ((unat (rc_cur_blk ctx mod rc_max_blk ctx) + 1) * 512)"
proof -
  let ?b = "rc_cur_blk ctx mod rc_max_blk ctx"
  have b: "unat ?b < unat (rc_max_blk ctx)" using assms by (rule unat_mod_less)
  with unat_u32_less [of "rc_max_blk ctx"] have "unat (?b + 1) = unat ?b + 1"
    by (subst unat_add_no_wrap) simp_all
  then have "(ucast (?b + 1) :: u64) = of_nat (unat ?b + 1)"
    using of_nat_unat_32_64 [of "?b + 1"] by (simp only:)
  then have "ring_blk_of ctx = rc_base ctx + of_nat (unat ?b + 1) * 512"
    by (simp only: ring_blk_of_def pcie_ring_data_blk_def pcie_ring_ptr_def) simp
  also have "\<dots> = rc_base ctx + of_nat ((unat ?b + 1) * 512)" by (simp only: of_nat_mult of_nat_numeral)
  finally show ?thesis .
qed

lemma post_cmd_hands:
  assumes "pcie_ring_post_cmd K ctx cmd sz addr w = Some ((0, ctx'), w')" "cmd \<noteq> RING_CMD_DATA"
  shows "\<exists>es. w_trc w' = w_trc w @ es \<and> hands (tracks ctx) (rc_base ctx) es [MCmd cmd sz addr] any_view"
proof -
  obtain t u where t: "\<forall>e \<in> set t. polls (rc_base ctx + RH_AVAIL_OFF) e"
    "w_trc w' = w_trc w @ t @ desc_writes (ring_desc_of ctx) cmd sz addr 0 @
       [Readl (rc_base ctx + 12) u, Writel (rc_base ctx + 12) (u + 1)]" by (rule post_cmd_trace [OF assms(1)])
  have "hands (tracks ctx) (rc_base ctx) (t @ desc_writes (ring_desc_of ctx) cmd sz addr 0 @
       [Readl (rc_base ctx + 12) u, Writel (rc_base ctx + 12) (u + 1)]) ([] @ [MCmd cmd sz addr]) any_view"
    by (rule hands_append [OF hands_polls [OF t(1)] hands_weaken [OF hands_cmd [OF refl _ assms(2)]]])
      (use desc_word [of ctx 0] in simp_all)
  with t(2) show ?thesis by auto
qed

lemma post_data_hands:
  assumes "pcie_ring_post_data K ctx chunk csz ep_addr w = Some ((0, ctx'), w')"
    and "rc_num ctx \<noteq> 0" "rc_max_blk ctx \<noteq> 0" "length chunk = 512" "unat csz \<le> 512"
  shows "\<exists>es. w_trc w' = w_trc w @ es \<and> (rc_num ctx \<le> 21 \<longrightarrow>
    hands (tracks ctx) (rc_base ctx) es [MData ep_addr (take (unat csz) chunk)] (tracks ctx'))"
proof -
  obtain t u where t: "\<forall>e \<in> set t. polls (rc_base ctx + RH_AVAIL_OFF) e"
    "ctx' = ctx\<lparr>rc_cur_blk := rc_cur_blk ctx + 1, rc_cur_avail := rc_cur_avail ctx + 1\<rparr>"
    "w_trc w' = w_trc w @ t @ desc_writes (ring_desc_of ctx) RING_CMD_DATA csz ep_addr (rc_cur_blk ctx mod rc_max_blk ctx) @
       [MemcpyToio (ring_blk_of ctx) (take (unat csz) chunk), Readl (rc_base ctx + 12) u, Writel (rc_base ctx + 12) (u + 1)]"
    by (rule post_data_trace [OF assms(1)])
  have slot: "unat (rc_cur_avail ctx mod rc_num ctx) \<le> 20" if "rc_num ctx \<le> 21"
    using unat_mod_less [OF assms(2), of "rc_cur_avail ctx"] that by (simp add: word_le_nat_alt)
  have blk: "rc_cur_blk ctx mod rc_max_blk ctx < rc_max_blk ctx"
    using unat_mod_less [OF assms(3)] by (simp add: word_less_nat_alt)
  have "hands (tracks ctx) (rc_base ctx) (t @
       desc_writes (ring_desc_of ctx) RING_CMD_DATA csz ep_addr (rc_cur_blk ctx mod rc_max_blk ctx) @
       [MemcpyToio (ring_blk_of ctx) (take (unat csz) chunk), Readl (rc_base ctx + 12) u, Writel (rc_base ctx + 12) (u + 1)])
     ([] @ [MData ep_addr (take (unat csz) chunk)]) (tracks ctx')" if "rc_num ctx \<le> 21"
    unfolding t(2)
    by (rule hands_append [OF hands_polls [OF t(1)] hands_data [OF refl _ slot [OF that] blk blk_at [OF assms(3)]]])
      (use desc_word [of ctx 0] assms(4,5) in simp_all)
  with t(3) show ?thesis by auto
qed

subsection \<open>The specification of an image\<close>

text \<open>The \<open>n\<close> bytes from position \<open>pos\<close> of an image of \<open>len\<close> bytes at user address \<open>src\<close>,
  continued by zeros; \<open>None\<close> if a byte of it cannot be read.\<close>

definition image_at :: "'d kernel \<Rightarrow> u64 \<Rightarrow> nat \<Rightarrow> nat \<Rightarrow> nat \<Rightarrow> u8 list option" where
  "image_at K src len pos n =
     map_option (\<lambda>bs. bs @ replicate (n - (len - pos)) 0)
       (copy_from_user K (src + of_nat pos) (min n (len - pos)))"

lemma image_at_0 [simp]: "image_at K src len pos 0 = Some []"
  by (simp add: image_at_def)

lemma image_at_append:
  "image_at K src len pos (a + b) =
     (case image_at K src len pos a of None \<Rightarrow> None
      | Some xs \<Rightarrow> map_option (\<lambda>ys. xs @ ys) (image_at K src len (pos + a) b))"
proof (cases "a \<le> len - pos")
  case True
  then have "min (a + b) (len - pos) = a + min b (len - (pos + a))" "min a (len - pos) = a"
    "a + b - (len - pos) = b - (len - (pos + a))" "a - (len - pos) = 0"
    by linarith+
  then show ?thesis
    by (simp add: image_at_def copy_from_user_append option.map_comp comp_def add.assoc
        split: option.splits)
next
  case False
  then have "min (a + b) (len - pos) = len - pos" "min a (len - pos) = len - pos"
    "len - (pos + a) = 0" "a + b - (len - pos) = (a - (len - pos)) + b"
    by linarith+
  then have "replicate (a + b - (len - pos)) (0 :: u8) = replicate (a - (len - pos)) 0 @ replicate b 0"
    by (simp only: replicate_add)
  with \<open>min (a + b) (len - pos) = len - pos\<close> \<open>min a (len - pos) = len - pos\<close> \<open>len - (pos + a) = 0\<close>
  show ?thesis by (simp add: image_at_def split: option.splits)
qed

lemma image_at_full:
  "image_at K src len 0 n = Some bs \<longleftrightarrow>
     (\<exists>data. copy_from_user K src (min n len) = Some data \<and> bs = data @ replicate (n - len) 0)"
  by (auto simp: image_at_def)

lemma length_image_at: "image_at K src len pos n = Some bs \<Longrightarrow> length bs = n"
  by (auto simp: image_at_def dest!: copy_from_user_length)

subsection \<open>Chunks\<close>

lemma chunk_size_unat: "pos < tot \<Longrightarrow> unat (chunk_size tot pos) = min 512 (unat tot - unat pos)"
proof -
  assume lt: "pos < tot"
  have "unat (min (ucast RING_BLOCK_SIZE) (tot - pos)) = min 512 (unat tot - unat pos)"
    using lt by (simp add: unat_min unat_sub less_imp_le)
  then show ?thesis unfolding chunk_size_def by (subst unat_ucast_64_32) simp_all
qed

lemma chunk_step:
  assumes "pos < tot"
  shows "unat (pos + ucast (chunk_size tot pos)) = unat pos + unat (chunk_size tot pos)"
    "pos + ucast (chunk_size tot pos) \<le> tot" "0 < unat (chunk_size tot pos)"
    "unat (chunk_size tot pos) \<le> 512"
proof -
  have lt: "unat pos < unat tot" using assms by (simp add: word_less_nat_alt)
  have cs: "unat (chunk_size tot pos) = min 512 (unat tot - unat pos)"
    using assms by (rule chunk_size_unat)
  show *: "unat (pos + ucast (chunk_size tot pos)) = unat pos + unat (chunk_size tot pos)"
    using cs lt unat_u64_less [of tot] by (subst unat_add_no_wrap) auto
  show "pos + ucast (chunk_size tot pos) \<le> tot"
    unfolding word_le_nat_alt * using cs lt by simp
  show "0 < unat (chunk_size tot pos)" "unat (chunk_size tot pos) \<le> 512"
    using cs lt by simp_all
qed

lemma fill_chunk_image:
  assumes "length chunk = 512" "unat csz \<le> 512"
  shows "case fill_chunk K src data_len ep_pos csz chunk of
      None \<Rightarrow> image_at K src (unat data_len) (unat ep_pos) (unat csz) = None
    | Some c \<Rightarrow> length c = 512 \<and>
        image_at K src (unat data_len) (unat ep_pos) (unat csz) = Some (take (unat csz) c)"
proof (cases "data_len \<le> ep_pos")
  case True
  then have "unat data_len - unat ep_pos = 0" by (simp add: word_le_nat_alt)
  moreover have "take (unat csz) (put_at 0 (replicate (unat csz) 0) chunk) = replicate (unat csz) 0"
    by (simp add: put_at_def)
  ultimately show ?thesis using True assms by (simp add: fill_chunk_def image_at_def)
next
  case False
  then have lt: "ep_pos < data_len" by simp
  let ?l = "unat data_len - unat ep_pos"
  let ?nf = "min (ucast csz) (data_len - ep_pos)"
  have nf: "unat ?nf = min (unat csz) ?l" using lt by (simp add: unat_min unat_sub less_imp_le)
  have pad: "unat (ucast csz - ?nf) = unat csz - ?l"
    by (subst unat_sub) (use nf in \<open>auto simp: min_def word_le_nat_alt\<close>)
  have short: "?nf < ucast csz \<longleftrightarrow> ?l < unat csz" using nf by (simp add: word_less_nat_alt) linarith
  show ?thesis
  proof (cases "copy_from_user K (src + ep_pos) (min (unat csz) ?l)")
    case None
    with False nf show ?thesis by (simp add: fill_chunk_def image_at_def Let_def)
  next
    case (Some bs)
    then have len: "length bs = min (unat csz) ?l" by (rule copy_from_user_length)
    show ?thesis
    proof (cases "?l < unat csz")
      case True
      then have "length bs + length (replicate (unat csz - ?l) (0 :: u8)) = unat csz" using len by simp
      then have "take (unat csz) (put_at (length bs) (replicate (unat csz - ?l) 0) (put_at 0 bs chunk))
          = bs @ replicate (unat csz - ?l) 0"
        using put_at_append [of bs "replicate (unat csz - ?l) 0" chunk] assms by simp
      with True Some False nf pad short len assms show ?thesis
        by (simp add: fill_chunk_def image_at_def Let_def)
    next
      case no: False
      then have "length bs = unat csz" using len by simp
      then have "take (unat csz) (put_at 0 bs chunk) = bs" using take_put_at_0 [of bs chunk] by simp
      with no Some False nf short len assms show ?thesis
        by (simp add: fill_chunk_def image_at_def Let_def)
    qed
  qed
qed

subsection \<open>The chunk loop\<close>

lemma padded_len_unat:
  assumes "unat len + 15 < 2 ^ 64"
  shows "unat (padded_len len) = (unat len + 15) div 16 * 16"
proof -
  have mask: "(15 :: u64) = mask 4" by (simp add: mask_eq_exp_minus_1)
  have "x AND NOT 15 = push_bit 4 (drop_bit 4 x)" for x :: u64
    unfolding mask by (rule bit_eqI) (auto simp: bit_simps)
  then have p: "padded_len len = (len + 15) div 16 * 16"
    by (simp add: padded_len_def push_bit_eq_mult drop_bit_eq_div)
  have u: "unat (len + 15) = unat len + 15" using assms by (subst unat_add_no_wrap) simp_all
  have "(unat len + 15) div 16 * 16 \<le> unat len + 15" by simp
  with assms have "(unat len + 15) div 16 * 16 < 2 ^ 64" by linarith
  then show ?thesis by (simp add: p u unat_word_ariths unat_div)
qed

definition same_window :: "pcie_ring_ctx \<Rightarrow> pcie_ring_ctx \<Rightarrow> bool" where
  "same_window c d \<longleftrightarrow> rc_base c = rc_base d \<and> rc_num c = rc_num d \<and> rc_max_blk c = rc_max_blk d"

lemma xfer_chunks_step:
  "pos < tot \<Longrightarrow> fill_chunk K src data_len pos (chunk_size tot pos) chunk = Some c \<Longrightarrow>
   xfer_chunks K src data_len load_addr tot pos chunk ctx w =
     (case pcie_ring_post_data K ctx c (chunk_size tot pos) (load_addr + pos) w of
        None \<Rightarrow> None
      | Some ((r1, ctx1), w1) \<Rightarrow>
          if r1 \<noteq> 0 then Some ((r1, ctx1), w1)
          else xfer_chunks K src data_len load_addr tot (pos + ucast (chunk_size tot pos)) c ctx1 w1)"
  by (subst xfer_chunks.simps) (auto split: option.splits)

lemma xfer_chunks_fault:
  "pos < tot \<Longrightarrow> fill_chunk K src data_len pos (chunk_size tot pos) chunk = None \<Longrightarrow>
   xfer_chunks K src data_len load_addr tot pos chunk ctx w = Some ((- EFAULT, ctx), w)"
  by (subst xfer_chunks.simps) simp

lemma xfer_chunks_done:
  "\<not> pos < tot \<Longrightarrow> xfer_chunks K src data_len load_addr tot pos chunk ctx w = Some ((0, ctx), w)"
  by (subst xfer_chunks.simps) simp

lemma xfer_chunks_ok:
  assumes "xfer_chunks K src data_len load_addr tot pos chunk ctx w = Some ((0, ctx'), w')"
    and "pos \<le> tot" and "length chunk = 512"
    and "rc_num ctx \<noteq> 0" "rc_max_blk ctx \<noteq> 0"
  shows "rc_base ctx' = rc_base ctx \<and> (\<exists>es bs. w_trc w' = w_trc w @ es \<and>
    image_at K src (unat data_len) (unat pos) (unat tot - unat pos) = Some bs \<and>
    (rc_num ctx \<le> 21 \<longrightarrow> hands (tracks ctx) (rc_base ctx) es (image_msgs (load_addr + pos) bs) (tracks ctx')))"
  using assms
proof (induction "unat tot - unat pos" arbitrary: pos chunk ctx w rule: less_induct)
  case less
  let ?cs = "chunk_size tot pos"
  show ?case
  proof (cases "pos < tot")
    case False
    with less.prems(2) have "tot = pos" by simp
    moreover from less.prems(1) have "w' = w" "ctx' = ctx" unfolding xfer_chunks_done [OF False] by simp_all
    ultimately show ?thesis by (auto simp: hands_Nil)
  next
    case lt: True
    note step = chunk_step [OF lt]
    have "fill_chunk K src data_len pos ?cs chunk \<noteq> None"
      using less.prems(1) xfer_chunks_fault [OF lt] by force
    then obtain c where fc: "fill_chunk K src data_len pos ?cs chunk = Some c" by blast
    from fill_chunk_image [OF less.prems(3) step(4), of K src data_len pos] fc
    have c: "length c = 512"
      and img: "image_at K src (unat data_len) (unat pos) (unat ?cs) = Some (take (unat ?cs) c)"
      by simp_all
    from less.prems(1) obtain ctx1 w1 where
      post: "pcie_ring_post_data K ctx c ?cs (load_addr + pos) w = Some ((0, ctx1), w1)"
      and tl: "xfer_chunks K src data_len load_addr tot (pos + ucast ?cs) c ctx1 w1 = Some ((0, ctx'), w')"
      unfolding xfer_chunks_step [OF lt fc] by (auto split: option.splits if_splits)
    have ctx1: "rc_base ctx1 = rc_base ctx" "rc_num ctx1 = rc_num ctx" "rc_max_blk ctx1 = rc_max_blk ctx"
      by (rule post_data_trace [OF post], simp)+
    from post_data_hands [OF post less.prems(4,5) c step(4)] obtain es1 where es1: "w_trc w1 = w_trc w @ es1"
      "rc_num ctx \<le> 21 \<longrightarrow> hands (tracks ctx) (rc_base ctx) es1 [MData (load_addr + pos) (take (unat ?cs) c)] (tracks ctx1)" by blast
    have smaller: "unat tot - unat (pos + ucast ?cs) < unat tot - unat pos"
      using step(1,3) lt by (simp add: word_less_nat_alt)
    have "rc_num ctx1 \<noteq> 0" "rc_max_blk ctx1 \<noteq> 0" using less.prems(4,5) ctx1 by simp_all
    from less.hyps [OF smaller tl step(2) c this, unfolded ctx1] obtain es bs where
      IH: "rc_base ctx' = rc_base ctx" "w_trc w' = w_trc w1 @ es"
      "image_at K src (unat data_len) (unat (pos + ucast ?cs)) (unat tot - unat (pos + ucast ?cs)) = Some bs"
      "rc_num ctx \<le> 21 \<longrightarrow> hands (tracks ctx1) (rc_base ctx) es (image_msgs (load_addr + (pos + ucast ?cs)) bs) (tracks ctx')"
      by blast
    let ?bs = "take (unat ?cs) c"
    have len: "length ?bs = unat ?cs" using c step(4) by simp
    have split: "unat tot - unat pos = unat ?cs + (unat tot - unat (pos + ucast ?cs))"
      using step(1,2) by (simp add: word_le_nat_alt)
    have image: "image_at K src (unat data_len) (unat pos) (unat tot - unat pos) = Some (?bs @ bs)"
      unfolding split image_at_append using img IH(3) step(1) by simp
    have "length ?bs = 512 \<or> length ?bs < 512 \<and> bs = []"
      using len chunk_size_unat [OF lt] length_image_at [OF IH(3)] step(1) by (cases "unat ?cs = 512") (auto simp: min_def split: if_splits)
    moreover have "?bs \<noteq> []" using len step(3) by auto
    ultimately have "image_msgs (load_addr + pos) (?bs @ bs) =
        [MData (load_addr + pos) ?bs] @ image_msgs (load_addr + pos + of_nat (length ?bs)) bs"
      by (subst image_msgs_chunk) simp_all
    then have "image_msgs (load_addr + pos) (?bs @ bs) =
        [MData (load_addr + pos) ?bs] @ image_msgs (load_addr + (pos + ucast ?cs)) bs"
      unfolding len by (simp only: of_nat_unat_32_64 add.assoc)
    then have "rc_num ctx \<le> 21 \<longrightarrow> hands (tracks ctx) (rc_base ctx) (es1 @ es) (image_msgs (load_addr + pos) (?bs @ bs)) (tracks ctx')"
      using hands_append es1(2) IH(4) by fastforce
    moreover have "w_trc w' = w_trc w @ es1 @ es" using IH(2) es1(1) by simp
    ultimately show ?thesis using image IH(1) by blast
  qed
qed

lemma post_data_returns:
  assumes "steady_clock K us tick"
  shows "\<exists>r ctx' w'. pcie_ring_post_data K ctx chunk csz ep_addr w = Some ((r, ctx'), w')"
proof -
  obtain r0 w0 where
    "pcie_ring_wait_u32 K (rc_base ctx) RH_AVAIL_OFF (rc_cur_avail ctx) False 5000 w = Some (r0, w0)"
    using wait_u32_returns [OF assms] by blast
  then show ?thesis
    by (cases "r0 = 0") (simp_all add: pcie_ring_post_data_def Let_def)
qed

lemma post_cmd_returns:
  assumes "steady_clock K us tick"
  shows "\<exists>r ctx' w'. pcie_ring_post_cmd K ctx cmd sz addr w = Some ((r, ctx'), w')"
proof -
  obtain r0 w0 where
    "pcie_ring_wait_u32 K (rc_base ctx) RH_AVAIL_OFF (rc_cur_avail ctx) False 5000 w = Some (r0, w0)"
    using wait_u32_returns [OF assms] by blast
  then show ?thesis
    by (cases "r0 = 0") (simp_all add: pcie_ring_post_cmd_def Let_def)
qed

lemma xfer_chunks_returns:
  assumes clk: "steady_clock K us tick" and len: "length chunk = 512"
  shows "\<exists>r ctx' w'. xfer_chunks K src data_len load_addr tot pos chunk ctx w = Some ((r, ctx'), w')"
  using len
proof (induction "unat tot - unat pos" arbitrary: pos chunk ctx w rule: less_induct)
  case less
  let ?cs = "chunk_size tot pos"
  show ?case
  proof (cases "pos < tot")
    case False
    then show ?thesis by (simp add: xfer_chunks_done)
  next
    case lt: True
    note step = chunk_step [OF lt]
    show ?thesis
    proof (cases "fill_chunk K src data_len pos ?cs chunk")
      case None
      then show ?thesis by (simp add: xfer_chunks_fault [OF lt])
    next
      case (Some c)
      from fill_chunk_image [OF less.prems step(4), of K src data_len pos] Some
      have c: "length c = 512" by simp
      obtain r1 ctx1 w1 where
        post: "pcie_ring_post_data K ctx c ?cs (load_addr + pos) w = Some ((r1, ctx1), w1)"
        using post_data_returns [OF clk] by blast
      have smaller: "unat tot - unat (pos + ucast ?cs) < unat tot - unat pos"
        using step(1,3) lt by (simp add: word_less_nat_alt)
      from less.hyps [OF smaller c, of ctx1 w1] post show ?thesis
        by (auto simp: xfer_chunks_step [OF lt Some])
    qed
  qed
qed

subsection \<open>Writes stay in the window\<close>

text \<open>A write is the bump of \<open>used\<close>, a word of a descriptor below \<open>num\<close>, or at most 512 bytes
  into a block below \<open>max_blk\<close>.\<close>

fun ring_write_ok :: "u64 \<Rightarrow> u32 \<Rightarrow> u32 \<Rightarrow> event \<Rightarrow> bool" where
  "ring_write_ok base num max_blk (Writel a v) =
     (a = base + 12 \<or> (\<exists>slot < unat num. \<exists>k < 5. a = base + of_nat (80 + 20 * slot + 4 * k)))"
| "ring_write_ok base num max_blk (MemcpyToio a bs) =
     (length bs \<le> 512 \<and> (\<exists>blk < unat max_blk. a = base + of_nat ((blk + 1) * 512)))"
| "ring_write_ok base num max_blk e = False"

lemma desc_writes_words:
  assumes "e \<in> set (desc_writes d cmd sz addr blk)"
  obtains k v where "k < 5" "e = Writel (d + of_nat (4 * k)) v"
proof -
  from assms consider v where "e = Writel (d + of_nat (4 * 0)) v" | v where "e = Writel (d + of_nat (4 * 1)) v"
    | v where "e = Writel (d + of_nat (4 * 2)) v" | v where "e = Writel (d + of_nat (4 * 3)) v"
    | v where "e = Writel (d + of_nat (4 * 4)) v"
    by (auto simp: desc_writes_def)
  then show thesis by cases (erule that [rotated], simp)+
qed

lemma desc_writes_ok:
  assumes "rc_num ctx \<noteq> 0" "e \<in> set (desc_writes (ring_desc_of ctx) cmd sz addr blk)"
  shows "ring_write_ok (rc_base ctx) (rc_num ctx) max_blk e"
proof -
  obtain k v where e: "k < 5" "e = Writel (ring_desc_of ctx + of_nat (4 * k)) v" by (rule desc_writes_words [OF assms(2)])
  show ?thesis unfolding e(2) desc_word ring_write_ok.simps using unat_mod_less [OF assms(1)] e(1) by blast
qed

lemma data_write_ok:
  assumes "rc_max_blk ctx \<noteq> 0" "length bs \<le> 512"
  shows "ring_write_ok (rc_base ctx) num (rc_max_blk ctx) (MemcpyToio (ring_blk_of ctx) bs)"
  unfolding blk_at [OF assms(1)] ring_write_ok.simps using unat_mod_less [OF assms(1)] assms(2) by blast

lemma xfer_chunks_writes:
  assumes "xfer_chunks K src data_len load_addr tot pos chunk ctx w = Some ((r, ctx'), w')"
    and "length chunk = 512" and "rc_num ctx \<noteq> 0" and "rc_max_blk ctx \<noteq> 0"
  shows "rcalls w' = rcalls w \<and> same_window ctx ctx' \<and> r \<in> {0, - EFAULT, - ETIMEDOUT} \<and>
    (\<exists>es. iow w' = iow w @ es \<and> (\<forall>e \<in> set es. ring_write_ok (rc_base ctx) (rc_num ctx) (rc_max_blk ctx) e))"
  using assms
proof (induction "unat tot - unat pos" arbitrary: pos chunk ctx w rule: less_induct)
  case less
  let ?cs = "chunk_size tot pos"
  show ?case
  proof (cases "pos < tot")
    case False
    from less.prems(1) show ?thesis
      unfolding xfer_chunks_done [OF False] by (simp add: same_window_def)
  next
    case lt: True
    note step = chunk_step [OF lt]
    show ?thesis
    proof (cases "fill_chunk K src data_len pos ?cs chunk")
      case None
      from less.prems(1) show ?thesis
        unfolding xfer_chunks_fault [OF lt None] by (auto simp: same_window_def)
    next
      case (Some c)
      from fill_chunk_image [OF less.prems(2) step(4), of K src data_len pos] Some
      have c: "length c = 512" by simp
      from less.prems(1) obtain r1 ctx1 w1 where
        post: "pcie_ring_post_data K ctx c ?cs (load_addr + pos) w = Some ((r1, ctx1), w1)"
        and rest: "(if r1 \<noteq> 0 then Some ((r1, ctx1), w1)
           else xfer_chunks K src data_len load_addr tot (pos + ucast ?cs) c ctx1 w1) = Some ((r, ctx'), w')"
        unfolding xfer_chunks_step [OF lt Some] by (auto split: option.splits)
      note pr = post_data_result [OF post]
      show ?thesis
      proof (cases "r1 = 0")
        case False
        with pr rest show ?thesis by (auto simp: same_window_def)
      next
        case True
        from pr(3) [OF True] obtain u where
          ctx1: "ctx1 = ctx\<lparr>rc_cur_blk := rc_cur_blk ctx + 1, rc_cur_avail := rc_cur_avail ctx + 1\<rparr>" and
          w1: "iow w1 = iow w @ desc_writes (ring_desc_of ctx) RING_CMD_DATA ?cs (load_addr + pos)
                    (rc_cur_blk ctx mod rc_max_blk ctx) @
                  [MemcpyToio (ring_blk_of ctx) (take (unat ?cs) c), Writel (rc_base ctx + 12) u]"
          by blast
        have smaller: "unat tot - unat (pos + ucast ?cs) < unat tot - unat pos"
          using step(1,3) lt by (simp add: word_less_nat_alt)
        from rest True have "xfer_chunks K src data_len load_addr tot (pos + ucast ?cs) c ctx1 w1 = Some ((r, ctx'), w')"
          by simp
        from less.hyps [OF smaller this c] less.prems(3,4) ctx1 obtain es where IH:
          "rcalls w' = rcalls w1" "same_window ctx ctx'" "r \<in> {0, - EFAULT, - ETIMEDOUT}" "iow w' = iow w1 @ es"
          "\<forall>e \<in> set es. ring_write_ok (rc_base ctx) (rc_num ctx) (rc_max_blk ctx) e"
          by (auto simp: same_window_def)
        have "ring_write_ok (rc_base ctx) (rc_num ctx) (rc_max_blk ctx) (MemcpyToio (ring_blk_of ctx) (take (unat ?cs) c))"
          using less.prems(4) step(4) c by (intro data_write_ok) simp_all
        moreover have "\<forall>e \<in> set (desc_writes (ring_desc_of ctx) RING_CMD_DATA ?cs (load_addr + pos)
            (rc_cur_blk ctx mod rc_max_blk ctx)). ring_write_ok (rc_base ctx) (rc_num ctx) (rc_max_blk ctx) e"
          using less.prems(3) desc_writes_ok by blast
        ultimately show ?thesis
          using IH w1 pr(1) by (auto simp del: ring_write_ok.simps(2))
      qed
    qed
  qed
qed

end
