(* ===== verification/Ring_Xfer_Props.thy ===== *)
theory Ring_Xfer_Props
  imports Ring_Xfer_Correct Demo_Kernel
begin

section \<open>What \<open>pcie_ring_xfer_user\<close> guarantees\<close>

text \<open>
  The end-to-end theorems about one image transfer: delivery of the image, confinement of the
  writes, results and resources, termination; and the places where the code does less than its
  callers expect (the wrap of \<open>max_blk + 1\<close>, the wrap of the padded length).
\<close>

lemma ctx_init_result:
  assumes "pcie_ring_ctx_init K base map_size ctx w = ((r, ctx'), w')"
  shows "iow w' = iow w" "rcalls w' = rcalls w" "r = 0 \<or> r = - EINVAL"
    "r = 0 \<Longrightarrow> rc_base ctx' = base \<and> rc_num ctx' \<noteq> 0 \<and> rc_max_blk ctx' \<noteq> 0 \<and> rc_cur_blk ctx' = 0 \<and>
       ucast (rc_max_blk ctx' + 1) * ucast RING_BLOCK_SIZE \<le> map_size"
  using assms
  by (auto simp: pcie_ring_ctx_init_def Let_def case_prod_beta kframe split: if_splits)

lemma xfer_user_body_cases:
  assumes "xfer_user_body K base map_size user_base img w = Some (r, w')"
  obtains (init) ctx where "pcie_ring_ctx_init K base map_size zero_ring_ctx w = ((r, ctx), w')" "r \<noteq> 0"
  | (chunks) ctx w1 ctx2 where "pcie_ring_ctx_init K base map_size zero_ring_ctx w = ((0, ctx), w1)"
      "xfer_chunks K (user_base + img_offset img) (img_length img) (pcie_fw_load_addr (img_type img))
         (padded_len (img_length img)) 0 (k_junk K 512) ctx w1 = Some ((r, ctx2), w')" "r \<noteq> 0"
  | (cmd) ctx w1 ctx2 w2 ctx3 where "pcie_ring_ctx_init K base map_size zero_ring_ctx w = ((0, ctx), w1)"
      "xfer_chunks K (user_base + img_offset img) (img_length img) (pcie_fw_load_addr (img_type img))
         (padded_len (img_length img)) 0 (k_junk K 512) ctx w1 = Some ((0, ctx2), w2)"
      "pcie_ring_post_cmd K ctx2 (tail_cmd (img_type img)) (tail_size (img_type img) (img_length img))
         (pcie_fw_load_addr (img_type img)) w2 = Some ((r, ctx3), w')" "r \<noteq> 0"
  | (poll) ctx w1 ctx2 w2 ctx3 w3 where "pcie_ring_ctx_init K base map_size zero_ring_ctx w = ((0, ctx), w1)"
      "xfer_chunks K (user_base + img_offset img) (img_length img) (pcie_fw_load_addr (img_type img))
         (padded_len (img_length img)) 0 (k_junk K 512) ctx w1 = Some ((0, ctx2), w2)"
      "pcie_ring_post_cmd K ctx2 (tail_cmd (img_type img)) (tail_size (img_type img) (img_length img))
         (pcie_fw_load_addr (img_type img)) w2 = Some ((0, ctx3), w3)"
      "pcie_ring_xfer_poll K base 5000 w3 = Some (r, w')"
proof -
  obtain r1 ctx w1 where init: "pcie_ring_ctx_init K base map_size zero_ring_ctx w = ((r1, ctx), w1)"
    by (metis prod.exhaust)
  note assms1 = assms [unfolded xfer_user_body_def Let_def init split_beta fst_conv snd_conv]
  show thesis
  proof (cases "r1 = 0")
    case False
    with assms1 init that(1) show thesis by (auto simp: Let_def)
  next
    case True
    with assms1 obtain r2 ctx2 w2 where
      chunks: "xfer_chunks K (user_base + img_offset img) (img_length img) (pcie_fw_load_addr (img_type img))
         (padded_len (img_length img)) 0 (k_junk K 512) ctx w1 = Some ((r2, ctx2), w2)"
      by (auto simp: bind_eq_Some_conv)
    show thesis
    proof (cases "r2 = 0")
      case False
      with True assms1 init chunks that(2) show thesis by auto
    next
      case r2: True
      with True assms1 chunks obtain r3 ctx3 w3 where
        cmd: "pcie_ring_post_cmd K ctx2 (tail_cmd (img_type img)) (tail_size (img_type img) (img_length img))
         (pcie_fw_load_addr (img_type img)) w2 = Some ((r3, ctx3), w3)"
        by (auto simp: bind_eq_Some_conv)
      show thesis
      proof (cases "r3 = 0")
        case False
        with True r2 assms1 init chunks cmd that(3) show thesis by auto
      next
        case r3: True
        with True r2 assms1 init chunks cmd that(4) show thesis by auto
      qed
    qed
  qed
qed

lemma xfer_user_cases:
  assumes "pcie_ring_xfer_user K base map_size user_base img w = Some (r, w')"
  obtains (nomem) "r = - ENOMEM" "iow w' = iow w"
      "rcalls w' = rcalls w @ [(KC_kmalloc 512, 0), (KC_kfree, fst (kcall K KC_kfree (snd (kcall K (KC_kmalloc 512) w))))]"
  | (run) p w1 w2 where "kcall K (KC_kmalloc 512) w = (p, w1)" "p \<noteq> 0"
      "xfer_user_body K base map_size user_base img w1 = Some (r, w2)" "w' = kdo K KC_kfree w2"
proof -
  obtain p w1 where km: "kcall K (KC_kmalloc 512) w = (p, w1)" by (metis prod.exhaust)
  note fr = rcalls_frame(6) [of K "KC_kmalloc 512" w] kcall_frame(1) [of K "KC_kmalloc 512" w]
  show thesis
  proof (cases "p = 0")
    case True
    with assms km fr that(1) show thesis
      by (auto simp: pcie_ring_xfer_user_def kframe)
  next
    case False
    with assms km that(2) show thesis
      by (auto simp: pcie_ring_xfer_user_def bind_eq_Some_conv)
  qed
qed

lemma padding:
  assumes "unat len + 15 < 2 ^ 64"
  shows "unat len \<le> unat (padded_len len)" "unat (padded_len len) - unat len < 16"
    "16 dvd unat (padded_len len)"
proof -
  have "unat (padded_len len) = (unat len + 15) div 16 * 16" by (rule padded_len_unat) (rule assms)
  moreover have "(unat len + 15) mod 16 + (unat len + 15) div 16 * 16 = unat len + 15" by simp
  moreover have "(unat len + 15) mod 16 < 16" by simp
  ultimately show "unat len \<le> unat (padded_len len)" "unat (padded_len len) - unat len < 16"
    "16 dvd unat (padded_len len)"
    by (linarith, linarith, simp)
qed

text \<open>The number of descriptors and of data blocks, as a transfer reads them first.\<close>

definition ring_geometry :: "'d kernel \<Rightarrow> u64 \<Rightarrow> 'd world \<Rightarrow> u32 \<times> u32" where
  "ring_geometry K base w =
     (let (num, w1) = pcie_ring_r32 K base RH_NUM_OFF w
      in (num, fst (pcie_ring_r32 K base RH_MAX_BLK_OFF w1)))"

lemma ctx_init_geometry:
  assumes "pcie_ring_ctx_init K base map_size ctx w = ((0, ctx'), w')"
  shows "ring_geometry K base w = (rc_num ctx', rc_max_blk ctx')"
  using assms
  by (auto simp: pcie_ring_ctx_init_def ring_geometry_def Let_def case_prod_beta split: if_splits)

lemma tail_cmd_not_data [simp]: "tail_cmd type \<noteq> RING_CMD_DATA"
  by (simp add: tail_cmd_def abi)

text \<open>The messages of an image: its blocks, then the command that announces its address.\<close>

definition transfer_msgs :: "amba_pci_fw_image_desc \<Rightarrow> u8 list \<Rightarrow> ring_msg list" where
  "transfer_msgs img bs =
     image_msgs (pcie_fw_load_addr (img_type img)) bs @
     [MCmd (tail_cmd (img_type img)) (tail_size (img_type img) (img_length img)) (pcie_fw_load_addr (img_type img))]"

lemma ctx_init_trace:
  assumes "pcie_ring_ctx_init K base map_size ctx w = ((0, ctx'), w')"
  shows "\<exists>es. w_trc w' = w_trc w @ es \<and> Readl (base + RH_NUM_OFF) (rc_num ctx') \<in> set es \<and>
    hands any_view base es [] (tracks ctx')"
proof -
  from assms have "w_trc w' = w_trc w @ [Readl (base + 16) (rc_num ctx'), Readl (base + 20) (rc_max_blk ctx'),
      Readl (base + 8) (rc_cur_avail ctx' + rc_num ctx')]"
    by (auto simp: pcie_ring_ctx_init_def Let_def case_prod_beta r32_trc split: if_splits)
  moreover have "hands any_view base [Readl (base + 16) (rc_num ctx'), Readl (base + 20) (rc_max_blk ctx'),
      Readl (base + 8) (rc_cur_avail ctx' + rc_num ctx')] [] (tracks ctx')"
    using hands_open [of any_view base "rc_num ctx'" "rc_max_blk ctx'" "rc_cur_avail ctx' + rc_num ctx'" ctx'] by simp
  ultimately show ?thesis by (intro exI conjI) simp_all
qed

lemma xfer_user_body_hands:
  assumes "xfer_user_body K base map_size user_base img w = Some (0, w')"
    and "length (k_junk K 512) = 512" and "ring_geometry K base w = (num, mb)"
  shows "\<exists>es bs. w_trc w' = w_trc w @ es \<and> Readl (base + RH_NUM_OFF) num \<in> set es \<and>
    image_at K (user_base + img_offset img) (unat (img_length img)) 0 (unat (padded_len (img_length img))) = Some bs \<and>
    (num \<le> 21 \<longrightarrow> hands any_view base es (transfer_msgs img bs) any_view)"
  using assms(1)
proof (cases rule: xfer_user_body_cases)
  case (poll ctx w1 ctx2 w2 ctx3 w3)
  let ?load = "pcie_fw_load_addr (img_type img)"
  from ctx_init_result(4) [OF poll(1)] ctx_init_geometry [OF poll(1)] assms(3)
  have ctx: "rc_base ctx = base" "rc_num ctx \<noteq> 0" "rc_max_blk ctx \<noteq> 0" "rc_num ctx = num" by auto
  obtain e0 where e0: "w_trc w1 = w_trc w @ e0" "Readl (base + RH_NUM_OFF) num \<in> set e0" "hands any_view base e0 [] (tracks ctx)"
    using ctx_init_trace [OF poll(1)] unfolding ctx(4) by blast
  obtain e1 bs where e1: "rc_base ctx2 = base" "w_trc w2 = w_trc w1 @ e1"
    "image_at K (user_base + img_offset img) (unat (img_length img)) 0 (unat (padded_len (img_length img))) = Some bs"
    "num \<le> 21 \<longrightarrow> hands (tracks ctx) base e1 (image_msgs ?load bs) (tracks ctx2)"
    using xfer_chunks_ok [OF poll(2) _ assms(2) ctx(2,3)] unfolding ctx(1,4) by auto
  obtain e2 where e2: "w_trc w3 = w_trc w2 @ e2" "hands (tracks ctx2) base e2
      [MCmd (tail_cmd (img_type img)) (tail_size (img_type img) (img_length img)) ?load] any_view"
    using post_cmd_hands [OF poll(3) tail_cmd_not_data] unfolding e1(1) by blast
  obtain e3 where e3: "w_trc w' = w_trc w3 @ e3" "\<forall>e \<in> set e3. \<not> is_iow e"
    using xfer_poll_quiet [OF poll(4)] unfolding did_def by blast
  have "hands any_view base (e0 @ e1 @ e2 @ e3) (transfer_msgs img bs) any_view" if "num \<le> 21"
    using hands_append [OF hands_append [OF hands_append [OF e0(3) e1(4) [rule_format, OF that]] e2(2)] hands_no_write [OF e3(2)]]
    by (simp add: transfer_msgs_def)
  moreover have "w_trc w' = w_trc w @ e0 @ e1 @ e2 @ e3" using e0(1) e1(2) e2(1) e3(1) by simp
  moreover have "Readl (base + RH_NUM_OFF) num \<in> set (e0 @ e1 @ e2 @ e3)" using e0(2) by simp
  ultimately show ?thesis using e1(3) by blast
qed simp_all

text \<open>The same for a whole transfer.\<close>

lemma xfer_user_hands:
  assumes ok: "pcie_ring_xfer_user K base map_size user_base img w = Some (0, w')"
    and junk: "length (k_junk K 512) = 512"
    and geo: "ring_geometry K base (snd (kcall K (KC_kmalloc 512) w)) = (num, mb)"
  obtains es bs where "w_trc w' = w_trc w @ es" "Readl (base + RH_NUM_OFF) num \<in> set es"
    "image_at K (user_base + img_offset img) (unat (img_length img)) 0 (unat (padded_len (img_length img))) = Some bs"
    "num \<le> 21 \<longrightarrow> hands any_view base es (transfer_msgs img bs) any_view"
  using ok
proof (cases rule: xfer_user_cases)
  case nomem
  then show ?thesis by simp
next
  case (run p w1 w2)
  with geo have "ring_geometry K base w1 = (num, mb)" by simp
  from xfer_user_body_hands [OF run(3) junk this] obtain es bs where
    d: "w_trc w2 = w_trc w1 @ es" "Readl (base + RH_NUM_OFF) num \<in> set es"
      "image_at K (user_base + img_offset img) (unat (img_length img)) 0 (unat (padded_len (img_length img))) = Some bs"
      "num \<le> 21 \<longrightarrow> hands any_view base es (transfer_msgs img bs) any_view"
    by blast
  obtain c1 c2 where c: "w_trc w1 = w_trc w @ [Call (KC_kmalloc 512) c1]" "w_trc w' = w_trc w2 @ [Call KC_kfree c2]"
    using run(1,4) kcall_trc [of K "KC_kmalloc 512" w] kdo_trc [of K KC_kfree w2] by simp
  from c d(1) have t: "w_trc w' = w_trc w @ [Call (KC_kmalloc 512) c1] @ es @ [Call KC_kfree c2]" by simp
  have "hands any_view base ([Call (KC_kmalloc 512) c1] @ es @ [Call KC_kfree c2]) ([] @ transfer_msgs img bs @ []) any_view"
    if "num \<le> 21"
    by (rule hands_append [OF hands_no_write hands_append [OF d(4) [rule_format, OF that] hands_no_write]]) simp_all
  then show ?thesis using that [OF t _ d(3)] d(2) by simp
qed

text \<open>With the image read from user memory and its padding apart.\<close>

lemma padded_image:
  assumes "image_at K src (unat len) 0 (unat (padded_len len)) = Some bs" "unat len + 15 < 2 ^ 64"
  obtains data pad where "copy_from_user K src (unat len) = Some data" "bs = data @ replicate pad 0"
    "pad < 16" "16 dvd length data + pad"
proof -
  note pad = padding [OF assms(2)]
  from assms(1) pad(1) obtain data where
    data: "copy_from_user K src (unat len) = Some data" "bs = data @ replicate (unat (padded_len len) - unat len) 0"
    by (auto simp: image_at_full min_absorb2)
  show thesis by (rule that [OF data pad(2)]) (use copy_from_user_length [OF data(1)] pad(1,3) in simp)
qed

lemma transfer_msgs_apply: "ep_apply (transfer_msgs img bs) m = write_bytes m (pcie_fw_load_addr (img_type img)) bs"
  by (simp add: transfer_msgs_def ep_apply_append image_msgs_apply)

text \<open>C4: A transfer that returns 0 has delivered the image. An endpoint that looks up each message
  by address, in the descriptor of its own position and in the block that descriptor names, finds
  exactly this: blocks of 512 bytes to the load address of the image's type and the addresses
  after it, the last one shorter, whose bytes are the image's own bytes read from the caller,
  followed by fewer than 16 zero bytes up to a multiple of 16; then the one command that announces
  the load address. Applied in order the blocks store the padded image at the load address. The
  old contents of the kernel's chunk buffer never reach the endpoint. Two conditions the code does
  not check: the length is at least 16 below \<open>2^64\<close>, and the header announces at most 21
  descriptors, as many as fit before the first block.\<close>

theorem xfer_user_delivers_image:
  assumes ok: "pcie_ring_xfer_user K base map_size user_base img w = Some (0, w')"
    and junk: "length (k_junk K 512) = 512"
    and len: "unat (img_length img) + 15 < 2 ^ 64"
    and geo: "ring_geometry K base (snd (kcall K (KC_kmalloc 512) w)) = (num, mb)" "num \<le> 21"
  shows "\<exists>evs data pad. w_trc w' = w_trc w @ evs \<and>
    copy_from_user K (user_base + img_offset img) (unat (img_length img)) = Some data \<and>
    pad < 16 \<and> 16 dvd length data + pad \<and>
    (\<forall>m. ring_msgs base evs m =
       image_msgs (pcie_fw_load_addr (img_type img)) (data @ replicate pad 0) @
       [MCmd (tail_cmd (img_type img)) (tail_size (img_type img) (img_length img)) (pcie_fw_load_addr (img_type img))]) \<and>
    (\<forall>m m0. ep_apply (ring_msgs base evs m0) m =
       write_bytes m (pcie_fw_load_addr (img_type img)) (data @ replicate pad 0))"
proof -
  from ok junk geo(1) obtain evs bs where d: "w_trc w' = w_trc w @ evs" "Readl (base + RH_NUM_OFF) num \<in> set evs"
    "image_at K (user_base + img_offset img) (unat (img_length img)) 0 (unat (padded_len (img_length img))) = Some bs"
    "num \<le> 21 \<longrightarrow> hands any_view base evs (transfer_msgs img bs) any_view"
    by (rule xfer_user_hands)
  from d(3) len obtain data pad where
    "copy_from_user K (user_base + img_offset img) (unat (img_length img)) = Some data" "bs = data @ replicate pad 0"
    "pad < 16" "16 dvd length data + pad" by (rule padded_image)
  with d(1) show ?thesis
    using hands_msgs [OF d(4) [rule_format, OF geo(2)]] transfer_msgs_apply unfolding transfer_msgs_def by metis
qed

text \<open>The concrete transfer of the witnesses: a device tree of five bytes.\<close>

definition demo_img :: amba_pci_fw_image_desc where
  "demo_img = \<lparr>img_type = AMBA_PCI_FW_IMAGE_DTB, img_reserved = 0, img_offset = 0, img_length = 5\<rparr>"

lemma demo_chunk_size: "chunk_size 16 0 = 16"
  by (simp add: chunk_size_def)

lemmas xfer_eval = pcie_ring_xfer_user_def xfer_user_body_def pcie_ring_ctx_init_def demo_eval padded_len_def
  xfer_chunks_step xfer_chunks_done demo_chunk_size fill_chunk_def abi pcie_ring_post_data_def
  pcie_ring_post_cmd_def wait_u32_loop.simps write_desc_def bump_used_def pcie_ring_desc_def
  pcie_ring_data_blk_def pcie_fw_load_addr_def xfer_poll_loop.simps

lemma demo_xfer:
  "\<exists>w'. pcie_ring_xfer_user demo_kernel 0x10000 0x10000 0x1000 demo_img demo_world = Some (0, w')"
  by (simp add: xfer_eval demo_img_def)

lemma demo_junk: "length (k_junk demo_kernel 512) = 512"
  by simp

lemma demo_geometry: "ring_geometry demo_kernel 0x10000 (snd (kcall demo_kernel (KC_kmalloc 512) demo_world)) = (4, 4)"
  by (simp add: ring_geometry_def demo_eval)

theorem xfer_user_delivers_image_witness:
  "\<exists>w' evs data pad. pcie_ring_xfer_user demo_kernel 0x10000 0x10000 0x1000 demo_img demo_world = Some (0, w') \<and>
     w_trc w' = w_trc demo_world @ evs \<and> data = [0, 1, 2, 3, 4] \<and> pad < 16 \<and> 16 dvd length data + pad \<and>
     (\<forall>m. ring_msgs 0x10000 evs m =
        image_msgs AMBA_PCI_FW_DTB_LOAD_ADDR (data @ replicate pad 0) @ [MCmd RING_CMD_SET_DTB_ADDR 0 AMBA_PCI_FW_DTB_LOAD_ADDR])"
proof -
  obtain w' where ok: "pcie_ring_xfer_user demo_kernel 0x10000 0x10000 0x1000 demo_img demo_world = Some (0, w')"
    using demo_xfer by blast
  have len: "unat (img_length demo_img) + 15 < 2 ^ 64" by (simp add: demo_img_def)
  have "(4 :: u32) \<le> 21" by simp
  from xfer_user_delivers_image [OF ok demo_junk len demo_geometry this] obtain evs data pad where
    "w_trc w' = w_trc demo_world @ evs" "copy_from_user demo_kernel (0x1000 + img_offset demo_img) (unat (img_length demo_img)) = Some data"
    "pad < 16" "16 dvd length data + pad"
    "\<forall>m. ring_msgs 0x10000 evs m =
       image_msgs (pcie_fw_load_addr (img_type demo_img)) (data @ replicate pad 0) @
       [MCmd (tail_cmd (img_type demo_img)) (tail_size (img_type demo_img) (img_length demo_img))
          (pcie_fw_load_addr (img_type demo_img))]" by blast
  moreover from this(2) have "data = [0, 1, 2, 3, 4]" by (simp add: demo_img_def copy_from_user_numeral demo_eval)
  ultimately show ?thesis
    using ok by (simp add: demo_img_def pcie_fw_load_addr_def tail_cmd_def tail_size_def abi) blast
qed

subsection \<open>Confinement\<close>

lemma xfer_user_body_writes:
  assumes "xfer_user_body K base map_size user_base img w = Some (r, w')"
    and "length (k_junk K 512) = 512" and geo: "ring_geometry K base w = (num, max_blk)"
  shows "rcalls w' = rcalls w \<and> r \<in> {0, - EINVAL, - EFAULT, - ETIMEDOUT} \<and>
    (\<exists>es. iow w' = iow w @ es \<and>
      (\<forall>e \<in> set es. ring_write_ok base num max_blk e \<and> ucast (max_blk + 1) * ucast RING_BLOCK_SIZE \<le> map_size))"
  using assms(1)
proof (cases rule: xfer_user_body_cases)
  case (init ctx)
  from ctx_init_result [OF init(1)] init(2) show ?thesis by auto
next
  case (chunks ctx w1 ctx2)
  note i = ctx_init_result [OF chunks(1)] ctx_init_geometry [OF chunks(1)]
  from i(4,5) geo have ctx: "rc_base ctx = base" "rc_num ctx = num" "rc_max_blk ctx = max_blk"
    "num \<noteq> 0" "max_blk \<noteq> 0" "ucast (max_blk + 1) * ucast RING_BLOCK_SIZE \<le> map_size" by auto
  from xfer_chunks_writes [OF chunks(2) assms(2)] ctx i(1,2) show ?thesis by auto
next
  case (cmd ctx w1 ctx2 w2 ctx3)
  note i = ctx_init_result [OF cmd(1)] ctx_init_geometry [OF cmd(1)]
  from i(4,5) geo have ctx: "rc_base ctx = base" "rc_num ctx = num" "rc_max_blk ctx = max_blk"
    "num \<noteq> 0" "max_blk \<noteq> 0" "ucast (max_blk + 1) * ucast RING_BLOCK_SIZE \<le> map_size" by auto
  from xfer_chunks_writes [OF cmd(2) assms(2)] ctx i(1,2) post_cmd_result(1,2) [OF cmd(3)] cmd(4)
  show ?thesis by auto
next
  case (poll ctx w1 ctx2 w2 ctx3 w3)
  note i = ctx_init_result [OF poll(1)] ctx_init_geometry [OF poll(1)]
  from i(4,5) geo have ctx: "rc_base ctx = base" "rc_num ctx = num" "rc_max_blk ctx = max_blk"
    "num \<noteq> 0" "max_blk \<noteq> 0" "ucast (max_blk + 1) * ucast RING_BLOCK_SIZE \<le> map_size" by auto
  from xfer_chunks_writes [OF poll(2) assms(2)] ctx i(1,2) obtain es where
    c: "rcalls w2 = rcalls w" "same_window ctx ctx2" "iow w2 = iow w @ es"
      "\<forall>e \<in> set es. ring_write_ok base num max_blk e" by auto
  from c(2) ctx have ctx2: "rc_base ctx2 = base" "rc_num ctx2 = num" by (simp_all add: same_window_def)
  from post_cmd_result(3) [OF poll(3)] obtain u where
    p: "iow w3 = iow w2 @ desc_writes (ring_desc_of ctx2) (tail_cmd (img_type img))
          (tail_size (img_type img) (img_length img)) (pcie_fw_load_addr (img_type img)) 0 @ [Writel (base + 12) u]"
    using ctx2 by auto
  have "\<forall>e \<in> set (desc_writes (ring_desc_of ctx2) (tail_cmd (img_type img))
      (tail_size (img_type img) (img_length img)) (pcie_fw_load_addr (img_type img)) 0).
      ring_write_ok base num max_blk e"
    using desc_writes_ok [of ctx2] ctx ctx2 by simp
  with p c ctx xfer_poll_result [OF poll(4)] post_cmd_result(1) [OF poll(3)]
  show ?thesis by auto
qed

text \<open>Where a write lands, relative to the base of the mapping.\<close>

fun in_window :: "u64 \<Rightarrow> nat \<Rightarrow> event \<Rightarrow> bool" where
  "in_window base sz (Writel a v) = (\<exists>off. a = base + of_nat off \<and> 12 \<le> off \<and> off + 4 \<le> 512)"
| "in_window base sz (MemcpyToio a bs) =
     (\<exists>off. a = base + of_nat off \<and> 512 \<le> off \<and> off + length bs \<le> sz)"
| "in_window base sz e = False"

lemma ring_write_in_window:
  assumes ok: "ring_write_ok base num max_blk e" and num: "num \<le> 21" and mb: "max_blk \<noteq> 0xffffffff"
    and fit: "ucast (max_blk + 1) * ucast RING_BLOCK_SIZE \<le> (map_size :: u64)"
  shows "in_window base (unat map_size) e"
proof (cases e)
  case (Writel a v)
  have n: "unat num \<le> 21" using num by (simp add: word_le_nat_alt)
  from ok Writel consider "a = base + of_nat 12"
    | slot k where "slot < unat num" "k < 5" "a = base + of_nat (80 + 20 * slot + 4 * k)" by auto
  then show ?thesis
  proof cases
    case 1
    then show ?thesis unfolding Writel in_window.simps by (intro exI [of _ 12]) simp
  next
    case 2
    with n show ?thesis unfolding Writel in_window.simps
      by (intro exI [of _ "80 + 20 * slot + 4 * k"]) simp
  qed
next
  case (MemcpyToio a bs)
  with ok obtain blk where b: "blk < unat max_blk" "a = base + of_nat ((blk + 1) * 512)" "length bs \<le> 512"
    by auto
  have "unat max_blk \<noteq> unat (0xffffffff :: u32)" using mb by (simp only: word_unat_eq_iff [symmetric]) simp
  then have "unat (max_blk + 1) = unat max_blk + 1"
    using unat_u32_less [of max_blk] by (subst unat_add_no_wrap) simp_all
  moreover have "unat (ucast (max_blk + 1) * (ucast RING_BLOCK_SIZE :: u64)) = unat (max_blk + 1) * 512"
    using unat_u32_less [of "max_blk + 1"] by (simp add: unat_word_ariths)
  ultimately have "(unat max_blk + 1) * 512 \<le> unat map_size"
    using fit by (simp add: word_le_nat_alt)
  moreover have "(blk + 1) * 512 + 512 \<le> (unat max_blk + 1) * 512" using b(1) by simp
  ultimately show ?thesis unfolding MemcpyToio in_window.simps
    using b by (intro exI [of _ "(blk + 1) * 512"]) simp
qed (use ok in simp_all)

text \<open>C14: Every I/O write of a transfer, successful or not, stays inside the mapped BAR: header and
  descriptor words inside the first 512-byte block, data inside the following blocks and below the
  mapped size, provided the header announces at most 21 descriptors and not the block count
  0xffffffff. The code checks neither; what happens then is the next theorem.\<close>

theorem xfer_user_confined:
  assumes "pcie_ring_xfer_user K base map_size user_base img w = Some (r, w')"
    and "length (k_junk K 512) = 512"
    and "ring_geometry K base (snd (kcall K (KC_kmalloc 512) w)) = (num, max_blk)"
    and "num \<le> 21" and "max_blk \<noteq> 0xffffffff"
  shows "\<exists>es. iow w' = iow w @ es \<and> (\<forall>e \<in> set es. in_window base (unat map_size) e)"
  using assms(1)
proof (cases rule: xfer_user_cases)
  case nomem
  then show ?thesis by simp
next
  case (run p w1 w2)
  from run(1) assms(3) have "ring_geometry K base w1 = (num, max_blk)" by simp
  from xfer_user_body_writes [OF run(3) assms(2) this] obtain es where
    "iow w2 = iow w1 @ es"
    "\<forall>e \<in> set es. ring_write_ok base num max_blk e \<and> ucast (max_blk + 1) * ucast RING_BLOCK_SIZE \<le> map_size"
    by blast
  moreover have "iow w' = iow w2" "iow w1 = iow w" using run(4) kcallD [OF run(1)] by (simp_all add: kframe)
  ultimately show ?thesis using ring_write_in_window [OF _ assms(4,5)] by auto
qed

theorem xfer_user_confined_witness:
  "\<exists>w' es. pcie_ring_xfer_user demo_kernel 0x10000 0x10000 0x1000 demo_img demo_world = Some (0, w') \<and>
     iow w' = iow demo_world @ es \<and> (\<forall>e \<in> set es. in_window 0x10000 (unat (0x10000 :: u64)) e)"
proof -
  obtain w' where ok: "pcie_ring_xfer_user demo_kernel 0x10000 0x10000 0x1000 demo_img demo_world = Some (0, w')"
    using demo_xfer by blast
  from xfer_user_confined [OF ok demo_junk demo_geometry] ok show ?thesis by auto
qed

text \<open>C25: The bound check of \<open>pcie_ring_ctx_init\<close> adds 1 to \<open>max_blk\<close> in 32 bits: an endpoint that
  announces 0xffffffff blocks is accepted for a mapping of any size, and the blocks the driver
  then fills run on without bound, block \<open>n\<close> at offset \<open>(n + 1) * 512\<close>. The number of descriptors
  is not checked at all: descriptor 21 already reaches into the first data block.\<close>

theorem ctx_init_accepts_wrapped_max_blk:
  assumes "ring_geometry K base w = (num, 0xffffffff)" and "num \<noteq> 0"
  shows "\<exists>ctx' w'. pcie_ring_ctx_init K base map_size ctx w = ((0, ctx'), w') \<and>
    (\<forall>n < 0xffffffff. ring_blk_of (ctx'\<lparr>rc_cur_blk := n\<rparr>) = base + of_nat ((unat n + 1) * 512)) \<and>
    (21 < num \<longrightarrow> ring_desc_of (ctx'\<lparr>rc_cur_avail := 21\<rparr>) + 16 = base + 516)"
proof -
  obtain v1 w1 where r1: "pcie_ring_r32 K base RH_NUM_OFF w = (v1, w1)" by (metis prod.exhaust)
  obtain v2 w2 where r2: "pcie_ring_r32 K base RH_MAX_BLK_OFF w1 = (v2, w2)" by (metis prod.exhaust)
  obtain v3 w3 where r3: "pcie_ring_r32 K base RH_AVAIL_OFF w2 = (v3, w3)" by (metis prod.exhaust)
  from assms(1) r1 r2 have v: "v1 = num" "v2 = 0xffffffff" by (simp_all add: ring_geometry_def)
  let ?ctx = "ctx\<lparr>rc_base := base, rc_num := num, rc_max_blk := 0xffffffff, rc_cur_avail := v3 - num, rc_cur_blk := 0\<rparr>"
  have init: "pcie_ring_ctx_init K base map_size ctx w = ((0, ?ctx), w3)"
    using r1 r2 r3 v assms(2) unfolding pcie_ring_ctx_init_def by (simp only: Let_def prod.case) simp
  have blk: "ring_blk_of (?ctx\<lparr>rc_cur_blk := n\<rparr>) = base + of_nat ((unat n + 1) * 512)"
    if n: "n < 0xffffffff" for n
  proof -
    have "n mod 0xffffffff = n" using n by (simp add: mod_word_less)
    moreover have "unat (n + 1) = unat n + 1"
      using n by (subst unat_add_no_wrap) (simp_all add: word_less_nat_alt)
    then have "(ucast (n + 1) :: u64) = of_nat (unat n + 1)"
      using of_nat_unat_32_64 [of "n + 1"] by (simp only:)
    ultimately show ?thesis
      by (simp add: ring_blk_of_def pcie_ring_data_blk_def pcie_ring_ptr_def)
  qed
  have "ring_desc_of (?ctx\<lparr>rc_cur_avail := 21\<rparr>) + 16 = base + 516" if "21 < num"
  proof -
    have "21 mod num = 21" using that by (simp add: mod_word_less)
    then show ?thesis by (simp add: ring_desc_of_def pcie_ring_desc_def pcie_ring_ptr_def)
  qed
  with init blk show ?thesis by blast
qed

theorem ctx_init_accepts_wrapped_max_blk_witness:
  "\<exists>K :: nat kernel. ring_geometry K 0x10000 demo_world = (30, 0xffffffff) \<and>
     (\<exists>ctx' w'. pcie_ring_ctx_init K 0x10000 4096 zero_ring_ctx demo_world = ((0, ctx'), w') \<and>
       ring_blk_of (ctx'\<lparr>rc_cur_blk := 8\<rparr>) = 0x10000 + 4608 \<and>
       ring_desc_of (ctx'\<lparr>rc_cur_avail := 21\<rparr>) + 16 = 0x10000 + 516)"
proof -
  let ?K = "demo_kernel\<lparr>k_ep := \<lambda>d m. (d, demo_header 30 0xffffffff)\<rparr>"
  have geo: "ring_geometry ?K 0x10000 demo_world = (30, 0xffffffff)"
    by (simp add: ring_geometry_def demo_eval demo_header_def to_le_4 read_bytes_4)
  obtain ctx' w' where
    "pcie_ring_ctx_init ?K 0x10000 4096 zero_ring_ctx demo_world = ((0, ctx'), w')"
    "\<forall>n < 0xffffffff. ring_blk_of (ctx'\<lparr>rc_cur_blk := n\<rparr>) = 0x10000 + of_nat ((unat n + 1) * 512)"
    "ring_desc_of (ctx'\<lparr>rc_cur_avail := 21\<rparr>) + 16 = 0x10000 + 516"
    using ctx_init_accepts_wrapped_max_blk [OF geo, of 4096 zero_ring_ctx] by auto
  with geo show ?thesis by (intro exI [of _ ?K]) (auto dest: spec [of _ 8])
qed

text \<open>The padded length is computed as \<open>(length + 15) & ~15\<close> in 64 bits and wraps to 0 for a length
  within 15 of \<open>2^64\<close>.\<close>

lemma padded_len_wraps:
  assumes "2 ^ 64 \<le> unat len + 15"
  shows "padded_len len = 0"
proof -
  have "unat (len + 15) = unat len + 15 - 2 ^ 64"
    using assms unat_u64_less [of len] by (simp add: unat_word_ariths le_mod_geq)
  then have "unat (len + 15) < 15" using unat_u64_less [of len] by simp
  then have small: "len + 15 < 16" by (simp add: word_less_nat_alt)
  have mask: "(15 :: u64) = mask 4" by (simp add: mask_eq_exp_minus_1)
  have "x AND NOT 15 = push_bit 4 (drop_bit 4 x)" for x :: u64
    unfolding mask by (rule bit_eqI) (auto simp: bit_simps)
  then show ?thesis
    using small by (simp add: padded_len_def push_bit_eq_mult drop_bit_eq_div div_word_less)
qed

subsection \<open>Results and resources\<close>

lemma xfer_user_rcalls:
  assumes "pcie_ring_xfer_user K base map_size user_base img w = Some (r, w')"
    and "length (k_junk K 512) = 512"
  shows "r \<in> {0, - ENOMEM, - EINVAL, - EFAULT, - ETIMEDOUT} \<and>
    (\<exists>p q. rcalls w' = rcalls w @ [(KC_kmalloc 512, p), (KC_kfree, q)] \<and> (p = 0 \<longleftrightarrow> r = - ENOMEM))"
  using assms(1)
proof (cases rule: xfer_user_cases)
  case nomem
  then show ?thesis by auto
next
  case (run p w1 w2)
  obtain num max_blk where geo: "ring_geometry K base w1 = (num, max_blk)" by (metis prod.exhaust)
  from xfer_user_body_writes [OF run(3) assms(2) geo]
  have w2: "rcalls w2 = rcalls w1" "r \<in> {0, - EINVAL, - EFAULT, - ETIMEDOUT}" by blast+
  have "rcalls w1 = rcalls w @ [(KC_kmalloc 512, p)]"
    using rcalls_frame(6) [of K "KC_kmalloc 512" w] run(1) by simp
  moreover have "rcalls w' = rcalls w2 @ [(KC_kfree, fst (kcall K KC_kfree w2))]"
    using run(4) by (simp add: kframe)
  ultimately show ?thesis using w2 run(2) by auto
qed

text \<open>C16: A transfer returns 0 or one of ENOMEM, EINVAL, EFAULT, ETIMEDOUT, and on every path the
  chunk buffer it allocated is freed exactly once, after everything else.\<close>

theorem xfer_user_result:
  assumes "pcie_ring_xfer_user K base map_size user_base img w = Some (r, w')"
    and "length (k_junk K 512) = 512"
  shows "r \<in> {0, - ENOMEM, - EINVAL, - EFAULT, - ETIMEDOUT} \<and>
    (\<exists>p q. rcalls w' = rcalls w @ [(KC_kmalloc 512, p), (KC_kfree, q)] \<and> (p = 0 \<longleftrightarrow> r = - ENOMEM))"
  using assms by (rule xfer_user_rcalls)

theorem xfer_user_result_witness:
  "\<exists>r w' p q. pcie_ring_xfer_user demo_kernel 0x10000 0x10000 0x1000 demo_img demo_world = Some (r, w') \<and>
     r = 0 \<and> rcalls w' = rcalls demo_world @ [(KC_kmalloc 512, p), (KC_kfree, q)] \<and> p \<noteq> 0"
proof -
  obtain w' where ok: "pcie_ring_xfer_user demo_kernel 0x10000 0x10000 0x1000 demo_img demo_world = Some (0, w')"
    using demo_xfer by blast
  from xfer_user_result [OF ok demo_junk] ok show ?thesis by auto
qed

lemma xfer_user_total:
  assumes "steady_clock K us tick" and "length (k_junk K 512) = 512"
  shows "\<exists>r w'. pcie_ring_xfer_user K base map_size user_base img w = Some (r, w')"
proof -
  have body: "\<exists>r w'. xfer_user_body K base map_size user_base img w1 = Some (r, w')" for w1
  proof -
    obtain r1 ctx w2 where init: "pcie_ring_ctx_init K base map_size zero_ring_ctx w1 = ((r1, ctx), w2)"
      by (metis prod.exhaust)
    obtain r2 ctx2 w3 where chunks:
      "xfer_chunks K (user_base + img_offset img) (img_length img) (pcie_fw_load_addr (img_type img))
         (padded_len (img_length img)) 0 (k_junk K 512) ctx w2 = Some ((r2, ctx2), w3)"
      using xfer_chunks_returns [OF assms] by blast
    obtain r3 ctx3 w4 where cmd:
      "pcie_ring_post_cmd K ctx2 (tail_cmd (img_type img)) (tail_size (img_type img) (img_length img))
         (pcie_fw_load_addr (img_type img)) w3 = Some ((r3, ctx3), w4)"
      using post_cmd_returns [OF assms(1)] by blast
    obtain r4 w5 where "pcie_ring_xfer_poll K base 5000 w4 = Some (r4, w5)"
      using xfer_poll_returns [OF assms(1)] by blast
    with init chunks cmd show ?thesis
      unfolding xfer_user_body_def by (simp add: Let_def)
  qed
  obtain p w1 where km: "kcall K (KC_kmalloc (unat RING_BLOCK_SIZE)) w = (p, w1)" by (metis prod.exhaust)
  obtain r w2 where "xfer_user_body K base map_size user_base img w1 = Some (r, w2)" using body by blast
  with km show ?thesis unfolding pcie_ring_xfer_user_def by simp
qed

text \<open>C15: On a kernel whose clock moves on, an image transfer always returns, whatever the endpoint
  does: the chunk loop is bounded by the image and every wait by its timeout.\<close>

theorem xfer_user_returns:
  assumes "steady_clock K us tick" and "length (k_junk K 512) = 512"
  shows "\<exists>r w'. pcie_ring_xfer_user K base map_size user_base img w = Some (r, w')"
  using assms by (rule xfer_user_total)

theorem xfer_user_returns_witness:
  "\<exists>r w'. pcie_ring_xfer_user demo_kernel 0 0 0 demo_img demo_world = Some (r, w')"
  by (rule xfer_user_returns [OF demo_steady demo_junk])

end
