(* ===== verification/Abi_Codec.thy ===== *)
theory Abi_Codec
  imports Amba_Ioctl_Abi Kernel_Model
begin

section \<open>The ABI structs as bytes\<close>

text \<open>
  The byte image of a struct by the C layout rule (each field at its aligned offset, padding in
  between and at the end), for any field list; the decoders of \<open>Amba_Ioctl_Abi\<close>, which read at
  fixed offsets, invert it, and the encoders produce it. The last part is user memory given as a
  byte list, where a copied struct is what was laid out there.
\<close>

fun lay_out :: "nat \<Rightarrow> cfield list \<Rightarrow> u8 list list \<Rightarrow> u8 list" where
  "lay_out p ((sz, al) # fs) (v # vs) = replicate (align_up al p - p) 0 @ v @ lay_out (align_up al p + sz) fs vs"
| "lay_out p fs vs = []"

definition struct_bytes :: "cfield list \<Rightarrow> u8 list list \<Rightarrow> u8 list" where
  "struct_bytes fs vs = (let bs = lay_out 0 fs vs in bs @ replicate (size_of fs - length bs) 0)"

definition fw_image_bytes :: "amba_pci_fw_image_desc \<Rightarrow> u8 list" where
  "fw_image_bytes img = struct_bytes fw_image_desc_layout
     [to_le 4 (img_type img), to_le 4 (img_reserved img), to_le 8 (img_offset img), to_le 8 (img_length img)]"

definition fw_xfer_bytes :: "amba_pci_fw_xfer \<Rightarrow> u8 list" where
  "fw_xfer_bytes req = struct_bytes fw_xfer_layout
     [to_le 4 (fx_slot_id req), to_le 8 (fx_fw_size req), to_le 8 (fx_fw_user_ptr req),
      concat (map fw_image_bytes (fx_images req))]"

definition h2d_file_bytes :: "amba_pci_h2d_send_file \<Rightarrow> u8 list" where
  "h2d_file_bytes req = struct_bytes h2d_send_file_layout
     [to_le 4 (sf_slot_id req), to_le 4 (sf_reserved req), to_le 8 (sf_ep_addr req), sf_path req]"

definition h2d_buffer_bytes :: "amba_pci_h2d_send_buffer \<Rightarrow> u8 list" where
  "h2d_buffer_bytes req = struct_bytes h2d_send_buffer_layout
     [to_le 4 (sb_slot_id req), to_le 4 (sb_reserved req), to_le 8 (sb_src_user_ptr req),
      to_le 8 (sb_size req), to_le 8 (sb_ep_addr req)]"

lemmas slice_eval = slice_append_skip slice_append_here slice_all

lemma fw_image_bytes_eval:
  "fw_image_bytes img = to_le 4 (img_type img) @ to_le 4 (img_reserved img) @
     to_le 8 (img_offset img) @ to_le 8 (img_length img)"
  by (simp add: fw_image_bytes_def struct_bytes_def size_of_abi)
     (simp add: fw_image_desc_layout_def align_up_def)

lemma length_fw_image_bytes [simp]: "length (fw_image_bytes img) = 24"
  by (simp add: fw_image_bytes_eval)

lemma fw_image_round_trip: "fw_image_desc_of_bytes (fw_image_bytes img) = img"
  by (simp add: fw_image_desc_of_bytes_def fw_image_bytes_eval slice_eval)

lemma fw_xfer_bytes_eval:
  "length (fx_images req) = AMBA_PCI_FW_IMAGE_MAX \<Longrightarrow>
   fw_xfer_bytes req = to_le 4 (fx_slot_id req) @ replicate 4 0 @ to_le 8 (fx_fw_size req) @
     to_le 8 (fx_fw_user_ptr req) @ concat (map fw_image_bytes (fx_images req))"
  by (auto simp: fw_xfer_bytes_def struct_bytes_def size_of_abi length_concat comp_def sum_list_triv Let_def)
     (auto simp: fw_xfer_layout_def align_up_def size_of_abi struct_align_def fw_image_desc_layout_def
       length_concat comp_def sum_list_triv)

lemma fw_xfer_round_trip:
  assumes "length (fx_images req) = AMBA_PCI_FW_IMAGE_MAX"
  shows "fw_xfer_of_bytes (fw_xfer_bytes req) = req"
proof -
  from assms obtain a b c where imgs: "fx_images req = [a, b, c]"
    by (auto simp: numeral_3_eq_3 length_Suc_conv)
  show ?thesis
    unfolding fw_xfer_bytes_eval [OF assms] fw_xfer_of_bytes_def imgs
    by (simp add: slice_eval upt_rec fw_image_round_trip imgs)
qed

lemma h2d_file_bytes_eval:
  "length (sf_path req) = AMBA_PCI_PATH_MAX \<Longrightarrow> h2d_file_bytes req =
     to_le 4 (sf_slot_id req) @ to_le 4 (sf_reserved req) @ to_le 8 (sf_ep_addr req) @ sf_path req"
  by (simp add: h2d_file_bytes_def struct_bytes_def size_of_abi Let_def)
     (simp add: h2d_send_file_layout_def align_up_def)

lemma h2d_file_round_trip:
  "length (sf_path req) = AMBA_PCI_PATH_MAX \<Longrightarrow> h2d_send_file_of_bytes (h2d_file_bytes req) = req"
  by (simp add: h2d_send_file_of_bytes_def h2d_file_bytes_eval slice_eval)

lemma h2d_buffer_bytes_eval:
  "h2d_buffer_bytes req = to_le 4 (sb_slot_id req) @ to_le 4 (sb_reserved req) @
     to_le 8 (sb_src_user_ptr req) @ to_le 8 (sb_size req) @ to_le 8 (sb_ep_addr req)"
  by (simp add: h2d_buffer_bytes_def struct_bytes_def size_of_abi Let_def)
     (simp add: h2d_send_buffer_layout_def align_up_def)

lemma h2d_buffer_round_trip: "h2d_send_buffer_of_bytes (h2d_buffer_bytes req) = req"
  by (simp add: h2d_send_buffer_of_bytes_def h2d_buffer_bytes_eval slice_eval)

lemma lengths_of_requests:
  "length (fx_images x) = AMBA_PCI_FW_IMAGE_MAX \<Longrightarrow> length (fw_xfer_bytes x) = 96"
  "length (sf_path f) = AMBA_PCI_PATH_MAX \<Longrightarrow> length (h2d_file_bytes f) = 272"
  "length (h2d_buffer_bytes b) = 32"
  by (simp_all add: fw_xfer_bytes_eval h2d_file_bytes_eval h2d_buffer_bytes_eval length_concat comp_def sum_list_triv)

subsection \<open>Answers\<close>

definition dev_info_ok :: "amba_pci_dev_info \<Rightarrow> bool" where
  "dev_info_ok d \<longleftrightarrow> length (di_dram_type d) = AMBA_PCI_NAME_MAX \<and> length (di_fw_vers d) = AMBA_PCI_NAME_MAX"

lemma dev_info_layout_eval:
  "dev_info_layout = [f_u32, f_u32, f_u32, f_u32, f_u32, f_u32, f_u32, f_u32, f_u32, f_chars 32, f_chars 32]"
  by code_simp

lemma dev_info_laid_out:
  assumes "dev_info_ok d"
  shows "dev_info_to_bytes d = struct_bytes dev_info_layout
    [to_le 4 (di_id d), to_le 4 (di_slot_id d), to_le 4 (dev_state_val (di_state d)), to_le 4 (di_is_valid d),
     to_le 4 (di_ip d), to_le 4 (di_poc d), to_le 4 (di_dram_size_mb d), to_le 4 (di_vendor d),
     to_le 4 (di_device d), di_dram_type d, di_fw_vers d]"
  using assms
  by (simp add: struct_bytes_def size_of_abi dev_info_to_bytes_def dev_info_ok_def Let_def)
     (simp add: dev_info_layout_eval align_up_def)

lemma length_dev_info [simp]: "dev_info_ok d \<Longrightarrow> length (dev_info_to_bytes d) = 100"
  by (simp add: dev_info_to_bytes_def dev_info_ok_def)

lemma length_concat_const: "\<forall>x \<in> set xs. length (f x) = n \<Longrightarrow> length (concat (map f xs)) = length xs * n"
  by (induction xs) auto

lemma length_platform_info:
  "length (pi_devs p) = AMBA_PCI_DEV_MAX \<Longrightarrow> \<forall>d \<in> set (pi_devs p). dev_info_ok d \<Longrightarrow>
     length (platform_info_to_bytes p) = size_of platform_info_layout"
  by (simp add: platform_info_to_bytes_def size_of_abi length_concat_const [where n = 100])

text \<open>The device info of slot \<open>i\<close> stands at offset \<open>8 + 100 * i\<close> of the answer.\<close>

lemma platform_info_slot:
  assumes "length (pi_devs p) = AMBA_PCI_DEV_MAX" "\<forall>d \<in> set (pi_devs p). dev_info_ok d" "i < AMBA_PCI_DEV_MAX"
  shows "slice (8 + 100 * i) 100 (platform_info_to_bytes p) = dev_info_to_bytes (pi_devs p ! i)"
proof -
  obtain a b c d where devs: "pi_devs p = [a, b, c, d]"
    using assms(1) by (auto simp: numeral_eq_Suc length_Suc_conv)
  then have ok: "dev_info_ok a" "dev_info_ok b" "dev_info_ok c" "dev_info_ok d" using assms(2) by simp_all
  show ?thesis
    using assms(3)
    by (rule less_4_cases) (simp_all add: platform_info_to_bytes_def devs slice_eval ok)
qed

text \<open>The fields of an ioctl number, read the way \<open>_IOC_DIR\<close>, \<open>_IOC_SIZE\<close>, \<open>_IOC_TYPE\<close> and \<open>_IOC_NR\<close> do.\<close>

definition ioc_fields :: "u32 \<Rightarrow> nat \<times> nat \<times> nat \<times> nat" where
  "ioc_fields cmd = (unat (drop_bit 30 cmd), unat (drop_bit 16 cmd AND 0x3fff), unat (drop_bit 8 cmd AND 0xff), unat (cmd AND 0xff))"

lemma ioc_fields_of_abi:
  "ioc_fields AMBA_PCI_QUERY_PLATFORM_INFO = (3, size_of platform_info_layout, 0x50, 1)"
  "ioc_fields AMBA_PCI_XFER_FIRMWARE = (1, size_of fw_xfer_layout, 0x50, 4)"
  "ioc_fields AMBA_PCI_H2D_SEND_FILE = (1, size_of h2d_send_file_layout, 0x50, 2)"
  "ioc_fields AMBA_PCI_H2D_SEND_BUFFER = (1, size_of h2d_send_buffer_layout, 0x50, 3)"
  by (simp_all add: ioc_fields_def ioctl_numbers size_of_abi)

text \<open>The whole answer by the layout rule: version, device count, then the devices.\<close>

definition dev_info_bytes :: "amba_pci_dev_info \<Rightarrow> u8 list" where
  "dev_info_bytes d = struct_bytes dev_info_layout
    [to_le 4 (di_id d), to_le 4 (di_slot_id d), to_le 4 (dev_state_val (di_state d)), to_le 4 (di_is_valid d),
     to_le 4 (di_ip d), to_le 4 (di_poc d), to_le 4 (di_dram_size_mb d), to_le 4 (di_vendor d),
     to_le 4 (di_device d), di_dram_type d, di_fw_vers d]"

definition platform_info_bytes :: "amba_pci_platform_info \<Rightarrow> u8 list" where
  "platform_info_bytes p = struct_bytes platform_info_layout
     [to_le 4 (pi_version p), to_le 4 (pi_dev_num p), concat (map dev_info_bytes (pi_devs p))]"

lemma platform_info_laid_out:
  assumes "length (pi_devs p) = AMBA_PCI_DEV_MAX" "\<forall>d \<in> set (pi_devs p). dev_info_ok d"
  shows "platform_info_to_bytes p = platform_info_bytes p"
proof -
  have devs: "map dev_info_bytes (pi_devs p) = map dev_info_to_bytes (pi_devs p)"
    using assms(2) by (simp add: dev_info_laid_out dev_info_bytes_def)
  have layout: "platform_info_layout = [f_u32, f_u32, (400, 4)]" by code_simp
  have "lay_out 0 platform_info_layout [to_le 4 (pi_version p), to_le 4 (pi_dev_num p), concat (map dev_info_to_bytes (pi_devs p))]
      = platform_info_to_bytes p"
    unfolding layout by (simp add: align_up_def platform_info_to_bytes_def)
  moreover have "length (platform_info_to_bytes p) = 408"
    using length_platform_info [OF assms] by (simp add: size_of_abi)
  ultimately show ?thesis
    unfolding platform_info_bytes_def devs struct_bytes_def Let_def by (simp add: size_of_abi)
qed

text \<open>C23: The ABI as bytes, against the C layout rule: every request decodes to exactly the fields laid out
  for it in the order of its struct, padding included; the answer of the query is laid out by the same
  rule, field by field, with the device of slot \<open>i\<close> at its array offset; and each ioctl number carries
  the size of its struct, its direction, the magic of the driver and its own command number.\<close>

theorem abi_round_trip:
  "(length (fx_images x) = AMBA_PCI_FW_IMAGE_MAX \<longrightarrow>
      fw_xfer_of_bytes (fw_xfer_bytes x) = x \<and> length (fw_xfer_bytes x) = size_of fw_xfer_layout) \<and>
   (length (sf_path f) = AMBA_PCI_PATH_MAX \<longrightarrow>
      h2d_send_file_of_bytes (h2d_file_bytes f) = f \<and> length (h2d_file_bytes f) = size_of h2d_send_file_layout) \<and>
   h2d_send_buffer_of_bytes (h2d_buffer_bytes b) = b \<and> length (h2d_buffer_bytes b) = size_of h2d_send_buffer_layout \<and>
   (length (pi_devs p) = AMBA_PCI_DEV_MAX \<and> (\<forall>d \<in> set (pi_devs p). dev_info_ok d) \<longrightarrow>
      platform_info_to_bytes p = platform_info_bytes p \<and>
      length (platform_info_to_bytes p) = size_of platform_info_layout \<and>
      (\<forall>i < AMBA_PCI_DEV_MAX. slice (8 + 100 * i) 100 (platform_info_to_bytes p) = dev_info_bytes (pi_devs p ! i))) \<and>
   ioc_fields AMBA_PCI_QUERY_PLATFORM_INFO = (3, size_of platform_info_layout, 0x50, 1) \<and>
   ioc_fields AMBA_PCI_H2D_SEND_FILE = (1, size_of h2d_send_file_layout, 0x50, 2) \<and>
   ioc_fields AMBA_PCI_H2D_SEND_BUFFER = (1, size_of h2d_send_buffer_layout, 0x50, 3) \<and>
   ioc_fields AMBA_PCI_XFER_FIRMWARE = (1, size_of fw_xfer_layout, 0x50, 4)"
proof -
  have slots: "slice (8 + 100 * i) 100 (platform_info_to_bytes p) = dev_info_bytes (pi_devs p ! i)"
    if "length (pi_devs p) = AMBA_PCI_DEV_MAX" "\<forall>d \<in> set (pi_devs p). dev_info_ok d" "i < AMBA_PCI_DEV_MAX" for i
    using platform_info_slot [OF that] dev_info_laid_out [of "pi_devs p ! i"] that by (simp add: dev_info_bytes_def)
  show ?thesis
    unfolding ioc_fields_of_abi
    using fw_xfer_round_trip [of x] h2d_file_round_trip [of f] h2d_buffer_round_trip [of b]
      length_platform_info [of p] slots platform_info_laid_out [of p] lengths_of_requests
    by (simp add: size_of_abi)
qed

theorem abi_round_trip_witness:
  "\<exists>x f p. length (fx_images x) = AMBA_PCI_FW_IMAGE_MAX \<and> fw_xfer_of_bytes (fw_xfer_bytes x) = x \<and>
     h2d_send_file_of_bytes (h2d_file_bytes f) = f \<and> length (platform_info_to_bytes p) = 408 \<and>
     platform_info_to_bytes p = platform_info_bytes p"
proof -
  let ?x = "\<lparr>fx_slot_id = 1, fx_fw_size = 2, fx_fw_user_ptr = 3,
     fx_images = replicate 3 \<lparr>img_type = 4, img_reserved = 5, img_offset = 6, img_length = 7\<rparr>\<rparr>"
  let ?f = "\<lparr>sf_slot_id = 1, sf_reserved = 0, sf_ep_addr = 2, sf_path = replicate 256 0\<rparr>"
  let ?d = "\<lparr>di_id = 0, di_slot_id = 0, di_state = AMBA_PCI_STATE_CONNECTED, di_is_valid = 0, di_ip = 0, di_poc = 0,
     di_dram_size_mb = 0, di_vendor = 0x2134, di_device = 6, di_dram_type = replicate 32 0, di_fw_vers = replicate 32 0\<rparr>"
  let ?p = "\<lparr>pi_version = 1, pi_dev_num = 0, pi_devs = replicate 4 ?d\<rparr>"
  have x: "length (fx_images ?x) = AMBA_PCI_FW_IMAGE_MAX" and f: "length (sf_path ?f) = AMBA_PCI_PATH_MAX"
    and p: "length (pi_devs ?p) = AMBA_PCI_DEV_MAX \<and> (\<forall>d \<in> set (pi_devs ?p). dev_info_ok d)"
    by (simp_all add: dev_info_ok_def)
  note r = abi_round_trip [of ?x ?f undefined ?p]
  from r x have "fw_xfer_of_bytes (fw_xfer_bytes ?x) = ?x" by blast
  moreover from r f have "h2d_send_file_of_bytes (h2d_file_bytes ?f) = ?f" by blast
  moreover from r p have "platform_info_to_bytes ?p = platform_info_bytes ?p"
    "length (platform_info_to_bytes ?p) = size_of platform_info_layout" by blast+
  ultimately show ?thesis using x unfolding size_of_abi by blast
qed

subsection \<open>User memory given by its bytes\<close>

definition user_memory :: "u64 \<Rightarrow> u8 list \<Rightarrow> u64 \<Rightarrow> u8 option" where
  "user_memory base mem a = (if unat (a - base) < length mem then Some (mem ! unat (a - base)) else None)"

lemma copy_from_user_memory:
  assumes "k_user K = user_memory base mem" "length mem < 2 ^ 64"
  shows "off + n \<le> length mem \<Longrightarrow> copy_from_user K (base + of_nat off) n = Some (slice off n mem)"
proof (induction n arbitrary: off)
  case 0
  then show ?case by (simp add: slice_def)
next
  case (Suc n)
  have "unat (of_nat off :: u64) = off"
    using Suc.prems assms(2) by (simp add: unat_of_nat take_bit_nat_eq_self)
  then have "k_user K (base + of_nat off) = Some (mem ! off)"
    using Suc.prems by (simp add: assms(1) user_memory_def)
  moreover have "copy_from_user K (base + of_nat (Suc off)) n = Some (slice (Suc off) n mem)"
    by (rule Suc.IH) (use Suc.prems in simp)
  ultimately show ?case using Suc.prems
    by (simp add: slice_def algebra_simps Cons_nth_drop_Suc [symmetric])
qed

end
