(* ===== verification/Card_Access.thy ===== *)
theory Card_Access
  imports Ring_Trace Slot_Ops
begin

section \<open>Reaching the card\<close>

text \<open>
  Mapping the boot BAR and reading the board information make a few kinds of kernel calls and read
  registers, and write none. Whatever these keep, the whole operation keeps: proved once for any
  predicate of the world, in the locale \<open>card_closed\<close>, and interpreted here for a trace without a
  write.
\<close>

text \<open>Predicates of the world that the calls of a set keep.\<close>

locale call_closed =
  fixes K :: "'d kernel" and P :: "'d world \<Rightarrow> bool" and C :: "kcall \<Rightarrow> bool"
  assumes call: "C c \<Longrightarrow> P w \<Longrightarrow> P (snd (kcall K c w))"
begin

lemma call_do: "C c \<Longrightarrow> P w \<Longrightarrow> P (kdo K c w)"
  by (simp add: kdo_def call)

lemma callD: "kcall K c w = (r, w') \<Longrightarrow> C c \<Longrightarrow> P w \<Longrightarrow> P w'"
  using call [of c w] by simp

end

text \<open>The calls that map a BAR.\<close>

fun card_call :: "kcall \<Rightarrow> bool" where
  "card_call (KC_pci_write_config_byte p off v) = True"
| "card_call (KC_pci_iomap p b l) = True"
| "card_call (KC_msleep n) = True"
| "card_call c = False"

locale card_closed = call_closed K P card_call for K :: "'d kernel" and P :: "'d world \<Rightarrow> bool" +
  assumes reads: "P w \<Longrightarrow> P (snd (readl K a w))"
begin

lemma read_words: "P w \<Longrightarrow> P (snd (read_words K a n w))"
  by (induction n arbitrary: a w) (simp_all add: Let_def case_prod_beta reads)

lemma enable_mem: "P w \<Longrightarrow> P (snd (pcie_enable_mem_io_resource K pd w))"
  by (simp add: pcie_enable_mem_io_resource_def Let_def case_prod_beta call call_do)

lemma map_chosen: "P w \<Longrightarrow> P (snd (map_chosen_bar K pd e w))"
  by (simp add: map_chosen_bar_def Let_def case_prod_beta call enable_mem)

lemma map_boot_bar: "P w \<Longrightarrow> P (snd (pcie_map_boot_bar K pd e w))"
  by (simp add: pcie_map_boot_bar_def Let_def case_prod_beta map_chosen split: option.split)

lemma attempts: "P w \<Longrightarrow> P (snd (map_attempts K pd n r e w))"
  by (induction n arbitrary: r e w) (simp_all add: Let_def case_prod_beta map_boot_bar call_do)

lemma ensure_mapped: "P w \<Longrightarrow> P (snd (pcie_boot_bar_ensure_mapped K pd e w))"
  by (simp add: pcie_boot_bar_ensure_mapped_def Let_def case_prod_beta attempts)

lemma read_board: "P w \<Longrightarrow> P (snd (pcie_ring_read_board_info K base w))"
  by (simp add: pcie_ring_read_board_info_def Let_def case_prod_beta read_words)

lemma refresh: "P w \<Longrightarrow> P (snd (pcie_dev_refresh_board_info_locked K e w))"
  by (simp add: pcie_dev_refresh_board_info_locked_def Let_def case_prod_beta ensure_mapped read_board split: option.split)

lemma refreshD: "pcie_dev_refresh_board_info_locked K e w = (res, w') \<Longrightarrow> P w \<Longrightarrow> P w'"
  using refresh [of w e] by simp

end

abbreviation quiet_io :: "event \<Rightarrow> bool" where
  "quiet_io e \<equiv> \<not> is_iow e"

interpretation card_no_write: card_closed K "did quiet_io u" for K u
proof
  fix c a w assume u: "did quiet_io u w"
  show "did quiet_io u (snd (kcall K c w))" by (rule did_kcall [OF u]) simp
  show "did quiet_io u (snd (readl K a w))"
    by (rule did_snoc [OF u, of _ "Readl a (fst (readl K a w))"]) (simp_all add: readl_def Let_def)
qed

end
