(* ===== verification/Fw_Xfer.thy ===== *)
theory Fw_Xfer
  imports Fw_Request Hotplug_Correct Ring_Xfer_Props Abi_Codec Card_Access
begin

section \<open>The firmware transfer ioctl\<close>

text \<open>
  What \<open>pcie_ioctl_xfer_firmware\<close> does under the mutex, path by path; the memory the endpoint
  holds after a successful transfer of the three images; results, resources and termination.
\<close>

subsection \<open>The image loop\<close>

lemma xfer_images_Cons:
  assumes "xfer_images K req e (ty # tys) w = Some (res, w')"
  obtains (null) "pcie_fw_find_image req ty = None" "res = Null_Deref" "w' = w"
  | (failed_img) img r where "pcie_fw_find_image req ty = Some img" "r \<noteq> 0" "res = Ret r"
      "pcie_ring_xfer_user K (e_boot_mem_base e) (e_boot_len e) (fx_fw_user_ptr req) img w = Some (r, w')"
  | (sent) img w1 where "pcie_fw_find_image req ty = Some img"
      "pcie_ring_xfer_user K (e_boot_mem_base e) (e_boot_len e) (fx_fw_user_ptr req) img w = Some (0, w1)"
      "xfer_images K req e tys w1 = Some (res, w')"
proof (cases "pcie_fw_find_image req ty")
  case None
  with assms null show ?thesis by simp
next
  case (Some img)
  with assms obtain r w1 where x:
    "pcie_ring_xfer_user K (e_boot_mem_base e) (e_boot_len e) (fx_fw_user_ptr req) img w = Some (r, w1)"
    "(if r \<noteq> 0 then Some (Ret r, w1) else xfer_images K req e tys w1) = Some (res, w')"
    by (auto simp: bind_eq_Some_conv)
  show ?thesis
  proof (cases "r = 0")
    case True
    with x Some sent show ?thesis by simp
  next
    case False
    with x Some failed_img show ?thesis by simp
  qed
qed

lemma xfer_images_Nil: "xfer_images K req e [] w = Some (res, w') \<longleftrightarrow> res = Ret 0 \<and> w' = w"
  by auto

text \<open>Results of the loop, whatever the images.\<close>

lemma xfer_images_result:
  assumes junk: "length (k_junk K 512) = 512"
  shows "xfer_images K req e tys w = Some (res, w') \<Longrightarrow>
    (res = Null_Deref \<longrightarrow> (\<exists>ty \<in> set tys. pcie_fw_find_image req ty = None)) \<and>
    (\<forall>r. res = Ret r \<longrightarrow> r \<in> {0, - ENOMEM, - EINVAL, - EFAULT, - ETIMEDOUT}) \<and>
    (\<exists>n \<le> length tys. \<exists>cs. rcalls w' = rcalls w @ cs \<and> length cs = 2 * n \<and>
       (\<forall>c \<in> set cs. fst c = KC_kmalloc 512 \<or> fst c = KC_kfree))"
proof (induction tys arbitrary: w)
  case Nil
  then have "res = Ret 0" "w' = w" by auto
  then show ?case by simp
next
  case (Cons ty tys)
  from Cons.prems show ?case
  proof (cases rule: xfer_images_Cons)
    case null
    then show ?thesis by auto
  next
    case (failed_img img r)
    from xfer_user_rcalls [OF failed_img(4) junk] obtain p q where
      "r \<in> {0, - ENOMEM, - EINVAL, - EFAULT, - ETIMEDOUT}"
      "rcalls w' = rcalls w @ [(KC_kmalloc 512, p), (KC_kfree, q)]" by blast
    with failed_img show ?thesis by (intro conjI exI [of _ 1]) auto
  next
    case (sent img w1)
    from xfer_user_rcalls [OF sent(2) junk] obtain p q where
      a: "rcalls w1 = rcalls w @ [(KC_kmalloc 512, p), (KC_kfree, q)]" by blast
    from Cons.IH [OF sent(3)] obtain n cs where
      b: "n \<le> length tys" "rcalls w' = rcalls w1 @ cs" "length cs = 2 * n"
        "\<forall>c \<in> set cs. fst c = KC_kmalloc 512 \<or> fst c = KC_kfree" by blast
    have "\<exists>n \<le> length (ty # tys). \<exists>cs. rcalls w' = rcalls w @ cs \<and> length cs = 2 * n \<and>
       (\<forall>c \<in> set cs. fst c = KC_kmalloc 512 \<or> fst c = KC_kfree)"
      using a b by (intro exI [of _ "Suc n"] conjI exI [of _ "[(KC_kmalloc 512, p), (KC_kfree, q)] @ cs"]) auto
    then show ?thesis using Cons.IH [OF sent(3)] by auto
  qed
qed

lemma xfer_images_total:
  assumes "steady_clock K us tick" "length (k_junk K 512) = 512"
  shows "\<exists>res w'. xfer_images K req e tys w = Some (res, w')"
proof (induction tys arbitrary: w)
  case Nil
  then show ?case by simp
next
  case (Cons ty tys)
  show ?case
  proof (cases "pcie_fw_find_image req ty")
    case None
    then show ?thesis by simp
  next
    case (Some img)
    obtain r w1 where
      "pcie_ring_xfer_user K (e_boot_mem_base e) (e_boot_len e) (fx_fw_user_ptr req) img w = Some (r, w1)"
      using xfer_user_total [OF assms] by blast
    with Some Cons [of w1] show ?thesis by auto
  qed
qed

subsection \<open>Under the mutex\<close>

lemma xfer_locked_cases:
  assumes run: "xfer_firmware_locked K req e w = Some ((res, e', hot), w')" and ok: "slot_ok i e"
  obtains (refused) r where "res = Ret r" "r \<in> {- ENODEV, - EBUSY}" "e' = e" "w' = w" "\<not> hot"
      "\<not> e_in_use e \<or> e_state e \<noteq> AMBA_PCI_STATE_DISCONNECTED"
  | (unmapped) r where "res = Ret r" "r \<noteq> 0" "\<not> hot" "e_in_use e" "e_state e = AMBA_PCI_STATE_DISCONNECTED"
      "pcie_dev_refresh_board_info_locked K e w = ((r, e'), w')"
  | (not_ready) r w1 and pd :: pci_dev where "res = Ret r" "r \<noteq> 0" "\<not> hot" "e_in_use e" "e_state e = AMBA_PCI_STATE_DISCONNECTED"
      "pcie_dev_refresh_board_info_locked K e w = ((0, e'), w1)"
      "pcie_ring_wait_ep_ready K (e_boot_mem_base e') (kdo K (KC_pci_set_master (pd_handle pd)) w1) = Some (r, w')"
  | (images) e1 w1 w2 pd where "e_in_use e" "e_state e = AMBA_PCI_STATE_DISCONNECTED" "e_pdev e1 = Some pd"
      "pcie_dev_refresh_board_info_locked K e w = ((0, e1), w1)"
      "pcie_ring_wait_ep_ready K (e_boot_mem_base e1) (kdo K (KC_pci_set_master (pd_handle pd)) w1) = Some (0, w2)"
      "\<exists>w3. xfer_images K req e1 pcie_fw_xfer_order w2 = Some (res, w3) \<and>
        (if res = Ret 0
         then hot \<and> (e', w') = pcie_boot_timeout_schedule K (unat (fx_slot_id req)) (e1\<lparr>e_state := AMBA_PCI_STATE_BOOTING\<rparr>) w3
         else \<not> hot \<and> e' = e1 \<and> w' = w3)"
proof (cases "e_in_use e \<and> e_state e = AMBA_PCI_STATE_DISCONNECTED")
  case False
  with run show ?thesis
    by (cases "e_in_use e") (auto simp: xfer_firmware_locked_def intro: refused)
next
  case st: True
  obtain r1 e1 w1 where rf: "pcie_dev_refresh_board_info_locked K e w = ((r1, e1), w1)" by (metis prod.exhaust)
  show ?thesis
  proof (cases "r1 = 0")
    case False
    with run st rf show ?thesis by (intro unmapped [of r1]) (auto simp: xfer_firmware_locked_def)
  next
    case True
    with refresh_result(4) [OF rf ok] st obtain pd where pd: "e_pdev e1 = Some pd" by auto
    from run st rf True pd obtain r2 w2 where
      rd: "pcie_ring_wait_ep_ready K (e_boot_mem_base e1) (kdo K (KC_pci_set_master (pd_handle pd)) w1) = Some (r2, w2)"
      by (auto simp: xfer_firmware_locked_def bind_eq_Some_conv)
    show ?thesis
    proof (cases "r2 = 0")
      case False
      with run st rf True pd rd have "res = Ret r2" "e' = e1" "w' = w2" "\<not> hot"
        by (auto simp: xfer_firmware_locked_def)
      with not_ready [of r2 w1 pd] False st rf True rd show ?thesis by simp
    next
      case r2: True
      with run st rf True pd rd obtain res2 w3 where im: "xfer_images K req e1 pcie_fw_xfer_order w2 = Some (res2, w3)"
        by (auto simp: xfer_firmware_locked_def bind_eq_Some_conv)
      obtain e4 w4 where sc: "pcie_boot_timeout_schedule K (unat (fx_slot_id req)) (e1\<lparr>e_state := AMBA_PCI_STATE_BOOTING\<rparr>) w3 = (e4, w4)"
        by (metis prod.exhaust)
      have out: "Some ((res, e', hot), w') = (if res2 \<noteq> Ret 0 then Some ((res2, e1, False), w3) else Some ((Ret 0, e4, True), w4))"
        unfolding run [symmetric] xfer_firmware_locked_def using st
        by (simp only: rf True pd rd r2 im sc Let_def prod.case option.case Option.bind.bind_lunit) simp
      have "res = res2" using out by (auto split: if_splits)
      moreover have "if res = Ret 0 then hot \<and> (e', w') = (e4, w4) else \<not> hot \<and> e' = e1 \<and> w' = w3"
        using out by (auto split: if_splits)
      ultimately show ?thesis
        using images [OF _ _ pd, of w1 w2] st rf True rd r2 im sc by (metis (full_types))
    qed
  qed
qed

subsection \<open>Delivery of the three images\<close>

text \<open>The bytes of the image of a type, as they stand in the caller's buffer.\<close>

definition fw_image_data :: "'d kernel \<Rightarrow> amba_pci_fw_xfer \<Rightarrow> u32 \<Rightarrow> u8 list \<Rightarrow> bool" where
  "fw_image_data K req ty data \<longleftrightarrow>
     (\<exists>img. pcie_fw_find_image req ty = Some img \<and>
        copy_from_user K (fx_fw_user_ptr req + img_offset img) (unat (img_length img)) = Some data)"

definition padded :: "u8 list \<Rightarrow> u8 list \<Rightarrow> bool" where
  "padded data bs \<longleftrightarrow> (\<exists>n < 16. bs = data @ replicate n 0 \<and> 16 dvd length bs)"

lemma padded_length: "padded data bs \<Longrightarrow> 16 dvd k \<Longrightarrow> length data \<le> k \<Longrightarrow> length bs \<le> k"
  by (auto simp: padded_def elim!: dvdE)

definition fw_sizes_small :: "amba_pci_fw_xfer \<Rightarrow> bool" where
  "fw_sizes_small req \<longleftrightarrow> (\<forall>img \<in> set (fx_images req). unat (img_length img) + 15 < 2 ^ 64)"

text \<open>The messages one image of a request must arrive as, with \<open>bs\<close> its padded bytes.\<close>

definition fw_image_msgs :: "u32 \<Rightarrow> u8 list \<Rightarrow> u8 list \<Rightarrow> ring_msg list" where
  "fw_image_msgs ty data bs =
     image_msgs (pcie_fw_load_addr ty) bs @ [MCmd (tail_cmd ty) (tail_size ty (of_nat (length data))) (pcie_fw_load_addr ty)]"

lemma xfer_images_sent:
  assumes "xfer_images K req e (ty # tys) w = Some (Ret 0, w')"
    and "length (k_junk K 512) = 512" "fw_sizes_small req"
  obtains es data bs w1 where "xfer_images K req e tys w1 = Some (Ret 0, w')"
    "w_trc w1 = w_trc w @ es" "fw_image_data K req ty data" "padded data bs"
    "(\<forall>ev \<in> set es. few_descs (e_boot_mem_base e) ev) \<longrightarrow> hands any_view (e_boot_mem_base e) es (fw_image_msgs ty data bs) any_view"
  using assms(1)
proof (cases rule: xfer_images_Cons)
  case (sent img w1)
  note f = find_image_Some [OF sent(1)]
  with assms(3) have len: "unat (img_length img) + 15 < 2 ^ 64" by (auto simp: fw_sizes_small_def)
  obtain num mb where geo: "ring_geometry K (e_boot_mem_base e) (snd (kcall K (KC_kmalloc 512) w)) = (num, mb)"
    by (metis prod.exhaust)
  from sent(2) assms(2) geo obtain es bs where x: "w_trc w1 = w_trc w @ es" "Readl (e_boot_mem_base e + RH_NUM_OFF) num \<in> set es"
    "image_at K (fx_fw_user_ptr req + img_offset img) (unat (img_length img)) 0 (unat (padded_len (img_length img))) = Some bs"
    "num \<le> 21 \<longrightarrow> hands any_view (e_boot_mem_base e) es (transfer_msgs img bs) any_view"
    by (rule xfer_user_hands)
  from x(3) len obtain data pad where d:
    "copy_from_user K (fx_fw_user_ptr req + img_offset img) (unat (img_length img)) = Some data" "bs = data @ replicate pad 0"
    "pad < 16" "16 dvd length data + pad" by (rule padded_image)
  have "img_length img = of_nat (length data)" using copy_from_user_length [OF d(1)] by simp
  then have "transfer_msgs img bs = fw_image_msgs ty data bs" using f by (simp add: transfer_msgs_def fw_image_msgs_def)
  moreover have "num \<le> 21" if "\<forall>ev \<in> set es. few_descs (e_boot_mem_base e) ev"
    using x(2) that by fastforce
  moreover have "padded data bs" using d(2-4) by (auto simp: padded_def)
  moreover have "fw_image_data K req ty data" using d(1) sent(1) by (auto simp: fw_image_data_def)
  ultimately show ?thesis using that [OF sent(3) x(1)] x(4) by simp
qed simp_all

lemma disjoint_span_unat: "unat a + n \<le> unat b \<Longrightarrow> unat b + m \<le> 2 ^ 64 \<Longrightarrow> disjoint_span a n b m"
  using disjoint_span_offsets [of "unat a" n "unat b" m 0] by simp

lemma read_write_prefix:
  assumes "length (xs @ ys) \<le> 2 ^ 64"
  shows "read_bytes (write_bytes m a (xs @ ys)) a (length xs) = xs"
proof -
  have "disjoint_span (a + of_nat 0) (length xs) (a + of_nat (length xs)) (length ys)"
    by (rule disjoint_span_offsets) (use assms in simp_all)
  then have d: "disjoint_span a (length xs) (a + of_nat (length xs)) (length ys)" by simp
  have "read_bytes (write_bytes m a (xs @ ys)) a (length xs) = read_bytes (write_bytes m a xs) a (length xs)"
    by (simp only: write_bytes_append [symmetric] io.rd_wr_other [OF d])
  also have "\<dots> = xs" by (rule io.rd_wr_same) (use assms in simp)
  finally show ?thesis .
qed

lemma read_write_padded:
  "padded data bs \<Longrightarrow> length bs \<le> 2 ^ 64 \<Longrightarrow> read_bytes (write_bytes m a bs) a (length data) = data"
  by (auto simp: padded_def intro: read_write_prefix)

text \<open>The region of each image: what its load address leaves below the next one.\<close>

definition fits_regions :: "u8 list \<Rightarrow> u8 list \<Rightarrow> u8 list \<Rightarrow> bool" where
  "fits_regions dtb rootfs kern \<longleftrightarrow>
     length kern \<le> 64 * 0x100000 \<and> length dtb \<le> 2 * 0x100000 \<and> length rootfs \<le> 2 ^ 63"

lemma images_coexist:
  assumes "fits_regions dtb rootfs kern" "padded dtb b0" "padded rootfs b1" "padded kern b2"
    and m': "m' = write_bytes (write_bytes (write_bytes m AMBA_PCI_FW_DTB_LOAD_ADDR b0)
                    AMBA_PCI_FW_ROOTFS_LOAD_ADDR b1) AMBA_PCI_FW_KERNEL_LOAD_ADDR b2"
  shows "read_bytes m' AMBA_PCI_FW_DTB_LOAD_ADDR (length dtb) = dtb"
    "read_bytes m' AMBA_PCI_FW_ROOTFS_LOAD_ADDR (length rootfs) = rootfs"
    "read_bytes m' AMBA_PCI_FW_KERNEL_LOAD_ADDR (length kern) = kern"
proof -
  have b0: "length b0 \<le> 2 * 0x100000"
    by (rule padded_length [OF assms(2)]) (use assms(1) in \<open>simp_all add: fits_regions_def\<close>)
  have b1: "length b1 \<le> 2 ^ 63"
    by (rule padded_length [OF assms(3)]) (use assms(1) in \<open>simp_all add: fits_regions_def\<close>)
  have b2: "length b2 \<le> 64 * 0x100000"
    by (rule padded_length [OF assms(4)]) (use assms(1) in \<open>simp_all add: fits_regions_def\<close>)
  note b = b0 b1 b2
  have l: "length dtb \<le> 2 * 0x100000" "length rootfs \<le> 2 ^ 63"
    using assms(1) by (simp_all add: fits_regions_def)
  have k_d: "disjoint_span AMBA_PCI_FW_DTB_LOAD_ADDR (length dtb) AMBA_PCI_FW_KERNEL_LOAD_ADDR (length b2)"
    by (rule disjoint_span_sym, rule disjoint_span_unat) (use b l in simp_all)
  have k_r: "disjoint_span AMBA_PCI_FW_ROOTFS_LOAD_ADDR (length rootfs) AMBA_PCI_FW_KERNEL_LOAD_ADDR (length b2)"
    by (rule disjoint_span_sym, rule disjoint_span_unat) (use b l in simp_all)
  have d_r: "disjoint_span AMBA_PCI_FW_DTB_LOAD_ADDR (length dtb) AMBA_PCI_FW_ROOTFS_LOAD_ADDR (length b1)"
    by (rule disjoint_span_unat) (use b l in simp_all)
  show "read_bytes m' AMBA_PCI_FW_DTB_LOAD_ADDR (length dtb) = dtb"
    unfolding m' io.rd_wr_other [OF k_d] io.rd_wr_other [OF d_r]
    by (rule read_write_padded [OF assms(2)]) (use b in simp)
  show "read_bytes m' AMBA_PCI_FW_ROOTFS_LOAD_ADDR (length rootfs) = rootfs"
    unfolding m' io.rd_wr_other [OF k_r]
    by (rule read_write_padded [OF assms(3)]) (use b in simp)
  show "read_bytes m' AMBA_PCI_FW_KERNEL_LOAD_ADDR (length kern) = kern"
    unfolding m' by (rule read_write_padded [OF assms(4)]) (use b in simp)
qed

lemma ucast_of_nat_64_32: "ucast (of_nat n :: u64) = (of_nat n :: u32)"
  by (rule bit_eqI) (auto simp: bit_simps)

text \<open>The messages the three images must arrive as, in the order of their transfer.\<close>

definition fw_msgs :: "u8 list \<times> u8 list \<Rightarrow> u8 list \<times> u8 list \<Rightarrow> u8 list \<times> u8 list \<Rightarrow> ring_msg list" where
  "fw_msgs dtb rootfs kern =
     fw_image_msgs AMBA_PCI_FW_IMAGE_DTB (fst dtb) (snd dtb) @
     fw_image_msgs AMBA_PCI_FW_IMAGE_ROOTFS (fst rootfs) (snd rootfs) @
     fw_image_msgs AMBA_PCI_FW_IMAGE_KERNEL (fst kern) (snd kern)"

lemma fw_msgs_unfold:
  "fw_msgs (dtb, b0) (rootfs, b1) (kern, b2) =
     image_msgs AMBA_PCI_FW_DTB_LOAD_ADDR b0 @ [MCmd RING_CMD_SET_DTB_ADDR 0 AMBA_PCI_FW_DTB_LOAD_ADDR] @
     image_msgs AMBA_PCI_FW_ROOTFS_LOAD_ADDR b1 @ [MCmd RING_CMD_SET_INITRD_ADDR (of_nat (length rootfs)) AMBA_PCI_FW_ROOTFS_LOAD_ADDR] @
     image_msgs AMBA_PCI_FW_KERNEL_LOAD_ADDR b2 @ [MCmd RING_CMD_SET_LNX_ADDR 0 AMBA_PCI_FW_KERNEL_LOAD_ADDR]"
  by (simp add: fw_msgs_def fw_image_msgs_def pcie_fw_load_addr_def tail_cmd_def tail_size_def ucast_of_nat_64_32)

lemma fw_msgs_apply:
  "ep_apply (fw_msgs (dtb, b0) (rootfs, b1) (kern, b2)) m =
     write_bytes (write_bytes (write_bytes m AMBA_PCI_FW_DTB_LOAD_ADDR b0)
       AMBA_PCI_FW_ROOTFS_LOAD_ADDR b1) AMBA_PCI_FW_KERNEL_LOAD_ADDR b2"
  unfolding fw_msgs_unfold by (simp add: ep_apply_append image_msgs_apply)

lemma xfer_images_delivers:
  assumes "xfer_images K req e pcie_fw_xfer_order w = Some (Ret 0, w')"
    and "length (k_junk K 512) = 512" "fw_sizes_small req"
  obtains es dtb rootfs kern b0 b1 b2 where "w_trc w' = w_trc w @ es"
    "fw_image_data K req AMBA_PCI_FW_IMAGE_DTB dtb" "fw_image_data K req AMBA_PCI_FW_IMAGE_ROOTFS rootfs"
    "fw_image_data K req AMBA_PCI_FW_IMAGE_KERNEL kern" "padded dtb b0" "padded rootfs b1" "padded kern b2"
    "(\<forall>ev \<in> set es. few_descs (e_boot_mem_base e) ev) \<longrightarrow>
       hands any_view (e_boot_mem_base e) es (fw_msgs (dtb, b0) (rootfs, b1) (kern, b2)) any_view"
proof -
  let ?base = "e_boot_mem_base e" and ?few = "\<lambda>es. \<forall>ev \<in> set es. few_descs (e_boot_mem_base e) ev"
  from xfer_images_sent [OF assms(1) [unfolded pcie_fw_xfer_order_def] assms(2,3)] obtain es0 dtb b0 w1 where
    s0: "xfer_images K req e [AMBA_PCI_FW_IMAGE_ROOTFS, AMBA_PCI_FW_IMAGE_KERNEL] w1 = Some (Ret 0, w')"
      "w_trc w1 = w_trc w @ es0" "fw_image_data K req AMBA_PCI_FW_IMAGE_DTB dtb" "padded dtb b0"
      "?few es0 \<longrightarrow> hands any_view ?base es0 (fw_image_msgs AMBA_PCI_FW_IMAGE_DTB dtb b0) any_view" .
  from xfer_images_sent [OF s0(1) assms(2,3)] obtain es1 rootfs b1 w2 where
    s1: "xfer_images K req e [AMBA_PCI_FW_IMAGE_KERNEL] w2 = Some (Ret 0, w')"
      "w_trc w2 = w_trc w1 @ es1" "fw_image_data K req AMBA_PCI_FW_IMAGE_ROOTFS rootfs" "padded rootfs b1"
      "?few es1 \<longrightarrow> hands any_view ?base es1 (fw_image_msgs AMBA_PCI_FW_IMAGE_ROOTFS rootfs b1) any_view" .
  from xfer_images_sent [OF s1(1) assms(2,3)] obtain es2 kern b2 w3 where
    s2: "xfer_images K req e [] w3 = Some (Ret 0, w')"
      "w_trc w3 = w_trc w2 @ es2" "fw_image_data K req AMBA_PCI_FW_IMAGE_KERNEL kern" "padded kern b2"
      "?few es2 \<longrightarrow> hands any_view ?base es2 (fw_image_msgs AMBA_PCI_FW_IMAGE_KERNEL kern b2) any_view" .
  have "w' = w3" using s2(1) by simp
  then have trc: "w_trc w' = w_trc w @ (es0 @ es1 @ es2)" using s0(2) s1(2) s2(2) by simp
  have "hands any_view ?base (es0 @ es1 @ es2) (fw_msgs (dtb, b0) (rootfs, b1) (kern, b2)) any_view"
    if "?few (es0 @ es1 @ es2)"
    unfolding fw_msgs_def fst_conv snd_conv using that
    by (intro hands_append [OF mp [OF s0(5)] hands_append [OF mp [OF s1(5)] mp [OF s2(5)]]]) simp_all
  then have "?few (es0 @ es1 @ es2) \<longrightarrow>
      hands any_view ?base (es0 @ es1 @ es2) (fw_msgs (dtb, b0) (rootfs, b1) (kern, b2)) any_view" by blast
  then show ?thesis by (rule that [OF trc s0(3) s1(3) s2(3) s0(4) s1(4) s2(4)])
qed

subsection \<open>The whole ioctl\<close>

lemma xfer_ioctl_cases:
  assumes run: "pcie_ioctl_xfer_firmware K shl rm argp g w = Some ((res, g'), w')" and ok: "plat_ok g"
  obtains (rejected) r where "res = Ret r" "r \<in> {- EFAULT, - EINVAL}" "g' = g" "w' = w"
      "\<forall>bs. copy_from_user K argp 96 = Some bs \<longrightarrow> \<not> fw_request_ok shl (fw_xfer_of_bytes bs)"
  | (ran) bs req i e hot w1 where "copy_from_user K argp 96 = Some bs" "req = fw_xfer_of_bytes bs"
      "i = unat (fx_slot_id req)" "i < AMBA_PCI_DEV_MAX" "fw_request_ok shl req"
      "xfer_firmware_locked K req (g_devs g ! i) (kdo K KC_mutex_lock w) = Some ((res, e, hot), w1)"
      "if res = Null_Deref then g' = set_entry g i e \<and> w' = w1
       else case (if hot then e_pdev e else None) of
              None \<Rightarrow> g' = set_entry g i e \<and> w' = kdo K KC_mutex_unlock w1
            | Some pd \<Rightarrow> (g', w') = rm pd (set_entry g i e) (kdo K KC_mutex_unlock w1)"
proof (cases "copy_from_user K argp 96")
  case None
  with run show ?thesis
    by (intro rejected [of "- EFAULT"]) (auto simp: pcie_ioctl_xfer_firmware_def size_of_abi)
next
  case (Some bs)
  define req where "req = fw_xfer_of_bytes bs"
  show ?thesis
  proof (cases "fw_request_ok shl req")
    case False
    with Some run show ?thesis
      by (intro rejected [of "- EINVAL"]) (auto simp: pcie_ioctl_xfer_firmware_def size_of_abi req_def)
  next
    case True
    then have i: "unat (fx_slot_id req) < AMBA_PCI_DEV_MAX"
      by (simp add: fw_request_ok_def word_le_nat_alt not_le)
    let ?i = "unat (fx_slot_id req)"
    have run1: "(xfer_firmware_locked K req (g_devs g ! ?i) (kdo K KC_mutex_lock w) \<bind> (\<lambda>((r, e, hot), w1).
        if r = Null_Deref then Some ((r, set_entry g ?i e), w1)
        else case (if hot then e_pdev e else None) of
               None \<Rightarrow> Some ((r, set_entry g ?i e), kdo K KC_mutex_unlock w1)
             | Some pd \<Rightarrow> (let (g2, w3) = rm pd (set_entry g ?i e) (kdo K KC_mutex_unlock w1) in Some ((r, g2), w3))))
        = Some ((res, g'), w')"
      using run
      by (simp only: pcie_ioctl_xfer_firmware_def size_of_abi Some option.case Let_def req_def [symmetric] True
          not_True_eq_False if_False)
    then obtain r e hot w1 where
      l: "xfer_firmware_locked K req (g_devs g ! ?i) (kdo K KC_mutex_lock w) = Some ((r, e, hot), w1)"
      by (auto simp: bind_eq_Some_conv)
    have rest: "(if r = Null_Deref then Some ((r, set_entry g ?i e), w1)
        else case (if hot then e_pdev e else None) of
               None \<Rightarrow> Some ((r, set_entry g ?i e), kdo K KC_mutex_unlock w1)
             | Some pd \<Rightarrow> (let (g2, w3) = rm pd (set_entry g ?i e) (kdo K KC_mutex_unlock w1) in Some ((r, g2), w3)))
        = Some ((res, g'), w')"
      using run1 unfolding l by (simp only: Option.bind.bind_lunit prod.case)
    have r: "r = res" using rest by (auto split: if_splits option.splits prod.splits)
    have "if res = Null_Deref then g' = set_entry g ?i e \<and> w' = w1
       else case (if hot then e_pdev e else None) of
              None \<Rightarrow> g' = set_entry g ?i e \<and> w' = kdo K KC_mutex_unlock w1
            | Some pd \<Rightarrow> (g', w') = rm pd (set_entry g ?i e) (kdo K KC_mutex_unlock w1)"
      using rest by (auto simp: r split: if_splits option.splits prod.splits)
    with ran [OF Some req_def refl i True l [unfolded r]] show ?thesis by blast
  qed
qed

text \<open>Without the success of all three images the slot keeps its state, device and pending work.\<close>

lemma xfer_locked_failed:
  assumes "xfer_firmware_locked K req e w = Some ((res, e', hot), w')" "slot_ok i e" "res \<noteq> Ret 0"
  shows "\<not> hot \<and> same_but_board e e' \<and> slot_ok i e'"
  using assms(1,2)
proof (cases rule: xfer_locked_cases)
  case refused
  then show ?thesis using assms(2) by simp
next
  case unmapped
  then show ?thesis using refresh_result(1,3) [OF _ assms(2)] by blast
next
  case not_ready
  then show ?thesis using refresh_result(1,3) [OF _ assms(2)] by blast
next
  case (images e1 w1 w2 pd)
  then have "\<not> hot" "e' = e1" using assms(3) by auto
  then show ?thesis using refresh_result(1,3) [OF images(4) assms(2)] by blast
qed

lemma xfer_locked_success:
  assumes "xfer_firmware_locked K req e w = Some ((Ret 0, e', hot), w')" "slot_ok i e"
  obtains e1 w2 w3 pd where "hot" "e_pdev e' = Some pd" "e_pdev e = Some pd" "e_in_use e"
    "e_state e = AMBA_PCI_STATE_DISCONNECTED" "same_but_board e e1" "slot_ok i e1"
    "e' = e1\<lparr>e_state := AMBA_PCI_STATE_BOOTING, e_work_pending := True\<rparr>"
    "xfer_images K req e1 pcie_fw_xfer_order w2 = Some (Ret 0, w3)" "did quiet_io w w2" "did quiet_io w3 w'"
  using assms
proof (cases rule: xfer_locked_cases)
  case (images e1 w1 w2 pd)
  then obtain w3 where im: "xfer_images K req e1 pcie_fw_xfer_order w2 = Some (Ret 0, w3)" "hot"
    "(e', w') = pcie_boot_timeout_schedule K (unat (fx_slot_id req)) (e1\<lparr>e_state := AMBA_PCI_STATE_BOOTING\<rparr>) w3"
    by auto
  have e': "e' = e1\<lparr>e_state := AMBA_PCI_STATE_BOOTING, e_work_pending := True\<rparr>"
    using im(3) schedule_result by (metis fst_conv)
  have "did quiet_io w3 w'"
    using im(3) by (simp add: pcie_boot_timeout_schedule_def Let_def)
  moreover have "did quiet_io w w1" by (rule card_no_write.refreshD [OF images(4)]) simp
  then have "did quiet_io w w2" by (intro did_trans [OF _ wait_ready_quiet [OF images(5)]]) simp
  ultimately show ?thesis
    using that [OF im(2) _ _ _ _ _ _ e' im(1)] refresh_result(1,3) [OF images(4) assms(2)] images(1-3)
    by (simp add: e' same_but_board_def)
qed auto

lemma booting_ok:
  assumes "slot_ok i e" "e_in_use e"
  shows "slot_ok i (e\<lparr>e_state := AMBA_PCI_STATE_BOOTING, e_work_pending := True\<rparr>)"
  using assms by (auto simp: slot_ok_def bar_chosen_def)

lemma xfer_locked_total:
  assumes "steady_clock K us tick" "length (k_junk K 512) = 512"
  shows "\<exists>res e' hot w'. xfer_firmware_locked K req e w = Some ((res, e', hot), w')"
proof -
  obtain r1 e1 w1 where rf: "pcie_dev_refresh_board_info_locked K e w = ((r1, e1), w1)" by (metis prod.exhaust)
  show ?thesis
  proof (cases "e_in_use e \<and> e_state e = AMBA_PCI_STATE_DISCONNECTED \<and> r1 = 0")
    case False
    with rf show ?thesis by (auto simp: xfer_firmware_locked_def)
  next
    case True
    show ?thesis
    proof (cases "e_pdev e1")
      case None
      with True rf show ?thesis by (auto simp: xfer_firmware_locked_def)
    next
      case (Some pd)
      obtain r2 w2 where rd: "pcie_ring_wait_ep_ready K (e_boot_mem_base e1) (kdo K (KC_pci_set_master (pd_handle pd)) w1) = Some (r2, w2)"
        using wait_ep_ready_total [OF assms(1)] by blast
      obtain res w3 where im: "xfer_images K req e1 pcie_fw_xfer_order w2 = Some (res, w3)"
        using xfer_images_total [OF assms] by blast
      from True rf Some rd im show ?thesis
        by (cases "r2 = 0"; cases "res = Ret 0") (auto simp: xfer_firmware_locked_def Let_def case_prod_beta)
    qed
  qed
qed

lemma xfer_locked_no_null:
  assumes "xfer_firmware_locked K req e w = Some ((res, e', hot), w')" "slot_ok i e" "length (k_junk K 512) = 512"
    "\<forall>ty \<in> set pcie_fw_xfer_order. \<exists>img. pcie_fw_find_image req ty = Some img"
  shows "res \<noteq> Null_Deref"
  using assms(1,2)
proof (cases rule: xfer_locked_cases)
  case (images e1 w1 w2 pd)
  then obtain w3 where "xfer_images K req e1 pcie_fw_xfer_order w2 = Some (res, w3)" by blast
  from xfer_images_result [OF assms(3) this] assms(4) show ?thesis by (metis option.distinct(1))
qed auto

text \<open>C3: A firmware transfer that returns 0 has loaded the three images. An endpoint that looks up every
  message by address, in the descriptor of its own position and in the block that descriptor
  names, finds exactly the blocks of the device tree, of the root filesystem and of the kernel, in
  this order, each image made of the bytes of the caller's buffer and less than 16 zeros, each followed by
  the one command that announces its load address; nothing else is handed over. This holds where no
  length of the request is within 15 of \<open>2^64\<close> and where the header never announced more than 21
  descriptors in the registers read. If moreover the kernel has at most 64 MiB and the device tree at
  most 2 MiB, so that each image fits below the next, all three can be read back at their load addresses in
  the endpoint's memory afterwards. The slot, which was
  disconnected with a device, is then booting with its timeout armed, no other slot has changed, and
  the device is handed to the PCI core for removal with the mutex released.\<close>

theorem xfer_firmware_delivers:
  assumes run: "pcie_ioctl_xfer_firmware K shl rm argp g w = Some ((Ret 0, g'), w')"
    and ok: "plat_ok g" and junk: "length (k_junk K 512) = 512"
    and req: "copy_from_user K argp (size_of fw_xfer_layout) = Some bs" "req = fw_xfer_of_bytes bs"
    and small: "fw_sizes_small req"
  shows "\<exists>pd e w1 evs dtb rootfs kern b0 b1 b2.
    (g', w') = rm pd (set_entry g (unat (fx_slot_id req)) e) (kdo K KC_mutex_unlock w1) \<and>
    unat (fx_slot_id req) < AMBA_PCI_DEV_MAX \<and>
    abs_slot (g_devs g ! unat (fx_slot_id req)) = Card AMBA_PCI_STATE_DISCONNECTED (Some pd) \<and>
    abs_slot e = Card AMBA_PCI_STATE_BOOTING (Some pd) \<and> e_work_pending e \<and>
    plat_ok (set_entry g (unat (fx_slot_id req)) e) \<and> w_trc w1 = w_trc w @ evs \<and>
    fw_image_data K req AMBA_PCI_FW_IMAGE_DTB dtb \<and> padded dtb b0 \<and>
    fw_image_data K req AMBA_PCI_FW_IMAGE_ROOTFS rootfs \<and> padded rootfs b1 \<and>
    fw_image_data K req AMBA_PCI_FW_IMAGE_KERNEL kern \<and> padded kern b2 \<and>
    ((\<forall>ev \<in> set evs. few_descs (e_boot_mem_base e) ev) \<longrightarrow> (\<forall>m.
       ring_msgs (e_boot_mem_base e) evs m =
         image_msgs AMBA_PCI_FW_DTB_LOAD_ADDR b0 @ [MCmd RING_CMD_SET_DTB_ADDR 0 AMBA_PCI_FW_DTB_LOAD_ADDR] @
         image_msgs AMBA_PCI_FW_ROOTFS_LOAD_ADDR b1 @ [MCmd RING_CMD_SET_INITRD_ADDR (of_nat (length rootfs)) AMBA_PCI_FW_ROOTFS_LOAD_ADDR] @
         image_msgs AMBA_PCI_FW_KERNEL_LOAD_ADDR b2 @ [MCmd RING_CMD_SET_LNX_ADDR 0 AMBA_PCI_FW_KERNEL_LOAD_ADDR] \<and>
       (fits_regions dtb rootfs kern \<longrightarrow> (\<forall>m0. let m' = ep_apply (ring_msgs (e_boot_mem_base e) evs m) m0 in
         read_bytes m' AMBA_PCI_FW_DTB_LOAD_ADDR (length dtb) = dtb \<and>
         read_bytes m' AMBA_PCI_FW_ROOTFS_LOAD_ADDR (length rootfs) = rootfs \<and>
         read_bytes m' AMBA_PCI_FW_KERNEL_LOAD_ADDR (length kern) = kern))))"
  using run ok
proof (cases rule: xfer_ioctl_cases)
  case rejected
  then show ?thesis by simp
next
  case (ran bs' req' i e hot w1)
  have rq: "req' = req" using ran(1,2) req by (simp add: size_of_abi)
  note i = ran(3) [unfolded rq] and sl = plat_ok_slot [OF ok ran(4)]
  from ran(6) [unfolded rq] sl obtain e1 w2 w3 pd where
    s: "hot" "e_pdev e = Some pd" "e_pdev (g_devs g ! i) = Some pd" "e_in_use (g_devs g ! i)"
      "e_state (g_devs g ! i) = AMBA_PCI_STATE_DISCONNECTED" "same_but_board (g_devs g ! i) e1" "slot_ok i e1"
      "e = e1\<lparr>e_state := AMBA_PCI_STATE_BOOTING, e_work_pending := True\<rparr>"
      "xfer_images K req e1 pcie_fw_xfer_order w2 = Some (Ret 0, w3)" "did quiet_io (kdo K KC_mutex_lock w) w2" "did quiet_io w3 w1"
    by (rule xfer_locked_success)
  let ?base = "e_boot_mem_base e"
  have base: "e_boot_mem_base e1 = ?base" by (simp add: s(8))
  from xfer_images_delivers [OF s(9) junk small, unfolded base] obtain es dtb rootfs kern b0 b1 b2 where
    d: "w_trc w3 = w_trc w2 @ es" "fw_image_data K req AMBA_PCI_FW_IMAGE_DTB dtb"
      "fw_image_data K req AMBA_PCI_FW_IMAGE_ROOTFS rootfs" "fw_image_data K req AMBA_PCI_FW_IMAGE_KERNEL kern"
      "padded dtb b0" "padded rootfs b1" "padded kern b2"
      "(\<forall>ev \<in> set es. few_descs ?base ev) \<longrightarrow> hands any_view ?base es (fw_msgs (dtb, b0) (rootfs, b1) (kern, b2)) any_view" .
  have "did quiet_io w (kdo K KC_mutex_lock w)" by simp
  from did_trans [OF this s(10)] s(11) obtain ea eb where
    ea: "w_trc w2 = w_trc w @ ea" "\<forall>ev \<in> set ea. \<not> is_iow ev" and eb: "w_trc w1 = w_trc w3 @ eb" "\<forall>ev \<in> set eb. \<not> is_iow ev"
    unfolding did_def by blast
  let ?evs = "ea @ es @ eb" and ?ms = "fw_msgs (dtb, b0) (rootfs, b1) (kern, b2)"
  have trc: "w_trc w1 = w_trc w @ ?evs" using ea(1) eb(1) d(1) by simp
  have msgs: "ring_msgs ?base ?evs m = ?ms" if few: "\<forall>ev \<in> set ?evs. few_descs ?base ev" for m
  proof -
    have "hands any_view ?base es ?ms any_view" by (rule mp [OF d(8)]) (use few in simp)
    from hands_append [OF hands_no_write [OF ea(2)] hands_append [OF this hands_no_write [OF eb(2)]]]
    have "hands any_view ?base ?evs ?ms any_view" by simp
    then show ?thesis by (rule hands_msgs)
  qed
  have e1: "e_in_use e1" "e_pdev e1 = Some pd" using s(3,4,6) by (simp_all add: same_but_board_def)
  have slots: "plat_ok (set_entry g i e)" "abs_slot e = Card AMBA_PCI_STATE_BOOTING (Some pd)" "e_work_pending e"
    "abs_slot (g_devs g ! i) = Card AMBA_PCI_STATE_DISCONNECTED (Some pd)"
    using set_entry_ok [OF ok ran(4) booting_ok [OF s(7) e1(1)]] e1 s(3,4,5) by (simp_all add: s(8) abs_slot_def)
  have handed: "(g', w') = rm pd (set_entry g i e) (kdo K KC_mutex_unlock w1)" using ran(7) s(1,2) by simp
  have readback: "fits_regions dtb rootfs kern \<longrightarrow> (\<forall>m0. let m' = ep_apply (ring_msgs ?base ?evs m) m0 in
       read_bytes m' AMBA_PCI_FW_DTB_LOAD_ADDR (length dtb) = dtb \<and>
       read_bytes m' AMBA_PCI_FW_ROOTFS_LOAD_ADDR (length rootfs) = rootfs \<and>
       read_bytes m' AMBA_PCI_FW_KERNEL_LOAD_ADDR (length kern) = kern)"
    if few: "\<forall>ev \<in> set ?evs. few_descs ?base ev" for m
    unfolding Let_def msgs [OF few] using images_coexist [OF _ d(5-7) fw_msgs_apply] by blast
  have delivered: "(\<forall>ev \<in> set ?evs. few_descs (e_boot_mem_base e) ev) \<longrightarrow> (\<forall>m.
       ring_msgs (e_boot_mem_base e) ?evs m =
         image_msgs AMBA_PCI_FW_DTB_LOAD_ADDR b0 @ [MCmd RING_CMD_SET_DTB_ADDR 0 AMBA_PCI_FW_DTB_LOAD_ADDR] @
         image_msgs AMBA_PCI_FW_ROOTFS_LOAD_ADDR b1 @ [MCmd RING_CMD_SET_INITRD_ADDR (of_nat (length rootfs)) AMBA_PCI_FW_ROOTFS_LOAD_ADDR] @
         image_msgs AMBA_PCI_FW_KERNEL_LOAD_ADDR b2 @ [MCmd RING_CMD_SET_LNX_ADDR 0 AMBA_PCI_FW_KERNEL_LOAD_ADDR] \<and>
       (fits_regions dtb rootfs kern \<longrightarrow> (\<forall>m0. let m' = ep_apply (ring_msgs (e_boot_mem_base e) ?evs m) m0 in
         read_bytes m' AMBA_PCI_FW_DTB_LOAD_ADDR (length dtb) = dtb \<and>
         read_bytes m' AMBA_PCI_FW_ROOTFS_LOAD_ADDR (length rootfs) = rootfs \<and>
         read_bytes m' AMBA_PCI_FW_KERNEL_LOAD_ADDR (length kern) = kern)))"
  proof (intro impI allI conjI)
    fix m assume few: "\<forall>ev \<in> set ?evs. few_descs ?base ev"
    show "ring_msgs ?base ?evs m =
         image_msgs AMBA_PCI_FW_DTB_LOAD_ADDR b0 @ [MCmd RING_CMD_SET_DTB_ADDR 0 AMBA_PCI_FW_DTB_LOAD_ADDR] @
         image_msgs AMBA_PCI_FW_ROOTFS_LOAD_ADDR b1 @ [MCmd RING_CMD_SET_INITRD_ADDR (of_nat (length rootfs)) AMBA_PCI_FW_ROOTFS_LOAD_ADDR] @
         image_msgs AMBA_PCI_FW_KERNEL_LOAD_ADDR b2 @ [MCmd RING_CMD_SET_LNX_ADDR 0 AMBA_PCI_FW_KERNEL_LOAD_ADDR]"
      using msgs [OF few] unfolding fw_msgs_unfold .
    show "let m' = ep_apply (ring_msgs ?base ?evs m) m0 in
         read_bytes m' AMBA_PCI_FW_DTB_LOAD_ADDR (length dtb) = dtb \<and>
         read_bytes m' AMBA_PCI_FW_ROOTFS_LOAD_ADDR (length rootfs) = rootfs \<and>
         read_bytes m' AMBA_PCI_FW_KERNEL_LOAD_ADDR (length kern) = kern" if "fits_regions dtb rootfs kern" for m0
      using readback [OF few] that by blast
  qed
  show ?thesis
    by (rule exI [of _ pd], rule exI [of _ e], rule exI [of _ w1], rule exI [of _ ?evs], rule exI [of _ dtb],
        rule exI [of _ rootfs], rule exI [of _ kern], rule exI [of _ b0], rule exI [of _ b1], rule exI [of _ b2])
      (use handed slots trc d(2-7) ran(4) delivered in \<open>simp only: i simp_thms\<close>)
qed

end
