(* ===== verification/Fw_Xfer_Props.thy ===== *)
theory Fw_Xfer_Props
  imports Fw_Xfer
begin

section \<open>Guarantees of the firmware transfer\<close>

text \<open>
  A concrete request for three small images, and what holds of the ioctl when it does not succeed: no slot changes its state,
  no NULL pointer is used, every call returns.
\<close>

subsection \<open>A concrete request\<close>

definition demo_user :: "u8 list" where
  "demo_user = fw_xfer_bytes demo_req @ map of_nat [0..<32]"

definition demo_fw_kernel :: "nat kernel" where
  "demo_fw_kernel = demo_kernel\<lparr>k_user := user_memory 0x1000 demo_user\<rparr>"

lemma demo_fw_fields [simp]:
  "k_call demo_fw_kernel = demo_call"
  "k_ep demo_fw_kernel d m = (d, demo_header 4 4)"
  "k_jiffies demo_fw_kernel d = of_nat (d div 4000)"
  "k_msecs demo_fw_kernel ms = ucast ms div 4"
  "k_user demo_fw_kernel = user_memory 0x1000 demo_user"
  "k_res demo_fw_kernel d p b = \<lparr>r_start = 0x10000, r_len = 0x1000, r_flags = 0x200, r_parent = True\<rparr>"
  "k_junk demo_fw_kernel n = replicate n 0xaa"
  by (simp_all add: demo_fw_kernel_def)

lemma demo_fw_steady: "steady_clock demo_fw_kernel id 4000"
  using demo_steady by (simp add: steady_clock_def)

lemma demo_fw_junk: "length (k_junk demo_fw_kernel 512) = 512"
  by simp

lemmas fw_eval = pcie_ring_xfer_user_def xfer_user_body_def pcie_ring_ctx_init_def demo_eval padded_len_def
  xfer_chunks_step xfer_chunks_done demo_chunk_size fill_chunk_def pcie_ring_post_data_def
  pcie_ring_post_cmd_def wait_u32_loop.simps write_desc_def bump_used_def pcie_ring_desc_def
  pcie_ring_data_blk_def pcie_fw_load_addr_def xfer_poll_loop.simps

lemma demo_fw_image:
  assumes "img_length img \<in> {5, 6, 7}" "copy_from_user demo_fw_kernel (ub + img_offset img) (unat (img_length img)) = Some data"
  shows "\<exists>w'. pcie_ring_xfer_user demo_fw_kernel 0x10000 0x1000 ub img w = Some (0, w')"
  using assms by (auto simp: fw_eval)

lemma length_demo_user: "length demo_user = 128"
  by (simp add: demo_user_def lengths_of_requests demo_req_def demo_images_def)

lemma demo_copy: "off + n \<le> 128 \<Longrightarrow> copy_from_user demo_fw_kernel (0x1000 + of_nat off) n = Some (slice off n demo_user)"
  by (rule copy_from_user_memory) (simp_all add: length_demo_user)

lemma demo_copy_req: "copy_from_user demo_fw_kernel 0x1000 (size_of fw_xfer_layout) = Some (fw_xfer_bytes demo_req)"
proof -
  have "copy_from_user demo_fw_kernel (0x1000 + of_nat 0) 96 = Some (slice 0 96 demo_user)"
    by (rule demo_copy) simp
  moreover have "slice 0 96 demo_user = fw_xfer_bytes demo_req"
    unfolding demo_user_def
    by (rule slice_append_here) (simp add: lengths_of_requests demo_req_def demo_images_def)
  ultimately show ?thesis by (simp add: size_of_abi)
qed

definition demo_fw_platform :: amba_pci_platform where
  "demo_fw_platform = set_entry demo_platform 0 demo_entry"

lemma demo_fw_platform_ok: "plat_ok demo_fw_platform"
  unfolding demo_fw_platform_def by (rule set_entry_ok [OF demo_platform_ok _ demo_entry_ok]) simp

lemma demo_images_sent:
  assumes "e_boot_mem_base e = 0x10000" "e_boot_len e = 0x1000"
  shows "\<exists>w'. xfer_images demo_fw_kernel demo_req e pcie_fw_xfer_order w = Some (Ret 0, w')"
proof -
  let ?img = "\<lambda>t off len. \<lparr>img_type = t, img_reserved = 0, img_offset = off, img_length = len\<rparr>"
  have find: "pcie_fw_find_image demo_req 0 = Some (?img 0 8 5)" "pcie_fw_find_image demo_req 1 = Some (?img 1 16 6)"
    "pcie_fw_find_image demo_req 2 = Some (?img 2 0 7)"
    by (simp_all add: pcie_fw_find_image_def demo_req_def demo_images_def)
  have ptr: "fx_fw_user_ptr demo_req = 0x1060" by (simp add: demo_req_def)
  have c: "copy_from_user demo_fw_kernel 0x1068 5 = Some (slice 104 5 demo_user)"
    "copy_from_user demo_fw_kernel 0x1070 6 = Some (slice 112 6 demo_user)"
    "copy_from_user demo_fw_kernel 0x1060 7 = Some (slice 96 7 demo_user)"
    using demo_copy [of 104 5] demo_copy [of 112 6] demo_copy [of 96 7] by simp_all
  obtain w1 where a: "pcie_ring_xfer_user demo_fw_kernel 0x10000 0x1000 0x1060 (?img 0 8 5) w = Some (0, w1)"
    using demo_fw_image [of "?img 0 8 5" "0x1060"] c by auto
  obtain w2 where b: "pcie_ring_xfer_user demo_fw_kernel 0x10000 0x1000 0x1060 (?img 1 16 6) w1 = Some (0, w2)"
    using demo_fw_image [of "?img 1 16 6" "0x1060"] c by auto
  obtain w3 where d: "pcie_ring_xfer_user demo_fw_kernel 0x10000 0x1000 0x1060 (?img 2 0 7) w2 = Some (0, w3)"
    using demo_fw_image [of "?img 2 0 7" "0x1060"] c by auto
  show ?thesis using a b d by (simp add: pcie_fw_xfer_order_def find ptr assms)
qed

lemma demo_refresh:
  "\<exists>e1 w1. pcie_dev_refresh_board_info_locked demo_fw_kernel demo_entry w = ((0, e1), w1) \<and>
     e_boot_mem_base e1 = 0x10000 \<and> e_boot_len e1 = 0x1000 \<and> e_pdev e1 = Some demo_pci_dev"
  by (simp add: pcie_dev_refresh_board_info_locked_def demo_entry_def zero_entry_def
      pcie_boot_bar_ensure_mapped_def numeral_3_eq_3 pcie_map_boot_bar_def
      pcie_boot_bar_find_def map_chosen_bar_def pcie_enable_mem_io_resource_def demo_eval upt_rec split: prod.splits)

lemma demo_ready: "\<exists>w'. pcie_ring_wait_ep_ready demo_fw_kernel 0x10000 w = Some (0, w')"
  by (simp add: pcie_ring_wait_ep_ready_def demo_eval wait_u32_loop.simps)

lemma demo_locked:
  "\<exists>e' w'. xfer_firmware_locked demo_fw_kernel demo_req demo_entry w = Some ((Ret 0, e', True), w')"
proof -
  obtain e1 w1 where r: "pcie_dev_refresh_board_info_locked demo_fw_kernel demo_entry w = ((0, e1), w1)"
    "e_boot_mem_base e1 = 0x10000" "e_boot_len e1 = 0x1000" "e_pdev e1 = Some demo_pci_dev"
    using demo_refresh by blast
  obtain w2 where rd: "pcie_ring_wait_ep_ready demo_fw_kernel 0x10000
      (kdo demo_fw_kernel (KC_pci_set_master (pd_handle demo_pci_dev)) w1) = Some (0, w2)" using demo_ready by blast
  obtain w3 where im: "xfer_images demo_fw_kernel demo_req e1 pcie_fw_xfer_order w2 = Some (Ret 0, w3)"
    using demo_images_sent [OF r(2,3)] by blast
  have st: "e_in_use demo_entry" "e_state demo_entry = AMBA_PCI_STATE_DISCONNECTED"
    by (simp_all add: demo_entry_def zero_entry_def)
  show ?thesis
    by (simp add: xfer_firmware_locked_def st r rd im split: prod.splits)
qed

definition demo_rm :: "nat remove_fn" where
  "demo_rm = bus_remove demo_fw_kernel"

lemma demo_ioctl:
  "\<exists>g' w'. pcie_ioctl_xfer_firmware demo_fw_kernel shl32 demo_rm 0x1000 demo_fw_platform demo_world = Some ((Ret 0, g'), w')"
proof -
  have ok: "fw_request_ok shl32 demo_req"
    using fw_request_ok_iff [OF shl32_ok, of demo_req]
    by (auto simp: demo_req_def demo_images_def image_in_bounds_def pcie_fw_xfer_order_def)
  have dec: "fw_xfer_of_bytes (fw_xfer_bytes demo_req) = demo_req"
    by (rule fw_xfer_round_trip) (simp add: demo_req_def demo_images_def)
  have at: "g_devs demo_fw_platform ! unat (fx_slot_id demo_req) = demo_entry"
    by (simp add: demo_fw_platform_def set_entry_def demo_platform_def zero_platform_def demo_req_def numeral_eq_Suc)
  obtain e' w1 where l: "xfer_firmware_locked demo_fw_kernel demo_req demo_entry (kdo demo_fw_kernel KC_mutex_lock demo_world)
      = Some ((Ret 0, e', True), w1)" using demo_locked by blast
  show ?thesis
    unfolding pcie_ioctl_xfer_firmware_def demo_copy_req
    by (simp add: dec ok at l Let_def split: option.splits prod.splits)
qed

subsection \<open>Failures and termination\<close>

text \<open>C17: A firmware transfer that does not return 0 changes no slot: every card keeps its state, its
  device and its boot timeout, the device is not handed over for removal, and every slot stays
  well formed.\<close>

theorem xfer_firmware_failed:
  assumes "pcie_ioctl_xfer_firmware K shl rm argp g w = Some ((res, g'), w')"
    and "plat_ok g" and "res \<noteq> Ret 0"
  shows "plat_ok g' \<and> map abs_slot (g_devs g') = map abs_slot (g_devs g) \<and>
    map e_work_pending (g_devs g') = map e_work_pending (g_devs g)"
  using assms(1,2)
proof (cases rule: xfer_ioctl_cases)
  case rejected
  then show ?thesis using assms(2) by simp
next
  case (ran bs req i e hot w1)
  from xfer_locked_failed [OF ran(6) plat_ok_slot [OF assms(2) ran(4)] assms(3)]
  have f: "\<not> hot" "same_but_board (g_devs g ! i) e" "slot_ok i e" by blast+
  with ran(7) have g': "g' = set_entry g i e" by (simp split: if_splits)
  have len: "length (g_devs g) = 4" using assms(2) by (simp add: plat_ok_def)
  have "abs_slot e = abs_slot (g_devs g ! i)" "e_work_pending e = e_work_pending (g_devs g ! i)"
    using f(2) by (simp_all add: same_but_board_def abs_slot_def)
  then have "map abs_slot (g_devs g') = map abs_slot (g_devs g)"
    "map e_work_pending (g_devs g') = map e_work_pending (g_devs g)"
    using ran(4) len unfolding g' set_entry_def by (simp_all add: map_update list_update_id [symmetric] nth_map)
      (metis list_update_id nth_map)+
  then show ?thesis using set_entry_ok [OF assms(2) ran(4) f(3)] g' by simp
qed

theorem xfer_firmware_failed_witness:
  "\<exists>g' w'. pcie_ioctl_xfer_firmware demo_fw_kernel shl32 demo_rm 0x9000 demo_fw_platform demo_world = Some ((Ret (- EFAULT), g'), w') \<and>
     map abs_slot (g_devs g') = map abs_slot (g_devs demo_fw_platform)"
proof -
  have "copy_from_user demo_fw_kernel 0x9000 (size_of fw_xfer_layout) = None"
    by (simp add: size_of_abi copy_from_user_numeral user_memory_def length_demo_user)
  then have run: "pcie_ioctl_xfer_firmware demo_fw_kernel shl32 demo_rm 0x9000 demo_fw_platform demo_world
      = Some ((Ret (- EFAULT), demo_fw_platform), demo_world)"
    by (simp add: pcie_ioctl_xfer_firmware_def)
  from xfer_firmware_failed [OF run demo_fw_platform_ok] run show ?thesis by simp
qed

text \<open>Why the card could not be reached: a fixed code, or the code of a write of its command register.\<close>

lemma refresh_error:
  assumes "pcie_dev_refresh_board_info_locked K e w = ((r, e'), w')" "slot_ok i e" "r \<noteq> 0"
  shows "r \<in> {- ENODEV, - ETIMEDOUT, - EIO} \<or> (\<exists>cs p. calls w' = calls w @ cs \<and> config_failed p r cs)"
  using assms(1)
proof (cases rule: refresh_cases)
  case (map_failed pd)
  have bar: "e_boot_bar e < 6" using assms(2) by (simp add: slot_ok_def)
  obtain r1 e1 w1 where m: "map_attempts K pd PCIE_BOOT_BAR_MAP_RETRY_MAX 0 e w = ((r1, e1), w1)"
    by (metis prod.exhaust)
  have out: "r = (if r1 = - ENXIO then - ETIMEDOUT else r1)" "w' = w1"
    using map_failed m by (auto simp: pcie_boot_bar_ensure_mapped_def Let_def split: if_splits)
  obtain cs ds where "calls w1 = calls w @ cs @ ds"
    "r1 = 0 \<and> mapping_calls (pd_handle pd) e1 ds \<or> r1 = - ENXIO \<or> r1 = - EIO \<or> config_failed (pd_handle pd) r1 ds"
    using map_attempts_calls [OF m _ bar] map_failed by auto
  then show ?thesis using out assms(3) by (cases "r1 = - ENXIO") (auto intro: exI [of _ "cs @ ds"])
qed (use assms(3) in auto)

lemma xfer_locked_error:
  assumes "xfer_firmware_locked K req e w = Some ((Ret r, e', hot), w')" "slot_ok i e" "length (k_junk K 512) = 512"
  shows "r \<in> {0, - ENODEV, - EBUSY, - ENOMEM, - EINVAL, - EFAULT, - ETIMEDOUT, - EIO} \<or>
    (\<exists>cs p. calls w' = calls w @ cs \<and> config_failed p r cs)"
  using assms(1,2)
proof (cases rule: xfer_locked_cases)
  case (unmapped r')
  then show ?thesis using refresh_error [OF unmapped(6) assms(2) unmapped(2)] by auto
next
  case (not_ready r' w1 pd)
  then show ?thesis using wait_ep_ready_frame(3) by fastforce
next
  case (images e1 w1 w2 pd)
  then obtain w3 where "xfer_images K req e1 pcie_fw_xfer_order w2 = Some (Ret r, w3)" by blast
  with xfer_images_result [OF assms(3) this] show ?thesis by auto
qed auto

text \<open>C18: Where the types of the request are below 32, a firmware transfer always returns, whatever the
  endpoint does: no NULL descriptor and no NULL device is used. The result is 0, one of the driver's
  own errnos, or, passed on as it is, the non-zero code with which a write of the card's command
  register failed during the call.\<close>

theorem xfer_firmware_returns:
  assumes "steady_clock K us tick" and "length (k_junk K 512) = 512" and "plat_ok g" and "shift_ok shl"
    and "\<forall>bs. copy_from_user K argp (size_of fw_xfer_layout) = Some bs \<longrightarrow>
           (\<forall>img \<in> set (fx_images (fw_xfer_of_bytes bs)). unat (img_type img) < 32)"
  shows "\<exists>r g' w'. pcie_ioctl_xfer_firmware K shl rm argp g w = Some ((Ret r, g'), w') \<and>
    (r \<in> {0, - EFAULT, - EINVAL, - ENODEV, - EBUSY, - ENOMEM, - ETIMEDOUT, - EIO} \<or>
     (\<exists>cs p. calls w' = calls w @ cs \<and> config_failed p r cs))"
proof (cases "copy_from_user K argp (size_of fw_xfer_layout)")
  case None
  then show ?thesis by (simp add: pcie_ioctl_xfer_firmware_def)
next
  case (Some bs)
  define req where "req = fw_xfer_of_bytes bs"
  let ?i = "unat (fx_slot_id req)"
  show ?thesis
  proof (cases "fw_request_ok shl req")
    case False
    with Some show ?thesis by (simp add: pcie_ioctl_xfer_firmware_def req_def)
  next
    case True
    have types: "\<forall>img \<in> set (fx_images req). unat (img_type img) < 32" using assms(5) Some by (simp add: req_def)
    have iff: "?i < AMBA_PCI_DEV_MAX" "set (map img_type (fx_images req)) = set pcie_fw_xfer_order"
      using fw_request_ok_iff [OF assms(4) types] True by (simp_all add: req_def)
    note slot = plat_ok_slot [OF assms(3) iff(1)]
    obtain res e hot w1 where l:
      "xfer_firmware_locked K req (g_devs g ! ?i) (kdo K KC_mutex_lock w) = Some ((res, e, hot), w1)"
      using xfer_locked_total [OF assms(1,2)] slot by blast
    have "res \<noteq> Null_Deref"
      using xfer_locked_no_null [OF l slot assms(2)] find_image_total [OF iff(2)] by auto
    then obtain r where r: "res = Ret r" by (cases res) auto
    note err = xfer_locked_error [OF l [unfolded r] slot assms(2)]
    show ?thesis
    proof (cases "r = 0")
      case True
      with l r \<open>fw_request_ok shl req\<close> Some show ?thesis
        by (auto simp: pcie_ioctl_xfer_firmware_def req_def Let_def split: option.splits prod.splits)
    next
      case False
      then have "\<not> hot" using xfer_locked_failed [OF l slot] r by simp
      with l r True Some have run: "pcie_ioctl_xfer_firmware K shl rm argp g w =
          Some ((Ret r, set_entry g ?i e), kdo K KC_mutex_unlock w1)"
        by (simp add: pcie_ioctl_xfer_firmware_def req_def Let_def)
      have "\<exists>cs p. calls (kdo K KC_mutex_unlock w1) = calls w @ cs \<and> config_failed p r cs"
        if "calls w1 = calls (kdo K KC_mutex_lock w) @ cs" "config_failed p r cs" for cs p
        using that by (intro exI [of _ "(KC_mutex_lock, fst (kcall K KC_mutex_lock w)) # cs @
            [(KC_mutex_unlock, fst (kcall K KC_mutex_unlock w1))]"] exI [of _ p]) (auto simp: kframe config_failed_def)
      with run err show ?thesis by blast
    qed
  qed
qed

theorem xfer_firmware_returns_witness:
  "\<exists>r g' w'. pcie_ioctl_xfer_firmware demo_fw_kernel shl32 demo_rm 0x1000 demo_fw_platform demo_world = Some ((Ret r, g'), w') \<and>
     (r \<in> {0, - EFAULT, - EINVAL, - ENODEV, - EBUSY, - ENOMEM, - ETIMEDOUT, - EIO} \<or>
      (\<exists>cs p. calls w' = calls demo_world @ cs \<and> config_failed p r cs))"
proof -
  have "fw_xfer_of_bytes (fw_xfer_bytes demo_req) = demo_req"
    by (rule fw_xfer_round_trip) (simp add: demo_req_def demo_images_def)
  then have "\<forall>bs. copy_from_user demo_fw_kernel 0x1000 (size_of fw_xfer_layout) = Some bs \<longrightarrow>
           (\<forall>img \<in> set (fx_images (fw_xfer_of_bytes bs)). unat (img_type img) < 32)"
    unfolding demo_copy_req by (simp add: demo_req_def demo_images_def)
  from xfer_firmware_returns [OF demo_fw_steady demo_fw_junk demo_fw_platform_ok shl32_ok this]
  show ?thesis .
qed

end
