(* ===== verification/Ring_Liveness.thy ===== *)
theory Ring_Liveness
  imports Ring_Xfer_Props
begin

section \<open>Progress of the ring against a prompt endpoint\<close>

text \<open>
  When a transfer does succeed. The endpoint is taken to be prompt: whenever it runs it has
  drained the ring (\<open>avail = used + num\<close>) and it leaves the words of the header that the driver
  owns or that describe the ring alone. Against such an endpoint no wait of the driver times out,
  every descriptor is accepted at once, and the driver's own position \<open>cur_avail\<close> follows
  \<open>used\<close> through the whole transfer, also where the 32-bit counters wrap around.
\<close>

definition prompt_ep :: "'d kernel \<Rightarrow> u64 \<Rightarrow> bool" where
  "prompt_ep K base \<longleftrightarrow>
     (\<forall>d m. ring_word base 8 (snd (k_ep K d m)) = ring_word base 12 m + ring_word base 16 m \<and>
        (\<forall>off \<in> {12, 16, 20}. ring_word base off (snd (k_ep K d m)) = ring_word base off m))"

text \<open>Such an endpoint is online when its magic number and its state are in place.\<close>

definition online_ep :: "'d kernel \<Rightarrow> u64 \<Rightarrow> bool" where
  "online_ep K base \<longleftrightarrow>
     (\<forall>d m. ring_word base 0 (snd (k_ep K d m)) = RING_MAGIC \<and> ring_word base 4 (snd (k_ep K d m)) = RING_STATE_ONLINE)"

definition ring_live :: "u64 \<Rightarrow> u32 \<Rightarrow> u32 \<Rightarrow> u32 \<Rightarrow> 'd world \<Rightarrow> bool" where
  "ring_live base num max_blk used w \<longleftrightarrow>
     ring_word base 12 (w_io w) = used \<and> ring_word base 16 (w_io w) = num \<and> ring_word base 20 (w_io w) = max_blk"

definition timeout_fits :: "'d kernel \<Rightarrow> bool" where
  "timeout_fits K \<longleftrightarrow> 0 < unat (k_msecs K 5000) \<and> unat (k_msecs K 5000) < 2 ^ 62"

subsection \<open>Primitive accesses\<close>

lemma live_ep_turn:
  assumes "prompt_ep K base" "ring_live base num mb used w"
  shows "ring_live base num mb used (ep_turn K w)" "ring_word base 8 (w_io (ep_turn K w)) = used + num"
  using assms by (simp_all add: prompt_ep_def ring_live_def ep_turn_def split: prod.splits)
    (metis snd_conv)+

text \<open>The same from the world \<open>u\<close> on, where every reading of \<open>num\<close> was the number of descriptors.\<close>

fun num_seen :: "u64 \<Rightarrow> u32 \<Rightarrow> event \<Rightarrow> bool" where
  "num_seen base num (Readl a v) = (a = base + RH_NUM_OFF \<longrightarrow> v = num)"
| "num_seen base num (Writel a v) = True"
| "num_seen base num (MemcpyToio a bs) = True"
| "num_seen base num (Call c r) = True"

definition live_since :: "'d world \<Rightarrow> u64 \<Rightarrow> u32 \<Rightarrow> u32 \<Rightarrow> u32 \<Rightarrow> 'd world \<Rightarrow> bool" where
  "live_since u base num max_blk used w \<longleftrightarrow> ring_live base num max_blk used w \<and> did (num_seen base num) u w"

lemma live_start: "ring_live base num mb used w \<Longrightarrow> live_since w base num mb used w"
  by (simp add: live_since_def)

lemma num_seen_few: "num_seen base num e \<Longrightarrow> num \<le> 21 \<Longrightarrow> few_descs base e"
  by (cases e) auto

lemma live_few:
  assumes "live_since u base num mb used w" "w_trc w = w_trc u @ evs" "num \<le> 21"
  shows "\<forall>ev \<in> set evs. few_descs base ev"
  using assms num_seen_few by (auto simp: live_since_def did_def)

lemma live_kcall [intro]: "live_since u base num mb used w \<Longrightarrow> live_since u base num mb used (snd (kcall K c w))"
  by (simp add: live_since_def ring_live_def kframe)

lemma live_kdo [intro]: "live_since u base num mb used w \<Longrightarrow> live_since u base num mb used (kdo K c w)"
  by (simp add: kdo_def live_kcall)

lemma live_readl:
  assumes "prompt_ep K base" "live_since u base num mb used w"
  shows "live_since u base num mb used (snd (readl K a w))"
proof -
  from assms(2) have live: "ring_live base num mb used w" and u: "did (num_seen base num) u w"
    by (simp_all add: live_since_def)
  note turn = live_ep_turn(1) [OF assms(1) live]
  have "did (num_seen base num) u (snd (readl K a w))"
    by (rule did_snoc [OF u, of _ "Readl a (fst (readl K a w))"])
      (use turn in \<open>simp_all add: readl_def Let_def ring_live_def ring_word_def\<close>)
  with turn show ?thesis by (simp add: live_since_def readl_def Let_def ring_live_def)
qed

lemma live_r32:
  assumes "prompt_ep K base" "live_since u base num mb used w"
  shows "live_since u base num mb used (snd (pcie_ring_r32 K base off w))"
    "fst (pcie_ring_r32 K base 8 w) = used + num" "fst (pcie_ring_r32 K base 12 w) = used"
    "fst (pcie_ring_r32 K base 16 w) = num" "fst (pcie_ring_r32 K base 20 w) = mb"
proof -
  show "live_since u base num mb used (snd (pcie_ring_r32 K base off w))"
    unfolding pcie_ring_r32_def by (rule live_readl [OF assms])
  from live_ep_turn [OF assms(1)] assms(2)
  have "ring_live base num mb used (ep_turn K w)" "ring_word base 8 (w_io (ep_turn K w)) = used + num"
    by (auto simp: live_since_def)
  then show "fst (pcie_ring_r32 K base 8 w) = used + num" "fst (pcie_ring_r32 K base 12 w) = used"
    "fst (pcie_ring_r32 K base 16 w) = num" "fst (pcie_ring_r32 K base 20 w) = mb"
    by (simp_all add: pcie_ring_r32_def pcie_ring_ptr_def readl_def Let_def ring_live_def ring_word_def)
qed

lemma live_writel:
  assumes "prompt_ep K base" "live_since u base num mb used w" "24 \<le> j" "j + 4 \<le> 2 ^ 64" "a = base + of_nat j"
  shows "live_since u base num mb used (writel K v a w)"
proof -
  from assms(2) have u: "did (num_seen base num) u w" by (simp add: live_since_def)
  have "did (num_seen base num) u (writel K v a w)"
    by (rule did_snoc [OF u, of _ "Writel a v"]) (simp_all add: writel_def Let_def)
  moreover have "ring_live base num mb used (writel K v a w)"
    using live_ep_turn(1) [OF assms(1)] assms(2,3,4)
    unfolding assms(5) writel_def Let_def live_since_def by (simp add: ring_live_def ring_word_before)
  ultimately show ?thesis by (simp add: live_since_def)
qed

lemma live_memcpy:
  assumes "prompt_ep K base" "live_since u base num mb used w" "24 \<le> j" "j + length bs \<le> 2 ^ 64" "a = base + of_nat j"
  shows "live_since u base num mb used (memcpy_toio K a bs w)"
proof -
  from assms(2) have u: "did (num_seen base num) u w" by (simp add: live_since_def)
  have "did (num_seen base num) u (memcpy_toio K a bs w)"
    by (rule did_snoc [OF u, of _ "MemcpyToio a bs"]) (simp_all add: memcpy_toio_def Let_def)
  moreover have "ring_live base num mb used (memcpy_toio K a bs w)"
    using live_ep_turn(1) [OF assms(1)] assms(2,3,4)
    unfolding assms(5) memcpy_toio_def Let_def live_since_def by (simp add: ring_live_def ring_word_before)
  ultimately show ?thesis by (simp add: live_since_def)
qed

lemma live_set_used:
  assumes "prompt_ep K base" "live_since u base num mb used w"
  shows "live_since u base num mb v (pcie_ring_w32 K base RH_USED_OFF v w)"
proof -
  have "ring_word base 12 (write_bytes m (base + of_nat 12) (to_le 4 v)) = v" for m by (rule ring_word_same)
  moreover have "ring_word base off (write_bytes m (base + of_nat 12) (to_le 4 v)) = ring_word base off m"
    if "off = 16 \<or> off = 20" for off m
    by (rule ring_word_after) (use that in auto)
  moreover from assms(2) have u: "did (num_seen base num) u w" by (simp add: live_since_def)
  have "did (num_seen base num) u (pcie_ring_w32 K base RH_USED_OFF v w)"
    by (rule did_snoc [OF u, of _ "Writel (base + 12) v"])
      (simp_all add: pcie_ring_w32_def pcie_ring_ptr_def writel_def Let_def)
  ultimately show ?thesis
    using live_ep_turn(1) [OF assms(1)] assms(2)
    by (simp add: pcie_ring_w32_def pcie_ring_ptr_def writel_def Let_def ring_live_def live_since_def)
qed

subsection \<open>Waiting and posting\<close>

lemma time_before_timeout:
  assumes "timeout_fits K"
  shows "time_before j (j + k_msecs K 5000)"
proof -
  let ?t = "unat (k_msecs K 5000)"
  have "time_before (of_nat (unat j)) (of_nat (unat j + ?t)) \<longleftrightarrow> unat j < unat j + ?t"
    by (rule time_before_nat) (use assms in \<open>simp_all add: timeout_fits_def\<close>)
  with assms show ?thesis by (simp add: timeout_fits_def)
qed

lemma wait_credit:
  assumes "prompt_ep K base" "timeout_fits K" "live_since u base num mb used w" "num \<noteq> 0"
  obtains w' where "pcie_ring_wait_u32 K base RH_AVAIL_OFF used False 5000 w = Some (0, w')"
    "live_since u base num mb used w'"
proof -
  have "wait_done used False (fst (pcie_ring_r32 K base 8 w))"
    using live_r32(2) [OF assms(1,3)] assms(4) by (simp add: wait_done_def)
  then have "pcie_ring_wait_u32 K base RH_AVAIL_OFF used False 5000 w = Some (0, snd (pcie_ring_r32 K base 8 w))"
    using time_before_timeout [OF assms(2)]
    by (simp add: pcie_ring_wait_u32_def wait_u32_loop.simps)
  with live_r32(1) [OF assms(1,3), of 8] show thesis by (intro that)
qed

lemma desc_at:
  "rc_num ctx \<noteq> 0 \<Longrightarrow> \<exists>s < 2 ^ 32. \<forall>k. ring_desc_of ctx + of_nat (4 * k) = rc_base ctx + of_nat (80 + 20 * s + 4 * k)"
  using unat_u32_less [of "rc_cur_avail ctx mod rc_num ctx"]
  by (intro exI [of _ "unat (rc_cur_avail ctx mod rc_num ctx)"])
    (simp add: desc_word del: of_nat_add of_nat_mult)

lemma live_write_desc:
  assumes "prompt_ep K (rc_base ctx)" "live_since u (rc_base ctx) num mb used w" "rc_num ctx \<noteq> 0"
  shows "live_since u (rc_base ctx) num mb used (write_desc K (ring_desc_of ctx) cmd sz addr blk w)"
proof -
  obtain s where s: "s < 2 ^ 32"
    "\<forall>k. ring_desc_of ctx + of_nat (4 * k) = rc_base ctx + of_nat (80 + 20 * s + 4 * k)"
    using desc_at [OF assms(3)] by blast
  have word: "live_since u (rc_base ctx) num mb used (pcie_ring_w32 K (ring_desc_of ctx) (of_nat (4 * k)) v w0)"
    if "live_since u (rc_base ctx) num mb used w0" "k < 5" for k v w0
    unfolding pcie_ring_w32_def pcie_ring_ptr_def
    by (rule live_writel [OF assms(1) that(1) _ _ s(2) [rule_format]]) (use s(1) that(2) in simp_all)
  from word [of _ 0] word [of _ 1] word [of _ 2] word [of _ 3] word [of _ 4] assms(2)
  show ?thesis by (simp add: write_desc_def)
qed

lemma live_bump:
  assumes "prompt_ep K base" "live_since u base num mb used w"
  shows "live_since u base num mb (used + 1) (bump_used K base w)"
  using live_set_used [OF assms(1) live_r32(1) [OF assms, of 12], of "used + 1"] live_r32(3) [OF assms]
  by (simp add: bump_used_def case_prod_beta)

text \<open>The context of a transfer in step with the ring.\<close>

definition in_step :: "u64 \<Rightarrow> u32 \<Rightarrow> u32 \<Rightarrow> u32 \<Rightarrow> pcie_ring_ctx \<Rightarrow> bool" where
  "in_step base num mb used ctx \<longleftrightarrow>
     rc_base ctx = base \<and> rc_num ctx = num \<and> rc_max_blk ctx = mb \<and> rc_cur_avail ctx = used \<and> num \<noteq> 0 \<and> mb \<noteq> 0"

lemma post_data_live:
  assumes "prompt_ep K base" "timeout_fits K" "live_since u base num mb used w" "in_step base num mb used ctx"
    and "unat csz \<le> 512"
  obtains ctx' w' where "pcie_ring_post_data K ctx chunk csz addr w = Some ((0, ctx'), w')"
    "live_since u base num mb (used + 1) w'" "in_step base num mb (used + 1) ctx'"
proof -
  from assms(4) have c: "rc_base ctx = base" "rc_num ctx \<noteq> 0" "rc_max_blk ctx \<noteq> 0" "rc_cur_avail ctx = used"
    by (auto simp: in_step_def)
  obtain w1 where w1: "pcie_ring_wait_u32 K base RH_AVAIL_OFF used False 5000 w = Some (0, w1)"
    "live_since u base num mb used w1"
    using wait_credit [OF assms(1-3)] assms(4) by (auto simp: in_step_def)
  let ?blk = "rc_cur_blk ctx mod rc_max_blk ctx" and ?bs = "take (unat csz) chunk"
  let ?w2 = "write_desc K (ring_desc_of ctx) RING_CMD_DATA csz addr ?blk w1"
  let ?w3 = "memcpy_toio K (ring_blk_of ctx) ?bs ?w2"
  let ?w4 = "bump_used K base ?w3"
  have w2: "live_since u base num mb used ?w2"
    using live_write_desc [of K ctx u num mb used w1] assms(1) w1(2) c by simp
  have "ring_write_ok base num (rc_max_blk ctx) (MemcpyToio (ring_blk_of ctx) [])"
    using data_write_ok [of ctx "[]" num] c by simp
  then obtain b where b: "b < unat (rc_max_blk ctx)" "ring_blk_of ctx = base + of_nat ((b + 1) * 512)"
    unfolding ring_write_ok.simps by blast
  have w3: "live_since u base num mb used ?w3"
  proof (rule live_memcpy [OF assms(1) w2 _ _ b(2)])
    show "24 \<le> (b + 1) * 512" by simp
    have "b < 2 ^ 32" using b(1) unat_u32_less [of "rc_max_blk ctx"] by simp
    moreover have "length ?bs \<le> 512" using assms(5) by simp
    ultimately show "(b + 1) * 512 + length ?bs \<le> 2 ^ 64" by simp
  qed
  let ?ctx' = "ctx\<lparr>rc_cur_blk := rc_cur_blk ctx + 1, rc_cur_avail := rc_cur_avail ctx + 1\<rparr>"
  have "pcie_ring_post_data K ctx chunk csz addr w = Some ((0, ?ctx'), ?w4)"
    using w1(1) c by (simp add: pcie_ring_post_data_def Let_def ring_desc_of_def ring_blk_of_def)
  moreover have "live_since u base num mb (used + 1) ?w4" by (rule live_bump [OF assms(1) w3])
  moreover have "in_step base num mb (used + 1) ?ctx'" using assms(4) by (simp add: in_step_def)
  ultimately show thesis by (rule that)
qed

lemma post_cmd_live:
  assumes "prompt_ep K base" "timeout_fits K" "live_since u base num mb used w" "in_step base num mb used ctx"
  obtains ctx' w' where "pcie_ring_post_cmd K ctx cmd sz addr w = Some ((0, ctx'), w')"
    "live_since u base num mb (used + 1) w'"
proof -
  from assms(4) have c: "rc_base ctx = base" "rc_num ctx \<noteq> 0" "rc_cur_avail ctx = used"
    by (auto simp: in_step_def)
  obtain w1 where w1: "pcie_ring_wait_u32 K base RH_AVAIL_OFF used False 5000 w = Some (0, w1)"
    "live_since u base num mb used w1"
    using wait_credit [OF assms(1-3)] assms(4) by (auto simp: in_step_def)
  let ?w2 = "write_desc K (ring_desc_of ctx) cmd sz addr 0 w1"
  have "live_since u base num mb used ?w2"
    using live_write_desc [of K ctx u num mb used w1] assms(1) w1(2) c by simp
  then have "live_since u base num mb (used + 1) (bump_used K base ?w2)" by (rule live_bump [OF assms(1)])
  moreover have "pcie_ring_post_cmd K ctx cmd sz addr w =
      Some ((0, ctx\<lparr>rc_cur_avail := rc_cur_avail ctx + 1\<rparr>), bump_used K base ?w2)"
    using w1(1) c by (simp add: pcie_ring_post_cmd_def Let_def ring_desc_of_def)
  ultimately show thesis by (rule that [rotated])
qed

lemma poll_live:
  assumes "prompt_ep K base" "timeout_fits K" "live_since u base num mb used w"
  obtains w' where "pcie_ring_xfer_poll K base 5000 w = Some (0, w')" "live_since u base num mb used w'"
proof -
  let ?w1 = "snd (pcie_ring_r32 K base 12 w)" let ?w2 = "snd (pcie_ring_r32 K base 16 ?w1)"
  let ?w3 = "snd (pcie_ring_r32 K base 8 ?w2)"
  note l1 = live_r32(1) [OF assms(1,3), of 12]
  note l2 = live_r32(1) [OF assms(1) l1, of 16]
  have "xfer_poll_read K base w = (True, ?w3)"
    using live_r32(3) [OF assms(1,3)] live_r32(4) [OF assms(1) l1] live_r32(2) [OF assms(1) l2]
    by (simp add: xfer_poll_read_def case_prod_beta)
  then have "pcie_ring_xfer_poll K base 5000 w = Some (0, ?w3)"
    using time_before_timeout [OF assms(2)]
    by (simp add: pcie_ring_xfer_poll_def xfer_poll_loop.simps)
  with live_r32(1) [OF assms(1) l2] show thesis by (intro that)
qed

subsection \<open>A whole transfer\<close>

definition data_blocks :: "nat \<Rightarrow> nat" where
  "data_blocks n = (n + 511) div 512"

lemma data_blocks_step: "0 < n \<Longrightarrow> data_blocks n = Suc (data_blocks (n - min 512 n))"
  by (cases "n \<le> 512") (simp_all add: data_blocks_def min_def div_le_mono le_div_geq)

lemma image_at_parts:
  assumes "image_at K src len pos (a + b) \<noteq> None"
  shows "image_at K src len pos a \<noteq> None" "image_at K src len (pos + a) b \<noteq> None"
  using assms unfolding image_at_append by (auto split: option.splits)

lemma xfer_chunks_live:
  assumes "prompt_ep K base" "timeout_fits K" "live_since u base num mb used w" "in_step base num mb used ctx"
    and "pos \<le> tot" "length chunk = 512"
    and "image_at K src (unat data_len) (unat pos) (unat tot - unat pos) \<noteq> None"
  shows "\<exists>ctx' w'. xfer_chunks K src data_len load_addr tot pos chunk ctx w = Some ((0, ctx'), w') \<and>
    (let used' = used + of_nat (data_blocks (unat tot - unat pos))
     in live_since u base num mb used' w' \<and> in_step base num mb used' ctx')"
  using assms(3-)
proof (induction "unat tot - unat pos" arbitrary: pos chunk ctx w used rule: less_induct)
  case less
  let ?cs = "chunk_size tot pos"
  show ?case
  proof (cases "pos < tot")
    case False
    with less.prems(3) have "tot = pos" by simp
    with less.prems show ?thesis by (simp add: xfer_chunks_done data_blocks_def)
  next
    case lt: True
    note step = chunk_step [OF lt]
    have split: "unat tot - unat pos = unat ?cs + (unat tot - unat (pos + ucast ?cs))"
      using step(1,2) by (simp add: word_le_nat_alt)
    note parts = image_at_parts [OF less.prems(5) [unfolded split]]
    obtain c where fc: "fill_chunk K src data_len pos ?cs chunk = Some c" and c: "length c = 512"
      using fill_chunk_image [OF less.prems(4) step(4), of K src data_len pos] parts(1)
      by (auto split: option.splits)
    obtain ctx1 w1 where post: "pcie_ring_post_data K ctx c ?cs (load_addr + pos) w = Some ((0, ctx1), w1)"
      "live_since u base num mb (used + 1) w1" "in_step base num mb (used + 1) ctx1"
      using post_data_live [OF assms(1,2) less.prems(1,2) step(4)] by blast
    have smaller: "unat tot - unat (pos + ucast ?cs) < unat tot - unat pos"
      using step(1,3) lt by (simp add: word_less_nat_alt)
    have "0 < unat tot - unat pos" using lt by (simp add: word_less_nat_alt)
    then have blocks: "data_blocks (unat tot - unat pos) = Suc (data_blocks (unat tot - unat (pos + ucast ?cs)))"
      unfolding step(1) chunk_size_unat [OF lt] by (simp only: data_blocks_step diff_diff_left)
    have "image_at K src (unat data_len) (unat (pos + ucast ?cs)) (unat tot - unat (pos + ucast ?cs)) \<noteq> None"
      using parts(2) step(1) by simp
    from less.hyps [OF smaller post(2,3) step(2) c this]
    have "\<exists>ctx' w'. xfer_chunks K src data_len load_addr tot (pos + ucast ?cs) c ctx1 w1 = Some ((0, ctx'), w') \<and>
      (let used' = used + of_nat (data_blocks (unat tot - unat pos))
       in live_since u base num mb used' w' \<and> in_step base num mb used' ctx')"
      unfolding blocks by (simp add: algebra_simps)
    moreover have "xfer_chunks K src data_len load_addr tot pos chunk ctx w =
        xfer_chunks K src data_len load_addr tot (pos + ucast ?cs) c ctx1 w1"
      unfolding xfer_chunks_step [OF lt fc] post(1) by simp
    ultimately show ?thesis by (simp only:)
  qed
qed

lemma ctx_init_live:
  assumes "prompt_ep K base" "live_since u base num mb used w" "num \<noteq> 0" "mb \<noteq> 0"
    and "ucast (mb + 1) * ucast RING_BLOCK_SIZE \<le> map_size"
  obtains ctx w' where "pcie_ring_ctx_init K base map_size zero_ring_ctx w = ((0, ctx), w')"
    "live_since u base num mb used w'" "in_step base num mb used ctx"
proof -
  let ?w1 = "snd (pcie_ring_r32 K base 16 w)" let ?w2 = "snd (pcie_ring_r32 K base 20 ?w1)"
  let ?w3 = "snd (pcie_ring_r32 K base 8 ?w2)"
  let ?ctx = "zero_ring_ctx\<lparr>rc_base := base, rc_num := num, rc_max_blk := mb, rc_cur_avail := used + num - num, rc_cur_blk := 0\<rparr>"
  note l1 = live_r32(1) [OF assms(1,2), of 16]
  note l2 = live_r32(1) [OF assms(1) l1, of 20]
  have "pcie_ring_ctx_init K base map_size zero_ring_ctx w = ((0, ?ctx), ?w3)"
    using live_r32(4) [OF assms(1,2)] live_r32(5) [OF assms(1) l1] live_r32(2) [OF assms(1) l2] assms(3-5)
    by (simp add: pcie_ring_ctx_init_def case_prod_beta Let_def not_less)
  moreover have "in_step base num mb used ?ctx" using assms(3,4) by (simp add: in_step_def)
  ultimately show thesis using live_r32(1) [OF assms(1) l2, of 8] by (intro that)
qed

lemma xfer_user_live_at:
  assumes "prompt_ep K base" "timeout_fits K" "live_since u base num mb used w" "num \<noteq> 0" "mb \<noteq> 0"
    and "ucast (mb + 1) * ucast RING_BLOCK_SIZE \<le> map_size"
    and "length (k_junk K 512) = 512" and "fst (kcall K (KC_kmalloc 512) w) \<noteq> 0"
    and "image_at K (user_base + img_offset img) (unat (img_length img)) 0 (unat (padded_len (img_length img))) \<noteq> None"
  shows "\<exists>w'. pcie_ring_xfer_user K base map_size user_base img w = Some (0, w') \<and>
    live_since u base num mb (used + of_nat (data_blocks (unat (padded_len (img_length img))) + 1)) w'"
proof -
  let ?t = "unat (padded_len (img_length img))"
  obtain p w1 where km: "kcall K (KC_kmalloc 512) w = (p, w1)" "p \<noteq> 0" using assms(8) by (metis prod.exhaust fst_conv)
  with live_kcall [OF assms(3), of K "KC_kmalloc 512"] have l1: "live_since u base num mb used w1" by simp
  obtain ctx w2 where i: "pcie_ring_ctx_init K base map_size zero_ring_ctx w1 = ((0, ctx), w2)"
    "live_since u base num mb used w2" "in_step base num mb used ctx"
    using ctx_init_live [OF assms(1) l1 assms(4-6)] by blast
  have "image_at K (user_base + img_offset img) (unat (img_length img)) (unat (0 :: u64)) (?t - unat (0 :: u64)) \<noteq> None"
    using assms(9) by simp
  from xfer_chunks_live [OF assms(1,2) i(2,3) _ assms(7) this, of "pcie_fw_load_addr (img_type img)"]
  obtain ctx2 w3 where c: "xfer_chunks K (user_base + img_offset img) (img_length img) (pcie_fw_load_addr (img_type img))
         (padded_len (img_length img)) 0 (k_junk K 512) ctx w2 = Some ((0, ctx2), w3)"
    "live_since u base num mb (used + of_nat (data_blocks ?t)) w3" "in_step base num mb (used + of_nat (data_blocks ?t)) ctx2"
    by (auto simp: Let_def)
  obtain ctx3 w4 where d: "pcie_ring_post_cmd K ctx2 (tail_cmd (img_type img)) (tail_size (img_type img) (img_length img))
         (pcie_fw_load_addr (img_type img)) w3 = Some ((0, ctx3), w4)"
    "live_since u base num mb (used + of_nat (data_blocks ?t) + 1) w4"
    using post_cmd_live [OF assms(1,2) c(2,3)] by blast
  obtain w5 where e: "pcie_ring_xfer_poll K base 5000 w4 = Some (0, w5)"
    "live_since u base num mb (used + of_nat (data_blocks ?t) + 1) w5"
    using poll_live [OF assms(1,2) d(2)] by blast
  have "xfer_user_body K base map_size user_base img w1 = Some (0, w5)"
    using i(1) c(1) d(1) e(1) by (simp add: xfer_user_body_def)
  with km have "pcie_ring_xfer_user K base map_size user_base img w = Some (0, kdo K KC_kfree w5)"
    by (simp add: pcie_ring_xfer_user_def)
  with live_kdo [OF e(2), of K KC_kfree] show ?thesis by (simp add: algebra_simps)
qed

lemma xfer_user_live:
  assumes "prompt_ep K base" "timeout_fits K" "live_since u base num mb used w" "num \<noteq> 0" "mb \<noteq> 0"
    and "ucast (mb + 1) * ucast RING_BLOCK_SIZE \<le> map_size"
    and "length (k_junk K 512) = 512" and "unat (img_length img) + 15 < 2 ^ 64"
    and "fst (kcall K (KC_kmalloc 512) w) \<noteq> 0"
    and "copy_from_user K (user_base + img_offset img) (unat (img_length img)) \<noteq> None"
  shows "\<exists>w'. pcie_ring_xfer_user K base map_size user_base img w = Some (0, w') \<and>
    live_since u base num mb (used + of_nat (data_blocks (unat (padded_len (img_length img))) + 1)) w'"
proof (rule xfer_user_live_at [OF assms(1-7,9)])
  let ?n = "unat (img_length img)" and ?t = "unat (padded_len (img_length img))"
  have "?n \<le> ?t" by (rule padding(1) [OF assms(8)])
  then show "image_at K (user_base + img_offset img) ?n 0 ?t \<noteq> None"
    using assms(10) image_at_full [of K "user_base + img_offset img" ?n ?t] by (auto simp: min_absorb2)
qed

subsection \<open>A length that wraps\<close>

lemma live_geometry:
  assumes "prompt_ep K base" "live_since u base num mb used w"
  shows "ring_geometry K base w = (num, mb)"
  using live_r32(4) [OF assms] live_r32(5) [OF assms(1) live_r32(1) [OF assms, of 16]]
  by (simp add: ring_geometry_def case_prod_beta)

text \<open>C26: The padded length is computed as \<open>(length + 15) & ~15\<close> in 64 bits and wraps to 0 for a
  length within 15 of \<open>2^64\<close>. The transfer accepts such a length: against a prompt endpoint with at
  most 21 descriptors it returns 0, whatever the caller's buffer holds, and the endpoint finds in
  the ring no image data at all, only the command that announces an image.\<close>

theorem xfer_user_wrapped_length:
  assumes "prompt_ep K base" and "timeout_fits K" and "ring_live base num mb used w"
    and "0 < num" and "num \<le> 21" and "mb \<noteq> 0" and "ucast (mb + 1) * ucast RING_BLOCK_SIZE \<le> map_size"
    and "length (k_junk K 512) = 512" and "fst (kcall K (KC_kmalloc 512) w) \<noteq> 0"
    and "2 ^ 64 \<le> unat (img_length img) + 15"
  shows "\<exists>w' evs. pcie_ring_xfer_user K base map_size user_base img w = Some (0, w') \<and> w_trc w' = w_trc w @ evs \<and>
    (\<forall>m. ring_msgs base evs m =
       [MCmd (tail_cmd (img_type img)) (tail_size (img_type img) (img_length img)) (pcie_fw_load_addr (img_type img))])"
proof -
  note zero = padded_len_wraps [OF assms(10)] and live = live_start [OF assms(3)]
  obtain w' where ok: "pcie_ring_xfer_user K base map_size user_base img w = Some (0, w')"
    using xfer_user_live_at [OF assms(1,2) live _ assms(6-9), of user_base img] assms(4) zero by auto
  have geo: "ring_geometry K base (snd (kcall K (KC_kmalloc 512) w)) = (num, mb)"
    by (rule live_geometry [OF assms(1) live_kcall [OF live]])
  obtain evs bs where d: "w_trc w' = w_trc w @ evs"
    "image_at K (user_base + img_offset img) (unat (img_length img)) 0 (unat (padded_len (img_length img))) = Some bs"
    "num \<le> 21 \<longrightarrow> hands any_view base evs (transfer_msgs img bs) any_view"
    using ok assms(8) geo by (rule xfer_user_hands)
  from d(2) zero have "bs = []" by simp
  with hands_msgs [OF d(3) [rule_format, OF assms(5)]] ok d(1) show ?thesis
    by (auto simp: transfer_msgs_def)
qed

subsection \<open>A concrete prompt endpoint\<close>

definition prompt_step :: "iomem \<Rightarrow> iomem" where
  "prompt_step m =
     write_bytes (write_bytes (write_bytes m (0x10000 + of_nat 0) (to_le 4 RING_MAGIC))
       (0x10000 + of_nat 4) (to_le 4 RING_STATE_ONLINE))
       (0x10000 + of_nat 8) (to_le 4 (ring_word 0x10000 12 m + ring_word 0x10000 16 m))"

definition prompt_kernel :: "(u64 \<Rightarrow> u8 option) \<Rightarrow> nat kernel" where
  "prompt_kernel user = demo_kernel\<lparr>k_ep := \<lambda>d m. (d, prompt_step m), k_user := user\<rparr>"

lemma prompt_fields [simp]:
  "k_call (prompt_kernel user) = demo_call" "k_ep (prompt_kernel user) d m = (d, prompt_step m)"
  "k_user (prompt_kernel user) = user" "k_msecs (prompt_kernel user) ms = ucast ms div 4"
  "k_junk (prompt_kernel user) n = replicate n 0xaa"
  by (simp_all add: prompt_kernel_def)

definition prompt_world :: "nat world" where
  "prompt_world = demo_world\<lparr>w_io := demo_header 4 4\<rparr>"

lemma prompt_step_words:
  "ring_word 0x10000 0 (prompt_step m) = RING_MAGIC" "ring_word 0x10000 4 (prompt_step m) = RING_STATE_ONLINE"
  "ring_word 0x10000 8 (prompt_step m) = ring_word 0x10000 12 m + ring_word 0x10000 16 m"
  "12 \<le> off \<Longrightarrow> off \<le> 20 \<Longrightarrow> ring_word 0x10000 off (prompt_step m) = ring_word 0x10000 off m"
proof -
  show "ring_word 0x10000 0 (prompt_step m) = RING_MAGIC"
    unfolding prompt_step_def
    by (subst ring_word_before, simp, simp, subst ring_word_before, simp, simp, rule ring_word_same)
  show "ring_word 0x10000 4 (prompt_step m) = RING_STATE_ONLINE"
    unfolding prompt_step_def by (subst ring_word_before, simp, simp, rule ring_word_same)
  show "ring_word 0x10000 8 (prompt_step m) = ring_word 0x10000 12 m + ring_word 0x10000 16 m"
    unfolding prompt_step_def by (rule ring_word_same)
  assume off: "12 \<le> off" "off \<le> 20"
  then have "ring_word 0x10000 off (write_bytes m' (0x10000 + of_nat j) (to_le 4 (v :: u32))) = ring_word 0x10000 off m'"
    if "j + 4 \<le> 12" for m' j v
    by (intro ring_word_after) (use that in simp_all)
  from this [of 8] this [of 4] this [of 0]
  show "ring_word 0x10000 off (prompt_step m) = ring_word 0x10000 off m"
    unfolding prompt_step_def by (simp only: le_refl numeral_plus_numeral add_0) simp
qed

text \<open>An allocator that always has memory.\<close>

definition kmalloc_works :: "'d kernel \<Rightarrow> bool" where
  "kmalloc_works K \<longleftrightarrow> (\<forall>n d. fst (k_call K (KC_kmalloc n) d) \<noteq> 0)"

lemma kmalloc_result: "kmalloc_works K \<Longrightarrow> fst (kcall K (KC_kmalloc n) w) \<noteq> 0"
  by (simp add: kmalloc_works_def kcall_def Let_def case_prod_beta)

lemma prompt_kernel_facts:
  "prompt_ep (prompt_kernel user) 0x10000" "online_ep (prompt_kernel user) 0x10000"
  "timeout_fits (prompt_kernel user)" "kmalloc_works (prompt_kernel user)"
  "length (k_junk (prompt_kernel user) 512) = 512"
  by (simp_all add: prompt_ep_def online_ep_def prompt_step_words timeout_fits_def kmalloc_works_def)

lemma prompt_world_live: "ring_live 0x10000 4 4 6 prompt_world"
  by (simp add: ring_live_def prompt_world_def ring_word_def)

theorem xfer_user_wrapped_length_witness:
  "\<exists>w' evs. pcie_ring_xfer_user (prompt_kernel (\<lambda>a. None)) 0x10000 0x10000 0x1000 (demo_img\<lparr>img_length := 0xffffffffffffffff\<rparr>) prompt_world
       = Some (0, w') \<and> w_trc w' = w_trc prompt_world @ evs \<and>
     (\<forall>m. ring_msgs 0x10000 evs m = [MCmd RING_CMD_SET_DTB_ADDR 0 AMBA_PCI_FW_DTB_LOAD_ADDR])"
proof -
  let ?K = "prompt_kernel (\<lambda>a. None)" and ?img = "demo_img\<lparr>img_length := 0xffffffffffffffff\<rparr>"
  note f = prompt_kernel_facts [of "\<lambda>a. None"]
  have len: "2 ^ 64 \<le> unat (img_length ?img) + 15" by simp
  have four: "(0 :: u32) < 4" "(4 :: u32) \<le> 21" "(4 :: u32) \<noteq> 0"
    "ucast ((4 :: u32) + 1) * ucast RING_BLOCK_SIZE \<le> (0x10000 :: u64)" by simp_all
  from xfer_user_wrapped_length [OF f(1,3) prompt_world_live four f(5) kmalloc_result [OF f(4)] len]
  show ?thesis by (simp add: demo_img_def pcie_fw_load_addr_def tail_cmd_def tail_size_def abi)
qed

end
