(* ===== verification/Fw_Liveness.thy ===== *)
theory Fw_Liveness
  imports Fw_Xfer_Props Ring_Liveness
begin

section \<open>Progress of the firmware transfer\<close>

text \<open>
  From one image to the whole request: against a prompt endpoint that is online, a valid and
  readable request for a mapped, disconnected card succeeds. Its second use is to run requests
  that are too large to evaluate step by step, such as one with a kernel of more than 64 MiB.
\<close>

subsection \<open>All images of a request\<close>

definition images_readable :: "'d kernel \<Rightarrow> amba_pci_fw_xfer \<Rightarrow> bool" where
  "images_readable K req \<longleftrightarrow>
     (\<forall>img \<in> set (fx_images req). copy_from_user K (fx_fw_user_ptr req + img_offset img) (unat (img_length img)) \<noteq> None)"

definition ring_fits :: "u32 \<Rightarrow> u32 \<Rightarrow> u64 \<Rightarrow> bool" where
  "ring_fits num mb map_size \<longleftrightarrow> num \<noteq> 0 \<and> mb \<noteq> 0 \<and> ucast (mb + 1) * ucast RING_BLOCK_SIZE \<le> map_size"

lemma xfer_images_live:
  assumes "prompt_ep K (e_boot_mem_base e)" "timeout_fits K" "kmalloc_works K" "length (k_junk K 512) = 512"
    and "ring_fits num mb (e_boot_len e)" "fw_sizes_small req" "images_readable K req"
    and "\<forall>ty \<in> set tys. \<exists>img. pcie_fw_find_image req ty = Some img"
    and "live_since u (e_boot_mem_base e) num mb used w"
  shows "\<exists>w' used'. xfer_images K req e tys w = Some (Ret 0, w') \<and> live_since u (e_boot_mem_base e) num mb used' w'"
  using assms(8,9)
proof (induction tys arbitrary: w used)
  case Nil
  then show ?case by auto
next
  case (Cons ty tys)
  then obtain img where img: "pcie_fw_find_image req ty = Some img" by auto
  then have mem: "img \<in> set (fx_images req)" by (auto simp: pcie_fw_find_image_def find_Some_iff)
  obtain w1 where x: "pcie_ring_xfer_user K (e_boot_mem_base e) (e_boot_len e) (fx_fw_user_ptr req) img w = Some (0, w1)"
    "live_since u (e_boot_mem_base e) num mb (used + of_nat (data_blocks (unat (padded_len (img_length img))) + 1)) w1"
    using xfer_user_live [OF assms(1,2) Cons.prems(2), of "e_boot_len e" img "fx_fw_user_ptr req"] assms(3-7) mem kmalloc_result
    unfolding ring_fits_def fw_sizes_small_def images_readable_def by blast
  from Cons.IH [OF _ x(2)] Cons.prems(1) img x(1) show ?case by simp
qed

subsection \<open>The handshake and the board information\<close>

lemma online_r32:
  assumes "online_ep K base"
  shows "fst (pcie_ring_r32 K base 0 w) = RING_MAGIC" "fst (pcie_ring_r32 K base 4 w) = RING_STATE_ONLINE"
  using assms
  by (simp_all add: online_ep_def ring_word_def pcie_ring_r32_def pcie_ring_ptr_def readl_def ep_turn_def Let_def
      split: prod.splits) (metis snd_conv)+

lemma ready_live:
  assumes "prompt_ep K base" "online_ep K base" "timeout_fits K" "live_since u base num mb used w"
  obtains w' where "pcie_ring_wait_ep_ready K base w = Some (0, w')" "live_since u base num mb used w'"
proof -
  let ?w1 = "snd (pcie_ring_r32 K base 0 w)" let ?w2 = "snd (pcie_ring_r32 K base 4 ?w1)"
  have "pcie_ring_wait_u32 K base 0 RING_MAGIC True 5000 w = Some (0, ?w1)"
    "pcie_ring_wait_u32 K base 4 RING_STATE_ONLINE True 5000 ?w1 = Some (0, ?w2)"
    using time_before_timeout [OF assms(3)] online_r32 [OF assms(2)]
    by (simp_all add: pcie_ring_wait_u32_def wait_u32_loop.simps wait_done_def)
  then have "pcie_ring_wait_ep_ready K base w = Some (0, ?w2)"
    by (simp add: pcie_ring_wait_ep_ready_def)
  moreover have "live_since u base num mb used ?w2"
    using live_r32(1) [OF assms(1) live_r32(1) [OF assms(1,4), of 0], of 4] .
  ultimately show thesis by (rule that)
qed

lemma live_read_words:
  assumes "prompt_ep K base" "live_since u base num mb used w"
  shows "live_since u base num mb used (snd (read_words K a n w))"
  using assms(2)
proof (induction n arbitrary: a w)
  case (Suc n)
  have "live_since u base num mb used (snd (readl K a w))"
    using live_r32(1) [OF assms(1) Suc.prems, of "a - base"] by (simp add: pcie_ring_r32_def pcie_ring_ptr_def)
  from Suc.IH [OF this] show ?case by (simp add: case_prod_beta Let_def)
qed simp

lemma live_refresh:
  assumes "prompt_ep K (e_boot_mem_base e)" "live_since u (e_boot_mem_base e) num mb used w"
    and "e_boot_mem_base e \<noteq> 0" "e_pdev e = Some pd" "e_state e = AMBA_PCI_STATE_DISCONNECTED"
  obtains e1 w1 where "pcie_dev_refresh_board_info_locked K e w = ((0, e1), w1)"
    "e_boot_mem_base e1 = e_boot_mem_base e" "e_boot_len e1 = e_boot_len e" "e_pdev e1 = Some pd"
    "live_since u (e_boot_mem_base e) num mb used w1"
proof (cases "e_board_info_is_updated e")
  case True
  then have "pcie_dev_refresh_board_info_locked K e w = ((0, e), w)"
    using assms(3-5) by (simp add: pcie_dev_refresh_board_info_locked_def)
  with assms that show thesis by blast
next
  case False
  obtain bd w1 where bd: "pcie_ring_read_board_info K (e_boot_mem_base e) w = (bd, w1)" by (metis prod.exhaust)
  then have "w1 = snd (read_words K (pcie_ring_ptr (e_boot_mem_base e) RH_BD_OFF) (size_of board_info_layout div 4) w)"
    by (simp add: pcie_ring_read_board_info_def Let_def case_prod_beta)
  then have "live_since u (e_boot_mem_base e) num mb used w1" using live_read_words [OF assms(1,2)] by simp
  moreover have "pcie_dev_refresh_board_info_locked K e w =
      ((0, e\<lparr>e_board_info := bd, e_board_info_is_updated := True\<rparr>), w1)"
    using assms(3-5) False bd by (simp add: pcie_dev_refresh_board_info_locked_def)
  ultimately show thesis
    using assms(4) that [of "e\<lparr>e_board_info := bd, e_board_info_is_updated := True\<rparr>" w1] by simp
qed

lemma live_schedule: "live_since u base num mb used w \<Longrightarrow> live_since u base num mb used (snd (pcie_boot_timeout_schedule K i e w))"
  by (auto simp: pcie_boot_timeout_schedule_def Let_def)

lemma xfer_locked_live:
  assumes "prompt_ep K (e_boot_mem_base e)" "online_ep K (e_boot_mem_base e)" "timeout_fits K" "kmalloc_works K"
    and "length (k_junk K 512) = 512" "ring_fits num mb (e_boot_len e)" "fw_sizes_small req" "images_readable K req"
    and "\<forall>ty \<in> set pcie_fw_xfer_order. \<exists>img. pcie_fw_find_image req ty = Some img"
    and "live_since u (e_boot_mem_base e) num mb used w"
    and "e_in_use e" "e_state e = AMBA_PCI_STATE_DISCONNECTED" "e_pdev e = Some pd" "e_boot_mem_base e \<noteq> 0"
  shows "\<exists>e' w' used'. xfer_firmware_locked K req e w = Some ((Ret 0, e', True), w') \<and>
    live_since u (e_boot_mem_base e) num mb used' w' \<and> e_pdev e' = Some pd \<and> e_boot_mem_base e' = e_boot_mem_base e"
proof -
  obtain e1 w1 where r: "pcie_dev_refresh_board_info_locked K e w = ((0, e1), w1)"
    "e_boot_mem_base e1 = e_boot_mem_base e" "e_boot_len e1 = e_boot_len e" "e_pdev e1 = Some pd"
    "live_since u (e_boot_mem_base e) num mb used w1"
    by (rule live_refresh [OF assms(1,10,14,13,12)])
  obtain w2 where rd: "pcie_ring_wait_ep_ready K (e_boot_mem_base e) (kdo K (KC_pci_set_master (pd_handle pd)) w1) = Some (0, w2)"
    "live_since u (e_boot_mem_base e) num mb used w2"
    by (rule ready_live [OF assms(1-3) live_kdo [OF r(5)]])
  obtain w3 used' where im: "xfer_images K req e1 pcie_fw_xfer_order w2 = Some (Ret 0, w3)"
    "live_since u (e_boot_mem_base e) num mb used' w3"
    using xfer_images_live [of K e1 num mb req pcie_fw_xfer_order u used w2] assms(1,3-9) r(2,3) rd(2) by auto
  let ?e2 = "e1\<lparr>e_state := AMBA_PCI_STATE_BOOTING\<rparr>"
  obtain w4 where sc: "pcie_boot_timeout_schedule K (unat (fx_slot_id req)) ?e2 w3 = (?e2\<lparr>e_work_pending := True\<rparr>, w4)"
    using schedule_result [of K "unat (fx_slot_id req)" ?e2 w3] by (metis prod.exhaust fst_conv)
  have "live_since u (e_boot_mem_base e) num mb used' w4"
    using live_schedule [OF im(2), of K "unat (fx_slot_id req)" ?e2] sc by simp
  moreover have "xfer_firmware_locked K req e w = Some ((Ret 0, ?e2\<lparr>e_work_pending := True\<rparr>, True), w4)"
    using assms(11,12) r rd(1) im(1) sc by (simp add: xfer_firmware_locked_def Let_def)
  ultimately show ?thesis using r(2,4) by auto
qed

lemma xfer_ioctl_run:
  assumes "plat_ok g" and "i = unat (fx_slot_id req)" and "e = g_devs g ! i" and "base = e_boot_mem_base e"
    and "e_in_use e" and "e_state e = AMBA_PCI_STATE_DISCONNECTED" and "e_pdev e = Some pd" and "base \<noteq> 0"
    and "copy_from_user K argp (size_of fw_xfer_layout) = Some bs" and "req = fw_xfer_of_bytes bs"
    and "shift_ok shl" and "\<forall>img \<in> set (fx_images req). unat (img_type img) < 32"
    and "fw_request_ok shl req" and "fw_sizes_small req" and "images_readable K req"
    and "prompt_ep K base" and "online_ep K base" and "ring_live base num mb used w"
    and "ring_fits num mb (e_boot_len e)"
    and "timeout_fits K" and "kmalloc_works K" and "length (k_junk K 512) = 512"
  shows "\<exists>e' w1. pcie_ioctl_xfer_firmware K shl rm argp g w =
      (let (g', w') = rm pd (set_entry g i e') (kdo K KC_mutex_unlock w1) in Some ((Ret 0, g'), w')) \<and>
    did (num_seen base num) w w1 \<and> e_boot_mem_base e' = base"
proof -
  have "set (map img_type (fx_images req)) = set pcie_fw_xfer_order"
    using fw_request_ok_iff [OF assms(11,12)] assms(10,13) by simp
  then have found: "\<forall>ty \<in> set pcie_fw_xfer_order. \<exists>img. pcie_fw_find_image req ty = Some img"
    using find_image_total by blast
  have live: "live_since w (e_boot_mem_base e) num mb used (kdo K KC_mutex_lock w)"
    using live_kdo [OF live_start [OF assms(18)]] assms(4) by simp
  obtain e' w1 used' where l: "xfer_firmware_locked K req e (kdo K KC_mutex_lock w) = Some ((Ret 0, e', True), w1)"
    "live_since w (e_boot_mem_base e) num mb used' w1" "e_pdev e' = Some pd" "e_boot_mem_base e' = e_boot_mem_base e"
    using xfer_locked_live [OF assms(16) [unfolded assms(4)] assms(17) [unfolded assms(4)] assms(20-22)
        assms(19) assms(14,15) found live assms(5-7) assms(8) [unfolded assms(4)]] by blast
  have "pcie_ioctl_xfer_firmware K shl rm argp g w =
      (let (g', w') = rm pd (set_entry g i e') (kdo K KC_mutex_unlock w1) in Some ((Ret 0, g'), w'))"
    using l(1,3) assms(2,3,9,10,13) by (simp add: pcie_ioctl_xfer_firmware_def Let_def)
  with l(2,4) show ?thesis by (auto simp: live_since_def assms(4))
qed

lemma xfer_ioctl_live:
  assumes "plat_ok g" and "i = unat (fx_slot_id req)" and "e = g_devs g ! i" and "base = e_boot_mem_base e"
    and "e_in_use e" and "e_state e = AMBA_PCI_STATE_DISCONNECTED" and "e_pdev e = Some pd" and "base \<noteq> 0"
    and "copy_from_user K argp (size_of fw_xfer_layout) = Some bs" and "req = fw_xfer_of_bytes bs"
    and "shift_ok shl" and "\<forall>img \<in> set (fx_images req). unat (img_type img) < 32"
    and "fw_request_ok shl req" and "fw_sizes_small req" and "images_readable K req"
    and "prompt_ep K base" and "online_ep K base" and "ring_live base num mb used w"
    and "ring_fits num mb (e_boot_len e)"
    and "timeout_fits K" and "kmalloc_works K" and "length (k_junk K 512) = 512"
  shows "\<exists>g' w'. pcie_ioctl_xfer_firmware K shl rm argp g w = Some ((Ret 0, g'), w')"
proof -
  obtain e' w1 where "pcie_ioctl_xfer_firmware K shl rm argp g w =
      (let (g', w') = rm pd (set_entry g i e') (kdo K KC_mutex_unlock w1) in Some ((Ret 0, g'), w'))"
    using xfer_ioctl_run [OF assms, of rm] by blast
  then show ?thesis by (simp split: prod.splits)
qed

text \<open>C12: Progress: a valid request whose images can be read, for a disconnected card whose boot BAR is
  mapped, succeeds whenever the endpoint is online and prompt and memory can be allocated: the
  ioctl returns 0, so no wait times out and no check of the driver stands in the way.\<close>

theorem xfer_firmware_succeeds:
  assumes "plat_ok g" and "i = unat (fx_slot_id req)" and "e = g_devs g ! i" and "base = e_boot_mem_base e"
    and "e_in_use e" and "e_state e = AMBA_PCI_STATE_DISCONNECTED" and "e_pdev e = Some pd" and "base \<noteq> 0"
    and "copy_from_user K argp (size_of fw_xfer_layout) = Some bs" and "req = fw_xfer_of_bytes bs"
    and "shift_ok shl" and "\<forall>img \<in> set (fx_images req). unat (img_type img) < 32"
    and "fw_request_ok shl req" and "fw_sizes_small req" and "images_readable K req"
    and "prompt_ep K base" and "online_ep K base" and "ring_live base num mb used w"
    and "ring_fits num mb (e_boot_len e)"
    and "timeout_fits K" and "kmalloc_works K" and "length (k_junk K 512) = 512"
  shows "\<exists>g' w'. pcie_ioctl_xfer_firmware K shl rm argp g w = Some ((Ret 0, g'), w')"
  using assms by (rule xfer_ioctl_live)

subsection \<open>A concrete request\<close>

lemma copy_from_user_cong: "k_user K = k_user L \<Longrightarrow> copy_from_user K a n = copy_from_user L a n"
  by (induction n arbitrary: a) (simp_all split: option.split)

definition mapped_platform :: amba_pci_platform where
  "mapped_platform = set_entry demo_platform 0
     (demo_entry\<lparr>e_boot_bar := 0, e_boot_len := 0x1000, e_boot_mem_base := 0x10000\<rparr>)"

lemma mapped_platform_ok: "plat_ok mapped_platform"
  unfolding mapped_platform_def using demo_entry_ok
  by (intro set_entry_ok demo_platform_ok) (auto simp: slot_ok_def bar_chosen_def demo_entry_def zero_entry_def)

lemma mapped_platform_entry:
  "g_devs mapped_platform ! unat (fx_slot_id demo_req) =
     demo_entry\<lparr>e_boot_bar := 0, e_boot_len := 0x1000, e_boot_mem_base := 0x10000\<rparr>"
  by (simp add: mapped_platform_def set_entry_def demo_platform_def zero_platform_def demo_req_def numeral_eq_Suc)

lemma mapped_entry_fields:
  "let e = g_devs mapped_platform ! unat (fx_slot_id demo_req) in
     e_in_use e \<and> e_state e = AMBA_PCI_STATE_DISCONNECTED \<and> e_pdev e = Some demo_pci_dev \<and>
     e_boot_mem_base e = 0x10000 \<and> e_boot_len e = 0x1000"
  unfolding mapped_platform_entry by (simp add: demo_entry_def zero_entry_def)

abbreviation (input) demo_prompt_kernel :: "nat kernel" where
  "demo_prompt_kernel \<equiv> prompt_kernel (user_memory 0x1000 demo_user)"

lemma demo_prompt_request:
  "copy_from_user demo_prompt_kernel 0x1000 (size_of fw_xfer_layout) = Some (fw_xfer_bytes demo_req)"
  "demo_req = fw_xfer_of_bytes (fw_xfer_bytes demo_req)"
  "\<forall>img \<in> set (fx_images demo_req). unat (img_type img) < 32"
  "fw_request_ok shl32 demo_req" "fw_sizes_small demo_req" "images_readable demo_prompt_kernel demo_req"
proof -
  have copy: "copy_from_user demo_prompt_kernel a n = copy_from_user demo_fw_kernel a n" for a n
    by (rule copy_from_user_cong) simp
  show "copy_from_user demo_prompt_kernel 0x1000 (size_of fw_xfer_layout) = Some (fw_xfer_bytes demo_req)"
    unfolding copy by (rule demo_copy_req)
  show "demo_req = fw_xfer_of_bytes (fw_xfer_bytes demo_req)"
    by (rule fw_xfer_round_trip [symmetric]) (simp add: demo_req_def demo_images_def)
  show "\<forall>img \<in> set (fx_images demo_req). unat (img_type img) < 32" "fw_sizes_small demo_req"
    by (simp_all add: fw_sizes_small_def demo_req_def demo_images_def)
  show "fw_request_ok shl32 demo_req"
    using fw_request_ok_iff [OF shl32_ok, of demo_req]
    by (auto simp: demo_req_def demo_images_def image_in_bounds_def pcie_fw_xfer_order_def)
  show "images_readable demo_prompt_kernel demo_req"
    using demo_copy [of 104 5] demo_copy [of 112 6] demo_copy [of 96 7]
    by (simp add: images_readable_def copy demo_req_def demo_images_def)
qed

theorem xfer_firmware_succeeds_witness:
  "\<exists>g' w'. pcie_ioctl_xfer_firmware demo_prompt_kernel shl32 demo_rm 0x1000 mapped_platform prompt_world = Some ((Ret 0, g'), w')"
proof -
  let ?e = "g_devs mapped_platform ! unat (fx_slot_id demo_req)"
  have e: "e_in_use ?e" "e_state ?e = AMBA_PCI_STATE_DISCONNECTED" "e_pdev ?e = Some demo_pci_dev"
    "e_boot_mem_base ?e = 0x10000" "e_boot_len ?e = 0x1000"
    using mapped_entry_fields by (simp_all add: Let_def)
  have fits: "ring_fits 4 4 (e_boot_len ?e)" unfolding e by (simp add: ring_fits_def)
  note f = prompt_kernel_facts and q = demo_prompt_request
  show ?thesis
    by (rule xfer_firmware_succeeds [OF mapped_platform_ok refl refl e(4) [symmetric] e(1-3) _ q(1,2) shl32_ok q(3-6)
          f(1,2) prompt_world_live fits f(3-5)]) simp
qed

text \<open>A run in which all three images are delivered.\<close>

abbreviation (input) keep_card :: "nat remove_fn" where
  "keep_card \<equiv> \<lambda>pd g w. (g, w)"

lemma demo_prompt_run:
  "\<exists>e' w1. pcie_ioctl_xfer_firmware demo_prompt_kernel shl32 rm 0x1000 mapped_platform prompt_world =
      (let (g', w') = rm demo_pci_dev (set_entry mapped_platform 0 e') (kdo demo_prompt_kernel KC_mutex_unlock w1) in Some ((Ret 0, g'), w')) \<and>
    did (num_seen 0x10000 4) prompt_world w1 \<and> e_boot_mem_base e' = 0x10000"
proof -
  let ?e = "g_devs mapped_platform ! unat (fx_slot_id demo_req)"
  have i: "0 = unat (fx_slot_id demo_req)" by (simp add: demo_req_def)
  have e: "e_in_use ?e" "e_state ?e = AMBA_PCI_STATE_DISCONNECTED" "e_pdev ?e = Some demo_pci_dev"
    "e_boot_mem_base ?e = 0x10000" "e_boot_len ?e = 0x1000"
    using mapped_entry_fields by (simp_all add: Let_def)
  have fits: "ring_fits 4 4 (e_boot_len ?e)" unfolding e by (simp add: ring_fits_def)
  note f = prompt_kernel_facts and q = demo_prompt_request
  show ?thesis
    by (rule xfer_ioctl_run [OF mapped_platform_ok i refl e(4) [symmetric, folded i] e(1-3) [folded i] _ q(1,2) shl32_ok q(3-6)
          f(1,2) prompt_world_live fits [folded i] f(3-5)]) simp
qed

theorem xfer_firmware_delivers_witness:
  "\<exists>g' w' evs (rootfs :: u8 list) kern b0 b1 b2.
     pcie_ioctl_xfer_firmware demo_prompt_kernel shl32 keep_card 0x1000 mapped_platform prompt_world = Some ((Ret 0, g'), w') \<and>
     fw_image_data demo_prompt_kernel demo_req AMBA_PCI_FW_IMAGE_KERNEL kern \<and> padded kern b2 \<and>
     w_trc w' = w_trc prompt_world @ evs @ [Call KC_mutex_unlock 0] \<and> (\<forall>m. ring_msgs 0x10000 evs m =
         image_msgs AMBA_PCI_FW_DTB_LOAD_ADDR b0 @ [MCmd RING_CMD_SET_DTB_ADDR 0 AMBA_PCI_FW_DTB_LOAD_ADDR] @
         image_msgs AMBA_PCI_FW_ROOTFS_LOAD_ADDR b1 @ [MCmd RING_CMD_SET_INITRD_ADDR (of_nat (length rootfs)) AMBA_PCI_FW_ROOTFS_LOAD_ADDR] @
         image_msgs AMBA_PCI_FW_KERNEL_LOAD_ADDR b2 @ [MCmd RING_CMD_SET_LNX_ADDR 0 AMBA_PCI_FW_KERNEL_LOAD_ADDR])"
proof -
  let ?K = demo_prompt_kernel
  obtain e' w1' where r: "pcie_ioctl_xfer_firmware ?K shl32 keep_card 0x1000 mapped_platform prompt_world
      = Some ((Ret 0, set_entry mapped_platform 0 e'), kdo ?K KC_mutex_unlock w1')"
    "did (num_seen 0x10000 4) prompt_world w1'" "e_boot_mem_base e' = 0x10000"
    using demo_prompt_run [of keep_card] by auto
  have i: "unat (fx_slot_id demo_req) = 0" by (simp add: demo_req_def)
  have "\<exists>w1 evs (rootfs :: u8 list) kern b0 b1 b2 e. set_entry mapped_platform 0 e' = set_entry mapped_platform 0 e \<and>
      kdo ?K KC_mutex_unlock w1' = kdo ?K KC_mutex_unlock w1 \<and> w_trc w1 = w_trc prompt_world @ evs \<and>
      fw_image_data ?K demo_req AMBA_PCI_FW_IMAGE_KERNEL kern \<and> padded kern b2 \<and>
      ((\<forall>ev \<in> set evs. few_descs (e_boot_mem_base e) ev) \<longrightarrow> (\<forall>m. ring_msgs (e_boot_mem_base e) evs m =
         image_msgs AMBA_PCI_FW_DTB_LOAD_ADDR b0 @ [MCmd RING_CMD_SET_DTB_ADDR 0 AMBA_PCI_FW_DTB_LOAD_ADDR] @
         image_msgs AMBA_PCI_FW_ROOTFS_LOAD_ADDR b1 @ [MCmd RING_CMD_SET_INITRD_ADDR (of_nat (length rootfs)) AMBA_PCI_FW_ROOTFS_LOAD_ADDR] @
         image_msgs AMBA_PCI_FW_KERNEL_LOAD_ADDR b2 @ [MCmd RING_CMD_SET_LNX_ADDR 0 AMBA_PCI_FW_KERNEL_LOAD_ADDR]))"
    using xfer_firmware_delivers [OF r(1) mapped_platform_ok prompt_kernel_facts(5) demo_prompt_request(1,2,5)]
    unfolding i prod.inject by (elim exE conjE) (intro exI conjI impI allI, (assumption | blast)+)
  then obtain w1 evs kern b0 b1 b2 e and rootfs :: "u8 list" where
    d: "set_entry mapped_platform 0 e' = set_entry mapped_platform 0 e" "kdo ?K KC_mutex_unlock w1' = kdo ?K KC_mutex_unlock w1"
      "w_trc w1 = w_trc prompt_world @ evs" "fw_image_data ?K demo_req AMBA_PCI_FW_IMAGE_KERNEL kern" "padded kern b2"
      "(\<forall>ev \<in> set evs. few_descs (e_boot_mem_base e) ev) \<longrightarrow> (\<forall>m. ring_msgs (e_boot_mem_base e) evs m =
         image_msgs AMBA_PCI_FW_DTB_LOAD_ADDR b0 @ [MCmd RING_CMD_SET_DTB_ADDR 0 AMBA_PCI_FW_DTB_LOAD_ADDR] @
         image_msgs AMBA_PCI_FW_ROOTFS_LOAD_ADDR b1 @ [MCmd RING_CMD_SET_INITRD_ADDR (of_nat (length rootfs)) AMBA_PCI_FW_ROOTFS_LOAD_ADDR] @
         image_msgs AMBA_PCI_FW_KERNEL_LOAD_ADDR b2 @ [MCmd RING_CMD_SET_LNX_ADDR 0 AMBA_PCI_FW_KERNEL_LOAD_ADDR])"
    by blast
  have "e = e'" using arg_cong [OF d(1), of "\<lambda>g. g_devs g ! 0"] mapped_platform_ok by (simp add: set_entry_def plat_ok_def)
  then have base: "e_boot_mem_base e = 0x10000" using r(3) by simp
  have "w_trc w1' = w_trc w1" using arg_cong [OF d(2), of w_trc] by (simp add: kdo_trc)
  then have "\<forall>ev \<in> set evs. few_descs 0x10000 ev"
    using r(2) d(3) num_seen_few [where base = "0x10000" and num = 4] by (auto simp: did_def)
  with d(6) have "\<forall>m. ring_msgs 0x10000 evs m =
         image_msgs AMBA_PCI_FW_DTB_LOAD_ADDR b0 @ [MCmd RING_CMD_SET_DTB_ADDR 0 AMBA_PCI_FW_DTB_LOAD_ADDR] @
         image_msgs AMBA_PCI_FW_ROOTFS_LOAD_ADDR b1 @ [MCmd RING_CMD_SET_INITRD_ADDR (of_nat (length rootfs)) AMBA_PCI_FW_ROOTFS_LOAD_ADDR] @
         image_msgs AMBA_PCI_FW_KERNEL_LOAD_ADDR b2 @ [MCmd RING_CMD_SET_LNX_ADDR 0 AMBA_PCI_FW_KERNEL_LOAD_ADDR]"
    unfolding base by blast
  moreover have "w_trc (kdo ?K KC_mutex_unlock w1') = w_trc prompt_world @ evs @ [Call KC_mutex_unlock 0]"
    unfolding d(2) by (simp add: kdo_trc d(3) kcall_def demo_eval)
  ultimately show ?thesis using r(1) d(4,5) by blast
qed

subsection \<open>An oversized kernel\<close>

text \<open>C31: Nothing bounds the size of an image: a kernel of more than 64 MiB, which the request checks
  accept like any other, is loaded last and over the start of the device tree. With a header that
  announces at most 21 descriptors, what the endpoint takes out of the ring leaves the kernel's
  tail at the device tree's load address, so that the command that announced the device tree points
  into the kernel.\<close>

theorem oversized_kernel_overwrites_dtb:
  assumes "xfer_images K req e pcie_fw_xfer_order w = Some (Ret 0, w')"
    and "length (k_junk K 512) = 512" and "fw_sizes_small req"
    and "fw_image_data K req AMBA_PCI_FW_IMAGE_KERNEL kern" and "length kern = 64 * 0x100000 + n" and "length kern < 2 ^ 63"
  shows "\<exists>evs. w_trc w' = w_trc w @ evs \<and> ((\<forall>ev \<in> set evs. few_descs (e_boot_mem_base e) ev) \<longrightarrow>
    (\<forall>m m0. read_bytes (ep_apply (ring_msgs (e_boot_mem_base e) evs m) m0) AMBA_PCI_FW_DTB_LOAD_ADDR n = drop (64 * 0x100000) kern))"
proof -
  from assms(1-3) obtain es dtb rootfs kern' b0 b1 b2 where
    d: "w_trc w' = w_trc w @ es" "fw_image_data K req AMBA_PCI_FW_IMAGE_KERNEL kern'" "padded kern' b2"
      "(\<forall>ev \<in> set es. few_descs (e_boot_mem_base e) ev) \<longrightarrow>
         hands any_view (e_boot_mem_base e) es (fw_msgs (dtb, b0) (rootfs, b1) (kern', b2)) any_view"
    by (rule xfer_images_delivers)
  have "kern' = kern" using d(2) assms(4) by (auto simp: fw_image_data_def)
  then obtain k where b2: "b2 = kern @ replicate k 0" "k < 16" using d(3) by (auto simp: padded_def)
  let ?h = "take (64 * 0x100000) kern" and ?t = "drop (64 * 0x100000) kern"
  have len: "length ?h = 64 * 0x100000" "length ?t = n" using assms(5) by simp_all
  have split: "b2 = ?h @ ?t @ replicate k 0" unfolding b2(1) append_assoc [symmetric] by simp
  have at: "AMBA_PCI_FW_KERNEL_LOAD_ADDR + of_nat (length ?h) = AMBA_PCI_FW_DTB_LOAD_ADDR"
    unfolding len by simp
  have "read_bytes (write_bytes m AMBA_PCI_FW_KERNEL_LOAD_ADDR b2) AMBA_PCI_FW_DTB_LOAD_ADDR n = ?t" for m
  proof -
    have "write_bytes m AMBA_PCI_FW_KERNEL_LOAD_ADDR b2 =
        write_bytes (write_bytes m AMBA_PCI_FW_KERNEL_LOAD_ADDR ?h) AMBA_PCI_FW_DTB_LOAD_ADDR (?t @ replicate k 0)"
      unfolding at [symmetric] write_bytes_append split [symmetric] ..
    moreover have "length (?t @ replicate k (0 :: u8)) \<le> 2 ^ 64" using assms(6) b2(2) by simp
    ultimately show ?thesis
      using read_write_prefix [of ?t "replicate k 0"] len(2) by simp
  qed
  then have "read_bytes (ep_apply (ring_msgs (e_boot_mem_base e) es m) m0) AMBA_PCI_FW_DTB_LOAD_ADDR n = ?t"
    if "\<forall>ev \<in> set es. few_descs (e_boot_mem_base e) ev" for m m0
    unfolding hands_msgs [OF mp [OF d(4) that]] fw_msgs_apply by simp
  with d(1) show ?thesis by blast
qed

text \<open>The largest request that can be run: 64 MiB and one byte of kernel.\<close>

definition big_req :: amba_pci_fw_xfer where
  "big_req = demo_req\<lparr>fx_fw_size := 0x8000000, fx_images :=
     [\<lparr>img_type = AMBA_PCI_FW_IMAGE_KERNEL, img_reserved = 0, img_offset = 0, img_length = 0x4000001\<rparr>,
      \<lparr>img_type = AMBA_PCI_FW_IMAGE_DTB, img_reserved = 0, img_offset = 8, img_length = 5\<rparr>,
      \<lparr>img_type = AMBA_PCI_FW_IMAGE_ROOTFS, img_reserved = 0, img_offset = 16, img_length = 6\<rparr>]\<rparr>"

lemma copy_from_user_const: "k_user K = (\<lambda>a. Some b) \<Longrightarrow> copy_from_user K a n = Some (replicate n b)"
  by (induction n arbitrary: a) simp_all

theorem oversized_kernel_overwrites_dtb_witness:
  "fw_request_ok shl32 big_req \<and>
   (\<exists>(w' :: nat world) evs. xfer_images (prompt_kernel (\<lambda>a. Some 7)) big_req
      (demo_entry\<lparr>e_boot_bar := 0, e_boot_len := 0x1000, e_boot_mem_base := 0x10000\<rparr>) pcie_fw_xfer_order prompt_world
        = Some (Ret 0, w') \<and> w_trc w' = w_trc prompt_world @ evs \<and>
      (\<forall>m m0. read_bytes (ep_apply (ring_msgs 0x10000 evs m) m0) AMBA_PCI_FW_DTB_LOAD_ADDR 1 = [7]))"
proof
  let ?K = "prompt_kernel (\<lambda>a. Some 7)"
  let ?e = "demo_entry\<lparr>e_boot_bar := 0, e_boot_len := 0x1000, e_boot_mem_base := 0x10000\<rparr>"
  show "fw_request_ok shl32 big_req"
    using fw_request_ok_iff [OF shl32_ok, of big_req]
    by (auto simp: big_req_def demo_req_def image_in_bounds_def pcie_fw_xfer_order_def)
  have copy: "copy_from_user ?K a n = Some (replicate n 7)" for a n by (rule copy_from_user_const) simp
  have small: "fw_sizes_small big_req" by (simp add: fw_sizes_small_def big_req_def)
  have find: "\<forall>ty \<in> set pcie_fw_xfer_order. \<exists>img. pcie_fw_find_image big_req ty = Some img"
    by (simp add: pcie_fw_find_image_def big_req_def pcie_fw_xfer_order_def)
  have base: "e_boot_mem_base ?e = 0x10000" "e_boot_len ?e = 0x1000" by simp_all
  note f = prompt_kernel_facts [of "\<lambda>a. Some 7"]
  have fits: "ring_fits 4 4 0x1000" by (simp add: ring_fits_def)
  have readable: "images_readable ?K big_req" by (simp add: images_readable_def copy)
  obtain w' used where run: "xfer_images ?K big_req ?e pcie_fw_xfer_order prompt_world = Some (Ret 0, w')"
    and live: "live_since prompt_world 0x10000 4 4 used w'"
    using xfer_images_live [of ?K ?e 4 4 big_req pcie_fw_xfer_order prompt_world 6 prompt_world, unfolded base,
        OF f(1,3,4,5) fits small readable find live_start [OF prompt_world_live]] by blast
  have kern: "fw_image_data ?K big_req AMBA_PCI_FW_IMAGE_KERNEL (replicate 0x4000001 7)"
    by (simp add: fw_image_data_def copy pcie_fw_find_image_def big_req_def)
  have len: "length (replicate 0x4000001 (7 :: u8)) = 64 * 0x100000 + 1" "length (replicate 0x4000001 (7 :: u8)) < 2 ^ 63"
    unfolding length_replicate by simp_all
  have drop: "drop (64 * 0x100000) (replicate 0x4000001 (7 :: u8)) = [7]"
    unfolding drop_replicate by simp
  from oversized_kernel_overwrites_dtb [OF run f(5) small kern len, unfolded base drop] obtain evs where
    evs: "w_trc w' = w_trc prompt_world @ evs" "(\<forall>ev \<in> set evs. few_descs 0x10000 ev) \<longrightarrow>
      (\<forall>m m0. read_bytes (ep_apply (ring_msgs 0x10000 evs m) m0) AMBA_PCI_FW_DTB_LOAD_ADDR 1 = [7])" by blast
  have "\<forall>ev \<in> set evs. few_descs 0x10000 ev" by (rule live_few [OF live evs(1)]) simp
  with evs run
  show "\<exists>(w' :: nat world) evs. xfer_images ?K big_req ?e pcie_fw_xfer_order prompt_world = Some (Ret 0, w') \<and>
      w_trc w' = w_trc prompt_world @ evs \<and>
      (\<forall>m m0. read_bytes (ep_apply (ring_msgs 0x10000 evs m) m0) AMBA_PCI_FW_DTB_LOAD_ADDR 1 = [7])" by blast
qed

end
