(* ===== verification/Proc_Ops.thy ===== *)
theory Proc_Ops
  imports Hotplug Ring_Xfer
begin

section \<open>The proc files of a slot\<close>

text \<open>
  \<open>amba_pci_platform_main.c\<close>, lines 509 to 801. A reader produces the text of a page as bytes or
  an errno (a \<open>ssize_t\<close> below 0); the wrappers copy the part at the file position to the user.
  \<open>PDE_DATA\<close> is the slot the file was created for, so the handlers take its number \<open>i\<close>.
  Two providers live in another module and are arguments: \<open>net_text\<close> is the buffer that
  \<open>pci_buzz_bus_net_get\<close> fills and \<open>log_text\<close> the one that \<open>pci_buzz_bus_epinfo_read\<close> fills; their
  results are kernel calls. \<open>rm\<close> is \<open>pci_stop_and_remove_bus_device_locked\<close>, as for the ioctls.
  A page has 4096 bytes.
\<close>

abbreviation (input) PAGE_SIZE :: nat where "PAGE_SIZE \<equiv> 4096"
abbreviation (input) SZ_2M :: nat where "SZ_2M \<equiv> 0x200000"

definition pci_buzz_bus_net_get :: string where
  "pci_buzz_bus_net_get = ''pci_buzz_bus_net_get''"

definition pci_buzz_bus_epinfo_read :: string where
  "pci_buzz_bus_epinfo_read = ''pci_buzz_bus_epinfo_read''"

subsection \<open>Status and device information\<close>

definition pcie_status_read_entry :: "pcie_dev_entry \<Rightarrow> nat \<Rightarrow> u8 list" where
  "pcie_status_read_entry e sz = scnprintf sz (bytes_of (''state='' @ pcie_state_str (e_state e)) @ [10])"

definition PCI_SLOT :: "u8 \<Rightarrow> u8" where
  "PCI_SLOT devfn = drop_bit 3 devfn AND 0x1f"

definition PCI_FUNC :: "u8 \<Rightarrow> u8" where
  "PCI_FUNC devfn = devfn AND 0x07"

text \<open>The two format strings, line by line.\<close>

definition dev_info_head :: "amba_pci_dev_info \<Rightarrow> u16 \<Rightarrow> u8 \<Rightarrow> u8 \<Rightarrow> string \<Rightarrow> u8 list" where
  "dev_info_head info domain bus devfn nm =
     bytes_of (''state='' @ pcie_state_str (di_state info)) @ [10] @
     bytes_of (''domain='' @ zero_pad 4 (hex_str (unat domain)) @ '' bus='' @ zero_pad 2 (hex_str (unat bus)) @
               '' slot='' @ zero_pad 2 (hex_str (unat (PCI_SLOT devfn))) @ '' func='' @ hex_str (unat (PCI_FUNC devfn))) @ [10] @
     bytes_of (''vendor=0x'' @ zero_pad 4 (hex_str (unat (ucast (di_vendor info) :: u16))) @
               '' device=0x'' @ zero_pad 4 (hex_str (unat (ucast (di_device info) :: u16)))) @ [10] @
     bytes_of (''pci_name='' @ nm) @ [10]"

definition dev_info_board :: "pci_dev_board_info \<Rightarrow> u8 list" where
  "dev_info_board bd =
     bytes_of ''board_fw_vers='' @ cstr (bd_date bd) @ [10] @
     bytes_of (''board_poc=0x'' @ zero_pad 8 (hex_str (unat (bd_poc bd)))) @ [10] @
     bytes_of (''board_dram='' @ dec_str (unat (drop_bit 10 (bd_dram_size_mb bd))) @ ''.'' @
               zero_pad 2 (dec_str (unat ((bd_dram_size_mb bd mod 1024) * 100 div 1024))) @ '' GB('') @
     cstr (bd_dram_type bd) @ bytes_of '')'' @ [10] @
     bytes_of (''board_bld_vers='' @ dec_str (unat (drop_bit 16 (bd_vers bd))) @ ''.'' @
               zero_pad 2 (dec_str (unat (bd_vers bd AND 0xffff)))) @ [10]"

definition pcie_format_dev_info_proc ::
  "nat \<Rightarrow> amba_pci_dev_info \<Rightarrow> pcie_dev_entry \<Rightarrow> u16 \<Rightarrow> u8 \<Rightarrow> u8 \<Rightarrow> string \<Rightarrow> u8 list" where
  "pcie_format_dev_info_proc sz info e domain bus devfn nm =
     (let head = scnprintf sz (dev_info_head info domain bus devfn nm)
      in head @ scnprintf (sz - length head) (dev_info_board (e_board_info e)))"

definition pcie_dev_info_read_entry ::
  "'d kernel \<Rightarrow> nat \<Rightarrow> pcie_dev_entry \<Rightarrow> nat \<Rightarrow> 'd world \<Rightarrow> (u8 list \<times> pcie_dev_entry) \<times> 'd world" where
  "pcie_dev_info_read_entry K i e sz w =
     (let w1 = kdo K KC_mutex_lock w;
          ((info, e1), w2) = pcie_query_dev_info_locked K e (int i) w1;
          text = (case e_pdev e1 of
                    Some pd \<Rightarrow> pcie_format_dev_info_proc sz info e1 (pd_domain pd) (pd_bus pd) (pd_devfn pd) (pd_name pd)
                  | None \<Rightarrow> pcie_format_dev_info_proc sz info e1 0 (ps_bus (e_phy_slot e1)) 0 ''(offline)'')
      in ((text, e1), kdo K KC_mutex_unlock w2))"

subsection \<open>Network address and device log\<close>

definition entry_bus :: "pcie_dev_entry \<Rightarrow> u32" where
  "entry_bus e = (case e_pdev e of Some pd \<Rightarrow> ucast (pd_bus pd) | None \<Rightarrow> ucast (ps_bus (e_phy_slot e)))"

definition invalid_text :: "nat \<Rightarrow> u8 list" where
  "invalid_text sz = scnprintf sz (bytes_of ''invalid'' @ [10])"

definition pcie_net_read_entry ::
  "'d kernel \<Rightarrow> (u32 \<Rightarrow> 'd world \<Rightarrow> u8 list) \<Rightarrow> pcie_dev_entry \<Rightarrow> nat \<Rightarrow> 'd world \<Rightarrow> (int + u8 list) \<times> 'd world" where
  "pcie_net_read_entry K net_text e sz w =
     (if \<not> e_in_use e then (Inl (- ENODEV), w)
      else let bus = entry_bus e;
               (net_get, w1) = kcall K (KC_symbol_get pci_buzz_bus_net_get) w
           in if net_get = 0 then (Inr (invalid_text sz), w1)
              else let (ok, w2) = kcall K (KC_net_get bus) w1;
                       net = net_text bus w2;
                       w3 = kdo K (KC_symbol_put pci_buzz_bus_net_get) w2
                   in (Inr (if ok = 0 then invalid_text sz else scnprintf sz (cstr net @ [10])), w3))"

definition pcie_dev_log_read_entry ::
  "'d kernel \<Rightarrow> (u32 \<Rightarrow> nat \<Rightarrow> 'd world \<Rightarrow> u8 list) \<Rightarrow> pcie_dev_entry \<Rightarrow> nat \<Rightarrow> 'd world \<Rightarrow> (int + u8 list) \<times> 'd world" where
  "pcie_dev_log_read_entry K log_text e sz w =
     (if \<not> e_in_use e then (Inl (- ENODEV), w)
      else let bus = entry_bus e;
               (epinfo_read, w1) = kcall K (KC_symbol_get pci_buzz_bus_epinfo_read) w
           in if epinfo_read = 0 then (Inr (invalid_text sz), w1)
              else let (ret, w2) = kcall K (KC_epinfo_read bus sz) w1;
                       buf = log_text bus sz w2;
                       w3 = kdo K (KC_symbol_put pci_buzz_bus_epinfo_read) w2
                   in (Inr (if ret \<le> 0 then invalid_text sz else take (nat ret) buf), w3))"

subsection \<open>Reading\<close>

text \<open>\<open>simple_read_from_buffer\<close> of the kernel library: the result and the new file position.\<close>

definition simple_read_from_buffer ::
  "'d kernel \<Rightarrow> u64 \<Rightarrow> nat \<Rightarrow> int \<Rightarrow> u8 list \<Rightarrow> 'd world \<Rightarrow> (int \<times> int) \<times> 'd world" where
  "simple_read_from_buffer K to cnt ppos from w =
     (if ppos < 0 then ((- EINVAL, ppos), w)
      else if int (length from) \<le> ppos \<or> cnt = 0 then ((0, ppos), w)
      else let n = min cnt (length from - nat ppos);
               (left, w1) = kcall K (KC_copy_to_user to (slice (nat ppos) n from)) w
           in if left = int n then ((- EFAULT, ppos), w1)
              else ((int n - left, ppos + (int n - left)), w1))"

text \<open>\<open>pcie_proc_read_page\<close> with the reader as an argument; a reader may update the platform.\<close>

type_synonym 'd page_reader = "amba_pci_platform \<Rightarrow> nat \<Rightarrow> 'd world \<Rightarrow> ((int + u8 list) \<times> amba_pci_platform) \<times> 'd world"

definition pcie_proc_read_page ::
  "'d kernel \<Rightarrow> 'd page_reader \<Rightarrow> u64 \<Rightarrow> nat \<Rightarrow> int \<Rightarrow> amba_pci_platform \<Rightarrow> 'd world \<Rightarrow>
     (int \<times> int \<times> amba_pci_platform) \<times> 'd world" where
  "pcie_proc_read_page K reader buf nbytes ppos g w =
     (let (kbuf, w1) = kcall K (KC_kmalloc PAGE_SIZE) w
      in if kbuf = 0 then ((- ENOMEM, ppos, g), kdo K KC_kfree w1)
         else let ((len, g1), w2) = reader g PAGE_SIZE w1
              in case len of
                   Inl err \<Rightarrow> ((err, ppos, g1), kdo K KC_kfree w2)
                 | Inr text \<Rightarrow> (let ((ret, pos), w3) = simple_read_from_buffer K buf nbytes ppos text w2
                               in ((ret, pos, g1), kdo K KC_kfree w3)))"

definition pcie_proc_status_read ::
  "'d kernel \<Rightarrow> nat \<Rightarrow> u64 \<Rightarrow> nat \<Rightarrow> int \<Rightarrow> amba_pci_platform \<Rightarrow> 'd world \<Rightarrow> (int \<times> int \<times> amba_pci_platform) \<times> 'd world" where
  "pcie_proc_status_read K i buf nbytes ppos g w =
     pcie_proc_read_page K (\<lambda>g sz w. ((Inr (pcie_status_read_entry (g_devs g ! i) sz), g), w)) buf nbytes ppos g w"

definition pcie_proc_dev_info_read ::
  "'d kernel \<Rightarrow> nat \<Rightarrow> u64 \<Rightarrow> nat \<Rightarrow> int \<Rightarrow> amba_pci_platform \<Rightarrow> 'd world \<Rightarrow> (int \<times> int \<times> amba_pci_platform) \<times> 'd world" where
  "pcie_proc_dev_info_read K i buf nbytes ppos g w =
     pcie_proc_read_page K
       (\<lambda>g sz w. let ((text, e), w1) = pcie_dev_info_read_entry K i (g_devs g ! i) sz w in ((Inr text, set_entry g i e), w1))
       buf nbytes ppos g w"

definition pcie_proc_net_read ::
  "'d kernel \<Rightarrow> (u32 \<Rightarrow> 'd world \<Rightarrow> u8 list) \<Rightarrow> nat \<Rightarrow> u64 \<Rightarrow> nat \<Rightarrow> int \<Rightarrow> amba_pci_platform \<Rightarrow> 'd world \<Rightarrow>
     (int \<times> int \<times> amba_pci_platform) \<times> 'd world" where
  "pcie_proc_net_read K net_text i buf nbytes ppos g w =
     pcie_proc_read_page K
       (\<lambda>g sz w. let (len, w1) = pcie_net_read_entry K net_text (g_devs g ! i) sz w in ((len, g), w1)) buf nbytes ppos g w"

definition pcie_proc_dev_log_read ::
  "'d kernel \<Rightarrow> (u32 \<Rightarrow> nat \<Rightarrow> 'd world \<Rightarrow> u8 list) \<Rightarrow> nat \<Rightarrow> u64 \<Rightarrow> nat \<Rightarrow> int \<Rightarrow> amba_pci_platform \<Rightarrow> 'd world \<Rightarrow>
     (int \<times> int) \<times> 'd world" where
  "pcie_proc_dev_log_read K log_text i buf nbytes ppos g w =
     (let (kbuf, w1) = kcall K (KC_vmalloc SZ_2M) w
      in if kbuf = 0 then ((- ENOMEM, ppos), kdo K KC_vfree w1)
         else let (len, w2) = pcie_dev_log_read_entry K log_text (g_devs g ! i) SZ_2M w1
              in case len of
                   Inl err \<Rightarrow> ((err, ppos), kdo K KC_vfree w2)
                 | Inr text \<Rightarrow> (let (res, w3) = simple_read_from_buffer K buf nbytes ppos text w2
                               in (res, kdo K KC_vfree w3)))"

subsection \<open>Rebooting\<close>

text \<open>What the handler makes of the written text: it keeps 15 bytes, as a C string, cut at the end.\<close>

definition reboot_cmd :: "u8 list \<Rightarrow> int option" where
  "reboot_cmd text = kstrtoint10 (strim_in_place (cstr (take 15 text)))"

definition pcie_reboot_write_entry ::
  "'d kernel \<Rightarrow> 'd remove_fn \<Rightarrow> nat \<Rightarrow> u8 list \<Rightarrow> amba_pci_platform \<Rightarrow> 'd world \<Rightarrow> (int \<times> amba_pci_platform) \<times> 'd world" where
  "pcie_reboot_write_entry K rm i text g w =
     (let e = g_devs g ! i
      in if \<not> e_in_use e then ((- ENODEV, g), w)
         else if text = [] then ((- EINVAL, g), w)
         else if reboot_cmd text \<noteq> Some 1 then ((- EINVAL, g), w)
         else let w1 = kdo K KC_mutex_lock w
              in case e_pdev e of
                   None \<Rightarrow> ((- ENODEV, g), kdo K KC_mutex_unlock w1)
                 | Some pd \<Rightarrow>
                     if e_state e \<noteq> AMBA_PCI_STATE_CONNECTED then ((- EBUSY, g), kdo K KC_mutex_unlock w1)
                     else let g1 = set_entry g i (e\<lparr>e_state := AMBA_PCI_STATE_REBOOTING\<rparr>);
                              (g2, w2) = rm pd g1 (kdo K KC_mutex_unlock w1)
                          in ((int (length text), g2), w2))"

definition pcie_proc_reboot_write ::
  "'d kernel \<Rightarrow> 'd remove_fn \<Rightarrow> nat \<Rightarrow> u64 \<Rightarrow> nat \<Rightarrow> int \<Rightarrow> amba_pci_platform \<Rightarrow> 'd world \<Rightarrow>
     (int \<times> int \<times> amba_pci_platform) \<times> 'd world" where
  "pcie_proc_reboot_write K rm i buf cnt ppos g w =
     (if ppos \<noteq> 0 \<or> cnt > 32 then ((- EINVAL, ppos, g), kdo K KC_kfree w)
      else let (kbuf, w1) = kcall K (KC_kmalloc (cnt + 1)) w
           in if kbuf = 0 then ((- ENOMEM, ppos, g), kdo K KC_kfree w1)
              else case copy_from_user K buf cnt of
                     None \<Rightarrow> ((- EFAULT, ppos, g), kdo K KC_kfree w1)
                   | Some text \<Rightarrow>
                       (let ((ret, g1), w2) = pcie_reboot_write_entry K rm i text g w1
                        in if ret < 0 then ((ret, ppos, g1), kdo K KC_kfree w2)
                           else ((int cnt, ppos + int cnt, g1), kdo K KC_kfree w2)))"

end
