(* ===== verification/Proc_Correct.thy ===== *)
theory Proc_Correct
  imports Proc_Ops Hotplug_Correct Abi_Codec
begin

section \<open>What the proc files promise\<close>

text \<open>
  A page is never truncated and can be read in pieces of any size; every read frees its buffer;
  a reboot needs exactly the text 1 (in the first 15 bytes), and then empties the slot. Two places
  where the handler does less than it seems to are stated as they are: the text beyond the 15th
  byte is ignored and leading blanks are not, and the slot's own proc directory is removed while
  its reboot file is being written.
\<close>

subsection \<open>Lengths of the texts\<close>

lemma length_bytes_of [simp]: "length (bytes_of s) = length s"
  by (simp add: bytes_of_def)

lemma length_state_str: "length (pcie_state_str st) \<le> 12"
  by (cases st) (simp_all add: pcie_state_str_def)

lemma length_hex:
  "length (hex_str (unat (x :: u8))) \<le> 2" "length (hex_str (unat (y :: u16))) \<le> 4" "length (hex_str (unat (z :: u32))) \<le> 8"
  by (rule length_hex_str_le; use unsigned_less [of x] unsigned_less [of y] unsigned_less [of z] in simp)+

lemma length_dec32: "length (dec_str (unat (x :: u32))) \<le> 10"
  by (rule length_dec_str_le) (use unat_u32_less [of x] in simp_all)

lemma length_dev_info_head: "length (dev_info_head info domain bus devfn nm) \<le> 100 + length nm"
  using length_state_str [of "di_state info"] length_hex(1) [of bus] length_hex(1) [of "PCI_SLOT devfn"]
    length_hex(1) [of "PCI_FUNC devfn"] length_hex(2) [of domain]
    length_hex(2) [of "ucast (di_vendor info)"] length_hex(2) [of "ucast (di_device info)"]
  unfolding dev_info_head_def by (simp add: max_def)

lemma length_dev_info_board:
  assumes "board_info_ok bd"
  shows "length (dev_info_board bd) \<le> 160"
proof -
  have "length (cstr (bd_date bd)) < 32" "length (cstr (bd_dram_type bd)) < 8"
    using board_info_ok_cstr [OF assms] by auto
  then show ?thesis
    using length_hex(3) [of "bd_poc bd"] length_dec32 [of "drop_bit 10 (bd_dram_size_mb bd)"]
      length_dec32 [of "bd_dram_size_mb bd mod 1024 * 100 div 1024"]
      length_dec32 [of "drop_bit 16 (bd_vers bd)"] length_dec32 [of "bd_vers bd AND 0xffff"]
    unfolding dev_info_board_def by (simp add: max_def)
qed

lemma format_dev_info_length:
  "0 < sz \<Longrightarrow> length (pcie_format_dev_info_proc sz info e domain bus devfn nm) < sz"
proof -
  assume sz: "0 < sz"
  let ?h = "scnprintf sz (dev_info_head info domain bus devfn nm)"
  have "length ?h < sz" by (rule length_scnprintf) (rule sz)
  then have "length (scnprintf (sz - length ?h) (dev_info_board (e_board_info e))) < sz - length ?h"
    by (intro length_scnprintf) simp
  then show ?thesis by (simp add: pcie_format_dev_info_proc_def Let_def)
qed

lemma format_dev_info_whole:
  assumes "board_info_ok (e_board_info e)" "length nm \<le> 3000"
  shows "pcie_format_dev_info_proc PAGE_SIZE info e domain bus devfn nm =
    dev_info_head info domain bus devfn nm @ dev_info_board (e_board_info e)"
  using length_dev_info_head [of info domain bus devfn nm] length_dev_info_board [OF assms(1)] assms(2)
  by (simp add: pcie_format_dev_info_proc_def Let_def scnprintf_fits)

lemma status_length: "length (pcie_status_read_entry e sz) \<le> 19"
  using length_state_str [of "e_state e"] by (simp add: pcie_status_read_entry_def scnprintf_def)

subsection \<open>The device information file\<close>

text \<open>C37: Reading the device information under the mutex keeps the slot well formed and its state, and
  its text is complete: it always fits a page, and is the six lines the formats describe, for the
  device's own address when there is a device and for the slot's bus and \<open>(offline)\<close> when there is
  not (for names of the PCI core, which are far below 3000 characters).\<close>

theorem dev_info_text:
  assumes "pcie_dev_info_read_entry K i e PAGE_SIZE w = ((text, e'), w')" and "slot_ok i e"
    and "\<forall>pd. e_pdev e = Some pd \<longrightarrow> length (pd_name pd) \<le> 3000"
  shows "slot_ok i e' \<and> same_but_board e e' \<and> length text < PAGE_SIZE \<and>
    (\<exists>info. di_state info = e_state e \<and>
      text = (case e_pdev e of
          Some pd \<Rightarrow> dev_info_head info (pd_domain pd) (pd_bus pd) (pd_devfn pd) (pd_name pd)
        | None \<Rightarrow> dev_info_head info 0 (ps_bus (e_phy_slot e)) 0 ''(offline)'') @ dev_info_board (e_board_info e'))"
proof -
  obtain info e1 w2 where q: "pcie_query_dev_info_locked K e (int i) (kdo K KC_mutex_lock w) = ((info, e1), w2)"
    by (metis prod.exhaust)
  note r = query_result [OF q assms(2)]
  from assms(1) q have e': "e' = e1" and page: "text = (case e_pdev e1 of
      Some pd \<Rightarrow> pcie_format_dev_info_proc PAGE_SIZE info e1 (pd_domain pd) (pd_bus pd) (pd_devfn pd) (pd_name pd)
    | None \<Rightarrow> pcie_format_dev_info_proc PAGE_SIZE info e1 0 (ps_bus (e_phy_slot e1)) 0 ''(offline)'')"
    by (auto simp: pcie_dev_info_read_entry_def Let_def)
  have st: "di_state info = e_state e"
    using q by (auto simp: pcie_query_dev_info_locked_def zero_dev_info_def Let_def split: if_splits option.splits prod.splits)
  have same: "e_pdev e1 = e_pdev e" "e_phy_slot e1 = e_phy_slot e" using r by (simp_all add: same_but_board_def)
  have ok: "board_info_ok (e_board_info e1)" using r by (simp add: slot_ok_def)
  have "text = (case e_pdev e of
          Some pd \<Rightarrow> dev_info_head info (pd_domain pd) (pd_bus pd) (pd_devfn pd) (pd_name pd)
        | None \<Rightarrow> dev_info_head info 0 (ps_bus (e_phy_slot e)) 0 ''(offline)'') @ dev_info_board (e_board_info e')"
    using page assms(3) format_dev_info_whole [OF ok] unfolding e' same by (auto split: option.splits)
  moreover have "length text < PAGE_SIZE"
    unfolding page by (cases "e_pdev e1") (simp_all add: format_dev_info_length)
  ultimately show ?thesis using r st unfolding e' by blast
qed

subsection \<open>Reading a file in pieces\<close>

text \<open>What has reached the user, and a user program that reads the status file to its end.\<close>

fun sent_to_user :: "kcall \<times> int \<Rightarrow> u8 list" where
  "sent_to_user (KC_copy_to_user a bs, left) = (if left = 0 then bs else [])"
| "sent_to_user (c, r) = []"

definition user_got :: "'d world \<Rightarrow> u8 list" where
  "user_got w = concat (map sent_to_user (calls w))"

fun cat_status ::
  "'d kernel \<Rightarrow> nat \<Rightarrow> u64 \<Rightarrow> nat \<Rightarrow> nat \<Rightarrow> int \<Rightarrow> amba_pci_platform \<Rightarrow> 'd world \<Rightarrow> 'd world option" where
  "cat_status K i buf n 0 ppos g w = None"
| "cat_status K i buf n (Suc fuel) ppos g w =
     (let ((ret, pos, g1), w1) = pcie_proc_status_read K i buf n ppos g w
      in if ret < 0 then None else if ret = 0 then Some w1 else cat_status K i buf n fuel pos g1 w1)"

definition user_memory_works :: "'d kernel \<Rightarrow> bool" where
  "user_memory_works K \<longleftrightarrow>
     (\<forall>n d. fst (k_call K (KC_kmalloc n) d) \<noteq> 0) \<and> (\<forall>a bs d. fst (k_call K (KC_copy_to_user a bs) d) = 0)"

lemma user_got_kcall: "user_got (snd (kcall K c w)) = user_got w @ sent_to_user (c, fst (kcall K c w))"
  by (simp add: user_got_def kframe)

lemma user_got_kdo: "user_got (kdo K c w) = user_got w @ sent_to_user (c, fst (kcall K c w))"
  by (simp add: user_got_def kframe)

lemma works_kcall:
  assumes "user_memory_works K"
  shows "fst (kcall K (KC_kmalloc n) w) \<noteq> 0" "fst (kcall K (KC_copy_to_user a bs) w) = 0"
  using assms by (simp_all add: user_memory_works_def kcall_def Let_def case_prod_beta)

lemma status_read_step:
  assumes "user_memory_works K" "0 < n" and T: "T = pcie_status_read_entry (g_devs g ! i) PAGE_SIZE"
  obtains w' where
    "pcie_proc_status_read K i buf n (int p) g w =
       ((int (min n (length T - p)), int (p + min n (length T - p)), g), w')"
    "user_got w' = user_got w @ slice p (min n (length T - p)) T"
proof -
  obtain kb w1 where km: "kcall K (KC_kmalloc PAGE_SIZE) w = (kb, w1)" by (metis prod.exhaust)
  have kb: "kb \<noteq> 0" and g1: "user_got w1 = user_got w"
    using works_kcall(1) [OF assms(1), of PAGE_SIZE w] user_got_kcall [of K "KC_kmalloc PAGE_SIZE" w] km by simp_all
  let ?k = "min n (length T - p)"
  show thesis
  proof (cases "length T \<le> p")
    case True
    then have "pcie_proc_status_read K i buf n (int p) g w = ((0, int p, g), kdo K KC_kfree w1)"
      using km kb by (simp add: pcie_proc_status_read_def pcie_proc_read_page_def simple_read_from_buffer_def T)
    with True that [of "kdo K KC_kfree w1"] g1 show thesis by (simp add: user_got_kdo slice_def)
  next
    case False
    obtain left w2 where cp: "kcall K (KC_copy_to_user buf (slice p ?k T)) w1 = (left, w2)" by (metis prod.exhaust)
    have left: "left = 0" and g2: "user_got w2 = user_got w1 @ slice p ?k T"
      using works_kcall(2) [OF assms(1), of buf "slice p ?k T" w1] user_got_kcall [of K "KC_copy_to_user buf (slice p ?k T)" w1] cp
      by simp_all
    have "pcie_proc_status_read K i buf n (int p) g w = ((int ?k, int (p + ?k), g), kdo K KC_kfree w2)"
      using km kb cp left False assms(2)
      by (simp add: pcie_proc_status_read_def pcie_proc_read_page_def simple_read_from_buffer_def T [symmetric] Let_def)
    with that g1 g2 show thesis by (simp add: user_got_kdo)
  qed
qed

lemma cat_status_from:
  assumes "user_memory_works K" "0 < n" and T: "T = pcie_status_read_entry (g_devs g ! i) PAGE_SIZE"
  shows "length T - p < fuel \<Longrightarrow>
    \<exists>w'. cat_status K i buf n fuel (int p) g w = Some w' \<and> user_got w' = user_got w @ drop p T"
proof (induction fuel arbitrary: p w)
  case 0
  then show ?case by simp
next
  case (Suc fuel)
  define k where "k = min n (length T - p)"
  obtain w1 where r: "pcie_proc_status_read K i buf n (int p) g w = ((int k, int (p + k), g), w1)"
    "user_got w1 = user_got w @ slice p k T"
    unfolding k_def by (rule status_read_step [OF assms])
  show ?case
  proof (cases "length T \<le> p")
    case True
    then have k: "k = 0" by (simp add: k_def)
    show ?thesis using r True unfolding k by (simp add: slice_def)
  next
    case False
    then have k: "0 < k" using assms(2) by (simp add: k_def)
    then have less: "length T - (p + k) < fuel" using Suc.prems False by linarith
    obtain w2 where w2: "cat_status K i buf n fuel (int (p + k)) g w1 = Some w2"
      "user_got w2 = user_got w1 @ drop (p + k) T"
      using Suc.IH [OF less] by blast
    have "slice p k T @ drop (p + k) T = drop p T"
      unfolding slice_def by (metis append_take_drop_id drop_drop add.commute)
    with w2 r k show ?thesis by (simp add: Let_def)
  qed
qed

text \<open>C38: Reading the status file to its end, with any buffer size and any number of reads that takes,
  delivers exactly one line with the state of the slot, and at most 20 reads suffice.\<close>

theorem status_file_contents:
  assumes "user_memory_works K" and "0 < n"
  shows "\<exists>w'. cat_status K i buf n 20 0 g w = Some w' \<and>
    user_got w' = user_got w @ bytes_of (''state='' @ pcie_state_str (e_state (g_devs g ! i))) @ [10]"
proof -
  let ?T = "pcie_status_read_entry (g_devs g ! i) PAGE_SIZE"
  have "?T = bytes_of (''state='' @ pcie_state_str (e_state (g_devs g ! i))) @ [10]"
    using length_state_str [of "e_state (g_devs g ! i)"] by (simp add: pcie_status_read_entry_def scnprintf_fits)
  moreover have "length ?T - 0 < 20" using status_length [of "g_devs g ! i" PAGE_SIZE] by simp
  ultimately show ?thesis using cat_status_from [OF assms refl, where i = i and g = g and p = 0 and fuel = 20 and buf = buf and w = w] by simp
qed

lemma demo_user_works: "user_memory_works demo_kernel"
  by (simp add: user_memory_works_def)

theorem status_file_contents_witness:
  "\<exists>w'. cat_status demo_kernel 0 0x1000 7 20 0 demo_platform demo_world = Some w' \<and>
    user_got w' = bytes_of ''state=Disconnected'' @ [10]"
  using status_file_contents [OF demo_user_works, of 7 0 "0x1000" demo_platform demo_world]
  by (simp add: user_got_def calls_def demo_world_def demo_platform_def zero_platform_def zero_entry_def pcie_state_str_def)

text \<open>A concrete device information page.\<close>

theorem dev_info_text_witness:
  "\<exists>text e' w'. pcie_dev_info_read_entry demo_kernel 0 zero_entry PAGE_SIZE demo_world = ((text, e'), w') \<and>
     length text < PAGE_SIZE \<and> text \<noteq> []"
proof -
  obtain page e' w' where run: "pcie_dev_info_read_entry demo_kernel 0 zero_entry PAGE_SIZE demo_world = ((page, e'), w')"
    by (metis prod.exhaust)
  have "slot_ok 0 zero_entry" by (rule zero_entry_ok)
  moreover have "\<forall>pd. e_pdev zero_entry = Some pd \<longrightarrow> length (pd_name pd) \<le> 3000" by (simp add: zero_entry_def)
  ultimately show ?thesis using dev_info_text [OF run] run by (auto simp: zero_entry_def dev_info_head_def)
qed

subsection \<open>Rebooting a card\<close>

lemma rebooting_ok: "slot_ok i e \<Longrightarrow> e_state e = AMBA_PCI_STATE_CONNECTED \<Longrightarrow> e_pdev e = Some pd \<Longrightarrow>
    slot_ok i (e\<lparr>e_state := AMBA_PCI_STATE_REBOOTING\<rparr>)"
  by (auto simp: slot_ok_def bar_chosen_def split: if_splits)

lemma reboot_entry_cases:
  assumes "pcie_reboot_write_entry K rm i cmd g w = ((r, g'), w')"
  obtains (refused) "r \<in> {- ENODEV, - EINVAL, - EBUSY}" "g' = g" "iow w' = iow w" "quiet w w'"
  | (accepted) pd w1 where "e_in_use (g_devs g ! i)" "cmd \<noteq> []" "reboot_cmd cmd = Some 1"
      "e_pdev (g_devs g ! i) = Some pd" "e_state (g_devs g ! i) = AMBA_PCI_STATE_CONNECTED" "r = int (length cmd)"
      "iow w1 = iow w" "rm pd (set_entry g i ((g_devs g ! i)\<lparr>e_state := AMBA_PCI_STATE_REBOOTING\<rparr>)) w1 = (g', w')" "quiet w w1"
      "w1 = kdo K KC_mutex_unlock (kdo K KC_mutex_lock w)"
proof (cases "e_in_use (g_devs g ! i) \<and> cmd \<noteq> [] \<and> reboot_cmd cmd = Some 1")
  case False
  with assms refused show thesis by (auto simp: pcie_reboot_write_entry_def Let_def split: if_splits)
next
  case True
  show thesis
  proof (cases "e_pdev (g_devs g ! i)")
    case None
    with True assms refused show thesis by (auto simp: pcie_reboot_write_entry_def Let_def kframe)
  next
    case (Some pd)
    show thesis
    proof (cases "e_state (g_devs g ! i) = AMBA_PCI_STATE_CONNECTED")
      case False
      with True Some assms refused show thesis by (auto simp: pcie_reboot_write_entry_def Let_def kframe)
    next
      case conn: True
      from True Some conn assms
      have "rm pd (set_entry g i ((g_devs g ! i)\<lparr>e_state := AMBA_PCI_STATE_REBOOTING\<rparr>))
          (kdo K KC_mutex_unlock (kdo K KC_mutex_lock w)) = (g', w')" "r = int (length cmd)"
        by (simp_all add: pcie_reboot_write_entry_def Let_def split: prod.splits)
      with True Some conn show thesis by (intro accepted [of pd "kdo K KC_mutex_unlock (kdo K KC_mutex_lock w)"]) (simp_all add: kframe)
    qed
  qed
qed

lemma reboot_write_cases:
  assumes "pcie_proc_reboot_write K rm i buf cnt ppos g w = ((r, pos, g'), w')"
  obtains (refused) "r \<in> {- EINVAL, - ENOMEM, - EFAULT}" "pos = ppos" "g' = g" "iow w' = iow w" "quiet w w'"
  | (ran) cmd w1 r1 w2 kb where "ppos = 0" "cnt \<le> 32" "copy_from_user K buf cnt = Some cmd" "iow w1 = iow w"
      "pcie_reboot_write_entry K rm i cmd g w1 = ((r1, g'), w2)" "w' = kdo K KC_kfree w2"
      "if r1 < 0 then r = r1 \<and> pos = ppos else r = int cnt \<and> pos = int cnt" "quiet w w1"
      "kcall K (KC_kmalloc (cnt + 1)) w = (kb, w1)"
proof (cases "ppos \<noteq> 0 \<or> cnt > 32")
  case True
  with assms refused show thesis by (auto simp: pcie_proc_reboot_write_def kframe)
next
  case False
  obtain kb w1 where km: "kcall K (KC_kmalloc (cnt + 1)) w = (kb, w1)" by (metis prod.exhaust)
  note io = kcallD [OF km] quiet_kcallD [OF km quiet_refl]
  show thesis
  proof (cases "kb \<noteq> 0 \<and> copy_from_user K buf cnt \<noteq> None")
    case bad: False
    then have "(r, pos, g') = (if kb = 0 then - ENOMEM else - EFAULT, ppos, g)" "w' = kdo K KC_kfree w1"
      using assms False km by (cases "kb = 0"; simp add: pcie_proc_reboot_write_def)+
    with io refused show thesis by (auto simp: kframe)
  next
    case good: True
    then obtain cmd where cmd: "copy_from_user K buf cnt = Some cmd" by blast
    obtain r1 g1 w2 where run: "pcie_reboot_write_entry K rm i cmd g w1 = ((r1, g1), w2)" by (metis prod.exhaust)
    from assms False km good cmd run
    have "g' = g1" "w' = kdo K KC_kfree w2" "if r1 < 0 then r = r1 \<and> pos = ppos else r = int cnt \<and> pos = int cnt"
      by (auto simp: pcie_proc_reboot_write_def split: if_splits)
    with False io cmd run km ran show thesis by auto
  qed
qed

text \<open>What a write to the reboot file must be for the driver to act on it, and the card \<open>pd\<close> it acts on.\<close>

definition reboot_accepts :: "'d kernel \<Rightarrow> nat \<Rightarrow> u64 \<Rightarrow> nat \<Rightarrow> int \<Rightarrow> amba_pci_platform \<Rightarrow> 'd world \<Rightarrow> pci_dev \<Rightarrow> bool" where
  "reboot_accepts K i buf cnt ppos g w pd \<longleftrightarrow>
     ppos = 0 \<and> cnt \<le> 32 \<and> fst (kcall K (KC_kmalloc (cnt + 1)) w) \<noteq> 0 \<and>
     Option.bind (copy_from_user K buf cnt) reboot_cmd = Some 1 \<and>
     abs_slot (g_devs g ! i) = Card AMBA_PCI_STATE_CONNECTED (Some pd)"

lemma reboot_cmd_Nil: "reboot_cmd [] \<noteq> Some 1"
  by (simp add: reboot_cmd_def cstr_def strim_in_place_def is_space_def kstrtoint10_def)

lemma reboot_entry_accepted:
  assumes "reboot_cmd text = Some 1" "abs_slot (g_devs g ! i) = Card AMBA_PCI_STATE_CONNECTED (Some pd)"
  shows "pcie_reboot_write_entry K rm i text g w =
    (let (g2, w2) = rm pd (set_entry g i ((g_devs g ! i)\<lparr>e_state := AMBA_PCI_STATE_REBOOTING\<rparr>))
           (kdo K KC_mutex_unlock (kdo K KC_mutex_lock w))
     in ((int (length text), g2), w2))"
  using assms reboot_cmd_Nil by (auto simp: pcie_reboot_write_entry_def abs_slot_def Let_def split: if_splits)

lemma reboot_entry_refused:
  assumes "\<nexists>pd. reboot_cmd text = Some 1 \<and> abs_slot (g_devs g ! i) = Card AMBA_PCI_STATE_CONNECTED (Some pd)"
  shows "\<exists>r w'. pcie_reboot_write_entry K rm i text g w = ((r, g), w') \<and>
    r \<in> {- ENODEV, - EINVAL, - EBUSY} \<and> iow w' = iow w"
  using assms by (auto simp: pcie_reboot_write_entry_def abs_slot_def Let_def kframe split: option.splits if_splits)

text \<open>C36: A write to the reboot file is acted on exactly when it is at position 0, at most 32 bytes long
  and readable, its text is the number 1, memory for it can be allocated and the slot holds a connected card.
  Any other write returns one of five errnos, leaves the position and every slot as they were and
  writes no register. An accepted one marks the slot as rebooting, leaves the other slots alone and every
  slot well formed, writes no register, and hands the card over for removal with the mutex free, having taken it once;
  the handler has nothing left to do after the removal but to free its buffer and report the bytes written. That
  the removal, run by the kernel at that point, waits for this very handler is in \<open>Proc_Deadlock\<close>.\<close>

theorem reboot_write_result:
  assumes "plat_ok g" and "i < AMBA_PCI_DEV_MAX"
  shows "((\<nexists>pd. reboot_accepts K i buf cnt ppos g w pd) \<longrightarrow>
      (\<exists>r w'. pcie_proc_reboot_write K rm i buf cnt ppos g w = ((r, ppos, g), w') \<and>
         r \<in> {- ENODEV, - EINVAL, - EBUSY, - ENOMEM, - EFAULT} \<and> iow w' = iow w)) \<and>
    (\<forall>pd. reboot_accepts K i buf cnt ppos g w pd \<longrightarrow>
      (\<exists>g1 w1 p q1 q2. plat_ok g1 \<and> map abs_slot (g_devs g1) = (map abs_slot (g_devs g))[i := Card AMBA_PCI_STATE_REBOOTING (Some pd)] \<and>
         iow w1 = iow w \<and> calls w1 = calls w @ [(KC_kmalloc (cnt + 1), p), (KC_mutex_lock, q1), (KC_mutex_unlock, q2)] \<and>
         pcie_proc_reboot_write K rm i buf cnt ppos g w =
           (let (g2, w2) = rm pd g1 w1 in ((int cnt, int cnt, g2), kdo K KC_kfree w2))))"
proof -
  obtain p w0 where km: "kcall K (KC_kmalloc (cnt + 1)) w = (p, w0)" by (metis prod.exhaust)
  have w0: "iow w0 = iow w" "calls w0 = calls w @ [(KC_kmalloc (cnt + 1), p)]"
    using kcall_frame [of K "KC_kmalloc (cnt + 1)" w] km by simp_all
  have len: "length (g_devs g) = 4" using assms(1) by (simp add: plat_ok_def)
  have refused: "\<exists>r w'. pcie_proc_reboot_write K rm i buf cnt ppos g w = ((r, ppos, g), w') \<and>
      r \<in> {- ENODEV, - EINVAL, - EBUSY, - ENOMEM, - EFAULT} \<and> iow w' = iow w"
    if none: "\<nexists>pd. reboot_accepts K i buf cnt ppos g w pd"
  proof (cases "ppos = 0 \<and> cnt \<le> 32 \<and> p \<noteq> 0")
    case False
    with km w0 show ?thesis by (auto simp: pcie_proc_reboot_write_def kframe)
  next
    case ok: True
    show ?thesis
    proof (cases "copy_from_user K buf cnt")
      case None
      with ok km w0 show ?thesis by (simp add: pcie_proc_reboot_write_def kframe)
    next
      case (Some str)
      with none ok km have "\<nexists>pd. reboot_cmd str = Some 1 \<and> abs_slot (g_devs g ! i) = Card AMBA_PCI_STATE_CONNECTED (Some pd)"
        by (simp add: reboot_accepts_def)
      from reboot_entry_refused [OF this, of K rm w0] obtain r w' where
        "pcie_reboot_write_entry K rm i str g w0 = ((r, g), w')" "r \<in> {- ENODEV, - EINVAL, - EBUSY}" "iow w' = iow w0" by blast
      with Some ok km w0 show ?thesis by (auto simp: pcie_proc_reboot_write_def kframe)
    qed
  qed
  have accepted: "\<exists>g1 w1 p q1 q2. plat_ok g1 \<and> map abs_slot (g_devs g1) = (map abs_slot (g_devs g))[i := Card AMBA_PCI_STATE_REBOOTING (Some pd)] \<and>
         iow w1 = iow w \<and> calls w1 = calls w @ [(KC_kmalloc (cnt + 1), p), (KC_mutex_lock, q1), (KC_mutex_unlock, q2)] \<and>
         pcie_proc_reboot_write K rm i buf cnt ppos g w =
           (let (g2, w2) = rm pd g1 w1 in ((int cnt, int cnt, g2), kdo K KC_kfree w2))"
    if acc: "reboot_accepts K i buf cnt ppos g w pd" for pd
  proof -
    from acc obtain str where str: "copy_from_user K buf cnt = Some str" "reboot_cmd str = Some 1"
      by (auto simp: reboot_accepts_def bind_eq_Some_conv)
    from acc have pre: "ppos = 0" "cnt \<le> 32" "p \<noteq> 0" and st: "abs_slot (g_devs g ! i) = Card AMBA_PCI_STATE_CONNECTED (Some pd)"
      using km by (simp_all add: reboot_accepts_def)
    then have e: "e_in_use (g_devs g ! i)" "e_pdev (g_devs g ! i) = Some pd" "e_state (g_devs g ! i) = AMBA_PCI_STATE_CONNECTED"
      by (simp_all add: abs_slot_def split: if_splits)
    let ?g1 = "set_entry g i ((g_devs g ! i)\<lparr>e_state := AMBA_PCI_STATE_REBOOTING\<rparr>)"
    let ?w1 = "kdo K KC_mutex_unlock (kdo K KC_mutex_lock w0)"
    have "plat_ok ?g1" by (rule set_entry_ok [OF assms rebooting_ok [OF plat_ok_slot [OF assms] e(3,2)]])
    moreover have "map abs_slot (g_devs ?g1) = (map abs_slot (g_devs g))[i := Card AMBA_PCI_STATE_REBOOTING (Some pd)]"
      using e by (simp add: set_entry_def map_update abs_slot_def)
    moreover have "pcie_proc_reboot_write K rm i buf cnt ppos g w =
        (let (g2, w2) = rm pd ?g1 ?w1 in ((int cnt, int cnt, g2), kdo K KC_kfree w2))"
      using pre km str(1) copy_from_user_length [OF str(1)] reboot_entry_accepted [OF str(2) st, of K rm w0]
      by (simp add: pcie_proc_reboot_write_def Let_def case_prod_beta)
    ultimately show ?thesis
      using w0 by (intro exI [of _ ?g1] exI [of _ ?w1] exI [of _ p] exI conjI) (simp_all add: kframe)
  qed
  from refused accepted show ?thesis by blast
qed

subsection \<open>A concrete reboot\<close>

definition reboot_kernel :: "nat kernel" where
  "reboot_kernel = demo_kernel\<lparr>k_user := (\<lambda>a. if a = 0x1000 then Some 0x31 else if a = 0x1001 then Some 10 else None)\<rparr>"

lemma reboot_text: "copy_from_user reboot_kernel 0x1000 2 = Some [0x31, 10]"
  by (simp add: reboot_kernel_def numeral_eq_Suc)

lemma reboot_one: "reboot_cmd [0x31, 10] = Some 1"
  by (simp add: reboot_cmd_def cstr_def strim_in_place_def is_space_def kstrtoint10_def)

lemma reboot_run:
  "\<exists>g' w'. pcie_proc_reboot_write reboot_kernel rm 0 0x1000 2 0 connected_platform w = ((2, 2, g'), w')"
proof -
  obtain kb w1 where km: "kcall reboot_kernel (KC_kmalloc (2 + 1)) w = (kb, w1)" by (metis prod.exhaust)
  then have kb: "kb \<noteq> 0" by (auto simp: kcall_def reboot_kernel_def)
  obtain r g1 w2 where e: "pcie_reboot_write_entry reboot_kernel rm 0 [0x31, 10] connected_platform w1
      = ((r, g1), w2)" by (metis prod.exhaust)
  have st: "e_in_use connected_entry" "e_state connected_entry = AMBA_PCI_STATE_CONNECTED"
    "e_pdev connected_entry = Some demo_pci_dev"
    by (simp_all add: connected_entry_def demo_entry_def zero_entry_def)
  have "r = 2"
    using e by (simp add: pcie_reboot_write_entry_def connected_platform_entry st reboot_one Let_def split: prod.splits)
  with km kb e show ?thesis by (simp add: pcie_proc_reboot_write_def reboot_text)
qed

theorem reboot_write_result_witness:
  "(\<exists>g1 w1. map abs_slot (g_devs g1) = (map abs_slot (g_devs connected_platform))[0 := Card AMBA_PCI_STATE_REBOOTING (Some demo_pci_dev)] \<and>
     pcie_proc_reboot_write reboot_kernel (bus_remove reboot_kernel) 0 0x1000 2 0 connected_platform demo_world =
       (let (g2, w2) = bus_remove reboot_kernel demo_pci_dev g1 w1 in ((2, 2, g2), kdo reboot_kernel KC_kfree w2))) \<and>
   (\<exists>r w'. pcie_proc_reboot_write reboot_kernel (bus_remove reboot_kernel) 0 0x1000 2 0 demo_platform demo_world = ((r, 0, demo_platform), w') \<and>
     r \<in> {- ENODEV, - EINVAL, - EBUSY, - ENOMEM, - EFAULT})"
proof
  have "fst (kcall reboot_kernel (KC_kmalloc (2 + 1)) demo_world) \<noteq> 0" by (simp add: kcall_def reboot_kernel_def)
  then have "reboot_accepts reboot_kernel 0 0x1000 2 0 connected_platform demo_world demo_pci_dev"
    by (simp add: reboot_accepts_def reboot_text reboot_one connected_platform_entry connected_entry_def abs_slot_def demo_entry_def)
  with reboot_write_result [OF connected_platform_ok, where i = 0 and K = reboot_kernel and buf = "0x1000" and cnt = 2 and ppos = 0
      and w = demo_world and rm = "bus_remove reboot_kernel"]
  show "\<exists>g1 w1. map abs_slot (g_devs g1) = (map abs_slot (g_devs connected_platform))[0 := Card AMBA_PCI_STATE_REBOOTING (Some demo_pci_dev)] \<and>
     pcie_proc_reboot_write reboot_kernel (bus_remove reboot_kernel) 0 0x1000 2 0 connected_platform demo_world =
       (let (g2, w2) = bus_remove reboot_kernel demo_pci_dev g1 w1 in ((2, 2, g2), kdo reboot_kernel KC_kfree w2))"
    by fastforce
  have "\<not> reboot_accepts reboot_kernel 0 0x1000 2 0 demo_platform demo_world pd" for pd
    by (simp add: reboot_accepts_def demo_platform_def zero_platform_def zero_entry_def abs_slot_def)
  with reboot_write_result [OF demo_platform_ok, where i = 0 and K = reboot_kernel and buf = "0x1000" and cnt = 2 and ppos = 0
      and w = demo_world and rm = "bus_remove reboot_kernel"]
  show "\<exists>r w'. pcie_proc_reboot_write reboot_kernel (bus_remove reboot_kernel) 0 0x1000 2 0 demo_platform demo_world = ((r, 0, demo_platform), w') \<and>
     r \<in> {- ENODEV, - EINVAL, - EBUSY, - ENOMEM, - EFAULT}" by fastforce
qed

subsection \<open>The reboot file removes itself\<close>

lemma kcall_recorded: "\<exists>q. (c, q) \<in> set (calls (kdo K c w))"
  by (simp add: kframe) blast

lemma calls_grow: "(c, q) \<in> set (calls w) \<Longrightarrow> (c, q) \<in> set (calls (kdo K c' w))"
  by (simp add: kframe)

lemma release_removes_dir:
  assumes "slot_ok i e" "e_in_use e"
  shows "\<exists>q. (KC_remove_proc_subtree (slot_proc_name i), q) \<in> set (calls (snd (pcie_release_dev K i e w)))"
proof -
  obtain e1 w1 where d: "pcie_entry_detach_pdev K e w = (e1, w1)" by (metis prod.exhaust)
  then have e1: "e_proc_dir e1 = e_proc_dir e" "e_proc_name e1 = e_proc_name e"
    using detach_result [of K e w] by (auto split: if_splits)
  have "e_proc_dir e \<noteq> 0" "e_proc_name e = slot_proc_name i" using assms by (simp_all add: slot_ok_def)
  then have "snd (pcie_release_dev K i e w) =
      kdo K (KC_remove_proc_subtree (slot_proc_name i)) (kdo K (KC_cancel_delayed_work i) w1)"
    using d e1 assms(2) by (simp add: pcie_release_dev_def Let_def)
  then show ?thesis using kcall_recorded by simp
qed

text \<open>A reboot that is accepted removes the proc directory of its slot before the write returns: the
  directory that holds the reboot file itself. The kernel's \<open>remove_proc_subtree\<close> waits until no
  handler of the files below is running, and this handler is one of them.\<close>

theorem reboot_removes_own_directory:
  assumes "pcie_proc_reboot_write K (bus_remove K) i buf cnt ppos g w = ((r, pos, g'), w')"
    and "plat_ok g" and "i < AMBA_PCI_DEV_MAX" and "0 \<le> r"
  shows "\<exists>q. (KC_remove_proc_subtree (slot_proc_name i), q) \<in> set (calls w')"
  using assms(1)
proof (cases rule: reboot_write_cases)
  case refused
  then show ?thesis using assms(4) by auto
next
  case (ran cmd w1 r1 w2)
  have r1: "0 \<le> r1" using ran(7) assms(4) by (auto split: if_splits)
  from ran(5) show ?thesis
  proof (cases rule: reboot_entry_cases)
    case refused
    then show ?thesis using r1 by auto
  next
    case (accepted pd w3)
    let ?e = "(g_devs g ! i)\<lparr>e_state := AMBA_PCI_STATE_REBOOTING\<rparr>"
    note ok = plat_ok_slot [OF assms(2,3)]
    have slot: "get_pci_slot_id pd = int i" using ok accepted(4) by (simp add: slot_ok_def)
    have ok1: "slot_ok i ?e" by (rule rebooting_ok [OF ok accepted(5,4)])
    have "length (g_devs g) = 4" using assms(2) by (simp add: plat_ok_def)
    then have at: "g_devs (set_entry g i ?e) ! i = ?e" using assms(3) by (simp add: set_entry_nth)
    obtain e' w4 where rel: "pcie_release_dev K i ?e (kdo K KC_mutex_lock (kdo K (KC_pci_stop_and_remove (pd_handle pd)) w3)) = (e', w4)"
      by (metis prod.exhaust)
    have "pcie_handle_del_locked K pd (set_entry g i ?e) (kdo K KC_mutex_lock (kdo K (KC_pci_stop_and_remove (pd_handle pd)) w3))
        = (set_entry g i e', w4)"
      using slot at accepted(1) rel by (simp add: pcie_handle_del_locked_def Let_def set_entry_twice)
    then have "w2 = kdo K KC_mutex_unlock w4"
      using accepted(8) by (simp add: bus_remove_def pcie_pci_bus_notify_def)
    moreover obtain q where "(KC_remove_proc_subtree (slot_proc_name i), q) \<in> set (calls w4)"
      using release_removes_dir [OF ok1, of K] rel accepted(1) by (metis snd_conv pcie_dev_entry.select_convs pcie_dev_entry.surjective pcie_dev_entry.update_convs)
    ultimately show ?thesis using ran(6) calls_grow by blast
  qed
qed

theorem reboot_removes_own_directory_witness:
  "\<exists>g' w' q. pcie_proc_reboot_write reboot_kernel (bus_remove reboot_kernel) 0 0x1000 2 0 connected_platform demo_world = ((2, 2, g'), w') \<and>
     (KC_remove_proc_subtree (slot_proc_name 0), q) \<in> set (calls w')"
proof -
  obtain g' w' where run: "pcie_proc_reboot_write reboot_kernel (bus_remove reboot_kernel) 0 0x1000 2 0 connected_platform demo_world
      = ((2, 2, g'), w')" using reboot_run by blast
  from reboot_removes_own_directory [OF run connected_platform_ok] run show ?thesis by auto
qed

subsection \<open>The text of a reboot request\<close>

lemma is_space_not_digit: "is_space b \<Longrightarrow> digit_val (char_of (unat b)) = None \<and> b \<noteq> 45 \<and> b \<noteq> 43"
proof -
  assume b: "is_space b"
  have "unat b < 48 \<or> unat b = 160"
    using b unfolding is_space_def by (auto simp: word_le_nat_alt)
  moreover have "unat b < 256" using unsigned_less [of b] by simp
  moreover have "b \<noteq> 45 \<and> b \<noteq> 43" using b unfolding is_space_def by (auto simp: word_le_nat_alt)
  ultimately show ?thesis by (auto simp: of_char_of take_bit_nat_eq_self)
qed

lemma reboot_cmd_leading_space:
  assumes "is_space b"
  shows "reboot_cmd (b # bs) = None"
proof -
  have nz: "b \<noteq> 0" using assms by (auto simp: is_space_def word_le_nat_alt)
  define t where "t = takeWhile (\<lambda>b. b \<noteq> 0) (take 14 bs)"
  have c: "cstr (take 15 (b # bs)) = b # t" using nz by (simp add: cstr_def t_def)
  show ?thesis
  proof (cases "strim_in_place (b # t)")
    case Nil
    show ?thesis unfolding reboot_cmd_def c Nil by (simp add: kstrtoint10_def)
  next
    case (Cons x xs)
    have pre: "strim_in_place (b # t) = take (length (strim_in_place (b # t))) (b # t)"
    proof -
      have "rev (dropWhile is_space (rev (b # t))) @ rev (takeWhile is_space (rev (b # t))) = b # t"
        by (metis rev_append rev_rev_ident takeWhile_dropWhile_id)
      then show ?thesis unfolding strim_in_place_def by (metis append_eq_conv_conj)
    qed
    then have "x = b" using Cons by (metis list.sel(1) hd_take length_greater_0_conv list.distinct(1))
    have last: "\<not> is_space (last (x # xs))"
      using Cons hd_dropWhile [of is_space "rev (b # t)"] unfolding strim_in_place_def
      by (metis hd_rev list.distinct(1) rev.simps(1) rev_rev_ident)
    then have "last (x # xs) \<noteq> 10" by (auto simp: is_space_def)
    with is_space_not_digit [OF assms] \<open>x = b\<close> show ?thesis
      unfolding reboot_cmd_def c Cons by (simp add: kstrtoint10_def del: digit_val.simps)
  qed
qed

lemma reboot_cmd_prefix: "length xs = 15 \<Longrightarrow> reboot_cmd (xs @ ys) = reboot_cmd xs"
  by (simp add: reboot_cmd_def)

text \<open>The text of a reboot request is judged by its first 15 bytes only, although up to 32 may be
  written: the character 1, fourteen blanks and then anything is accepted. Blanks in front are
  never accepted, although the text is passed to \<open>strim\<close>, whose result the handler drops.\<close>

theorem reboot_text_quirks:
  "reboot_cmd ([0x31] @ replicate 14 0x20 @ rest) = Some 1 \<and> (\<forall>cmd. reboot_cmd (0x20 # cmd) = None) \<and>
   reboot_cmd [0x31, 10] = Some 1"
proof (intro conjI allI)
  have blanks: "dropWhile is_space (replicate 14 0x20 @ [0x31]) = [0x31]"
    by (subst dropWhile_append2) (auto simp: is_space_def)
  have "reboot_cmd (([0x31] @ replicate 14 0x20) @ rest) = reboot_cmd ([0x31] @ replicate 14 0x20)"
    by (rule reboot_cmd_prefix) simp
  also have "\<dots> = Some 1"
    by (simp add: reboot_cmd_def cstr_def strim_in_place_def blanks kstrtoint10_def)
  finally show "reboot_cmd ([0x31] @ replicate 14 0x20 @ rest) = Some 1" by simp
  show "reboot_cmd (0x20 # cmd) = None" for cmd
    by (rule reboot_cmd_leading_space) (simp add: is_space_def)
qed (rule reboot_one)

end
