(* ===== verification/Pci_Headers.thy ===== *)
theory Pci_Headers
  imports C_Layout Demo_Kernel
begin

section \<open>The inline functions of the virtio and scatter-gather headers\<close>

text \<open>
  \<open>include/pci-virtio.h\<close> and \<open>include/pci-sg.h\<close> are shared with the other modules of the platform.
  Their prototypes belong to those modules; what the headers define themselves is modelled here:
  the requests and their flags, the structs of devices, buses and drivers with the role tests, the
  transfer rate, the resource test, and the scatter-gather table with its two counters. \<open>do_div\<close> is the kernel's macro: it converts the
  divisor to 32 bits first; a division by zero is \<open>None\<close>.
\<close>

subsection \<open>Enumerations and requests\<close>

datatype pci_role = PCI_ROLE_EP | PCI_ROLE_RC

datatype pci_cmd =
    PCI_CMD_HEART_BEAT | PCI_CMD_CHAN_CREATE | PCI_CMD_CHAN_DESTROY | PCI_CMD_TEST_OB | PCI_CMD_TEST_IB
  | PCI_CMD_XFER_DATA | PCI_CMD_XFER_DATA2 | PCI_CMD_RC_TO_EP_DIRECT_IO | PCI_CMD_QUERY_INFO
  | PCI_CMD_SET_NETWORK | PCI_CMD_EP_REBOOT | PCI_CMD_SG_TABLE

fun pci_cmd_val :: "pci_cmd \<Rightarrow> u32" where
  "pci_cmd_val PCI_CMD_HEART_BEAT = 0"
| "pci_cmd_val PCI_CMD_CHAN_CREATE = 1"
| "pci_cmd_val PCI_CMD_CHAN_DESTROY = 2"
| "pci_cmd_val PCI_CMD_TEST_OB = 3"
| "pci_cmd_val PCI_CMD_TEST_IB = 4"
| "pci_cmd_val PCI_CMD_XFER_DATA = 5"
| "pci_cmd_val PCI_CMD_XFER_DATA2 = 6"
| "pci_cmd_val PCI_CMD_RC_TO_EP_DIRECT_IO = 7"
| "pci_cmd_val PCI_CMD_QUERY_INFO = 8"
| "pci_cmd_val PCI_CMD_SET_NETWORK = 9"
| "pci_cmd_val PCI_CMD_EP_REBOOT = 10"
| "pci_cmd_val PCI_CMD_SG_TABLE = 11"

definition BIT :: "nat \<Rightarrow> u32" where
  "BIT n = push_bit n 1"

datatype pci_cmd_attr = CMD_ATTR_RSVD | CMD_ATTR_TXBUF_FIXED | CMD_ATTR_EPADDR_VALID | CMD_ATTR_EP_IB | CMD_ATTR_EP_OB

fun cmd_attr_val :: "pci_cmd_attr \<Rightarrow> u32" where
  "cmd_attr_val CMD_ATTR_RSVD = BIT 0"
| "cmd_attr_val CMD_ATTR_TXBUF_FIXED = BIT 1"
| "cmd_attr_val CMD_ATTR_EPADDR_VALID = BIT 2"
| "cmd_attr_val CMD_ATTR_EP_IB = BIT 3"
| "cmd_attr_val CMD_ATTR_EP_OB = BIT 3"

datatype pci_ctrl_flag =
    PCI_F_CHKSUM | PCI_F_NACK | PCI_F_FS | PCI_F_LS | PCI_F_CHKDC | PCI_F_SYNC_DATA | PCI_F_DMA_SG
  | PCI_F_DIR_D2H | PCI_F_DMA_IO

fun ctrl_flag_val :: "pci_ctrl_flag \<Rightarrow> u32" where
  "ctrl_flag_val PCI_F_CHKSUM = BIT 0"
| "ctrl_flag_val PCI_F_NACK = BIT 1"
| "ctrl_flag_val PCI_F_FS = BIT 2"
| "ctrl_flag_val PCI_F_LS = BIT 3"
| "ctrl_flag_val PCI_F_CHKDC = BIT 4"
| "ctrl_flag_val PCI_F_SYNC_DATA = BIT 5"
| "ctrl_flag_val PCI_F_DMA_SG = BIT 6"
| "ctrl_flag_val PCI_F_DIR_D2H = BIT 7"
| "ctrl_flag_val PCI_F_DMA_IO = BIT 8"

datatype pci_status =
    PCI_S_OKAY | PCI_S_BUSY | PCI_S_ACK | PCI_S_SYNC | PCI_S_DROP | PCI_S_6 | PCI_S_7 | PCI_S_8 | PCI_S_9
  | PCI_S_10 | PCI_S_11 | PCI_S_12 | PCI_S_13 | PCI_S_14 | PCI_S_15

fun pci_status_val :: "pci_status \<Rightarrow> u32" where
  "pci_status_val PCI_S_OKAY = BIT 0"
| "pci_status_val PCI_S_BUSY = BIT 1"
| "pci_status_val PCI_S_ACK = BIT 2"
| "pci_status_val PCI_S_SYNC = BIT 3"
| "pci_status_val PCI_S_DROP = BIT 5"
| "pci_status_val PCI_S_6 = BIT 6"
| "pci_status_val PCI_S_7 = BIT 7"
| "pci_status_val PCI_S_8 = BIT 8"
| "pci_status_val PCI_S_9 = BIT 9"
| "pci_status_val PCI_S_10 = BIT 10"
| "pci_status_val PCI_S_11 = BIT 11"
| "pci_status_val PCI_S_12 = BIT 12"
| "pci_status_val PCI_S_13 = BIT 13"
| "pci_status_val PCI_S_14 = BIT 14"
| "pci_status_val PCI_S_15 = BIT 15"

datatype pci_xfer_dir = PCI_XFER_RX | PCI_XFER_TX

definition PCI_CAP_DMA_SG :: u32 where
  "PCI_CAP_DMA_SG = BIT 0"

record pci_xmit_req2 =
  xr2_src :: u64
  xr2_dst :: u64
  xr2_size :: u32
  xr2_flags :: u32

record pci_xmit_req =
  xr_src :: u32
  xr_dst :: u32
  xr_cmd :: u32
  xr_flag :: u32
  xr_check_dc :: u32
  xr_buf_virt :: u64
  xr_buf_phys :: u64
  xr_ep_addr :: u64
  xr_size :: u32

record pci_virtio_channel =
  ch_src :: u32
  ch_dst :: u32

record pci_virtio_cmd =
  vc_name :: string
  vc_cmd :: pci_cmd
  vc_attr :: u32

record pci_sg_array =
  sa_addr :: u64
  sa_size :: u64

definition req_need_wait_ack :: "pci_xmit_req \<Rightarrow> bool" where
  "req_need_wait_ack req = (if xr_flag req AND ctrl_flag_val PCI_F_NACK \<noteq> 0 then False else True)"

definition req_need_sync_data :: "pci_xmit_req \<Rightarrow> bool" where
  "req_need_sync_data req = (if xr_flag req AND ctrl_flag_val PCI_F_SYNC_DATA \<noteq> 0 then True else False)"

subsection \<open>Devices, buses and drivers\<close>

text \<open>
  The structs that the modules share. Pointers to objects of the kernel or of a module are addresses;
  objects of kernel types that a struct embeds (\<open>struct device\<close>, \<open>list_head\<close>, locks) have the type
  \<open>'k\<close>, which the headers leave to the kernel. The operations of a bus work on a state \<open>'s\<close>; pointers to them
  may be NULL.
\<close>

record 's pci_virtio_xfer_ops =
  xo_role :: pci_role
  xo_xmit :: "u64 \<Rightarrow> pci_xmit_req \<Rightarrow> 's \<Rightarrow> int \<times> 's"
  xo_ep_sg2sg :: "u64 \<Rightarrow> u64 \<Rightarrow> int \<Rightarrow> u64 \<Rightarrow> 's \<Rightarrow> int \<times> 's"
  xo_ep_mem2sg :: "u64 \<Rightarrow> u64 \<Rightarrow> u64 \<Rightarrow> u64 \<Rightarrow> 's \<Rightarrow> int \<times> 's"
  xo_inbound :: "u64 \<Rightarrow> pci_xmit_req2 \<Rightarrow> 's \<Rightarrow> int \<times> 's"
  xo_outbound :: "u64 \<Rightarrow> pci_xmit_req2 \<Rightarrow> 's \<Rightarrow> int \<times> 's"
  xo_align_size :: "u64 \<Rightarrow> 's \<Rightarrow> int \<times> 's"
  xo_get_device :: "u64 \<Rightarrow> 's \<Rightarrow> u64 \<times> 's"

record ('s, 'k) pci_virtio_device =
  vd_pci_data :: u64
  vd_drv_data :: u64
  vd_dma_dev :: u64
  vd_dev :: 'k
  vd_id :: 'k
  vd_xfer_ops :: "'s pci_virtio_xfer_ops option"
  vd_src :: u32
  vd_dst :: u32
  vd_init_name :: "8 word list"
  vd_bdf_of_rc :: "8 word list"
  vd_list :: 'k
  vd_sgt :: u64
  vd_dma_addr_sg :: u64
  vd_sgt_mtx :: 'k

record ('s, 'k) pci_virtio_bus =
  vb_xfer_ops :: "'s pci_virtio_xfer_ops option"
  vb_bus :: u64
  vb_mtx :: 'k
  vb_master_list :: 'k
  vb_device_list :: 'k
  vb_lock :: 'k

record 'k pci_virtio_master =
  vm_pci_data :: u64
  vm_list :: 'k

type_synonym 's rx_handler = "u64 \<Rightarrow> u32 \<Rightarrow> pci_cmd \<Rightarrow> u64 \<Rightarrow> u64 \<Rightarrow> u64 \<Rightarrow> u32 \<Rightarrow> u64 \<Rightarrow> 's \<Rightarrow> int \<times> 's"

record 's pci_rx_cb =
  rx_ep :: "'s rx_handler option"
  rx_rc :: "'s rx_handler option"

record ('s, 'k) pci_virtio_driver =
  vr_drv :: 'k
  vr_id_table :: u64
  vr_probe :: "('s, 'k) pci_virtio_device \<Rightarrow> 's \<Rightarrow> int \<times> 's"
  vr_remove :: "('s, 'k) pci_virtio_device \<Rightarrow> 's \<Rightarrow> 's"
  vr_cb :: "'s pci_rx_cb"
  vr_res :: u64
  vr_dev_list :: 'k
  vr_cap :: u32

text \<open>\<open>None\<close> is the use of a NULL pointer: a device that no bus has given its operations yet.\<close>

definition pci_virtio_role_name :: "('s, 'k) pci_virtio_device \<Rightarrow> string option" where
  "pci_virtio_role_name dev =
     map_option (\<lambda>ops. if xo_role ops = PCI_ROLE_EP then ''EP'' else ''RC'') (vd_xfer_ops dev)"

definition pci_virtio_role_ep :: "('s, 'k) pci_virtio_device \<Rightarrow> bool option" where
  "pci_virtio_role_ep dev = map_option (\<lambda>ops. if xo_role ops = PCI_ROLE_EP then True else False) (vd_xfer_ops dev)"

text \<open>An entry of the command table, at the index of its command.\<close>

definition PCI_VIRTIO_CMD :: "string \<Rightarrow> pci_cmd \<Rightarrow> u32 \<Rightarrow> u32 \<times> pci_virtio_cmd" where
  "PCI_VIRTIO_CMD nm c a = (pci_cmd_val c, \<lparr>vc_name = nm, vc_cmd = c, vc_attr = a\<rparr>)"

subsection \<open>The transfer rate\<close>

abbreviation (input) NSEC_PER_SEC :: int where "NSEC_PER_SEC \<equiv> 1000000000"

text \<open>\<open>timespec64_to_ns\<close> of the kernel library, which saturates.\<close>

definition timespec64_to_ns :: "int \<Rightarrow> int \<Rightarrow> int" where
  "timespec64_to_ns tv_sec tv_nsec =
     (if (2 ^ 63 - 1) div NSEC_PER_SEC \<le> tv_sec then 2 ^ 63 - 1
      else if tv_sec \<le> - (2 ^ 63 div NSEC_PER_SEC) then - (2 ^ 63)
      else tv_sec * NSEC_PER_SEC + tv_nsec)"

definition do_div :: "u64 \<Rightarrow> u64 \<Rightarrow> u64 option" where
  "do_div n base = (let b = (ucast base :: u32) in if b = 0 then None else Some (n div ucast b))"

definition xfer_calc_rate :: "u64 \<Rightarrow> int \<Rightarrow> int \<Rightarrow> u64 option" where
  "xfer_calc_rate sz tv_sec tv_nsec =
     (let rate = sz * of_int NSEC_PER_SEC div 1024 div 1024;
          ns = (of_int (timespec64_to_ns tv_sec tv_nsec) :: u64)
      in if ns = 0 then Some 0 else do_div rate ns)"

subsection \<open>Resources\<close>

definition resource_check :: "u64 \<Rightarrow> u64 \<Rightarrow> u64 \<Rightarrow> bool" where
  "resource_check res_start res_end addr = (if addr < res_start \<or> addr \<ge> res_end then False else True)"

subsection \<open>The scatter-gather table\<close>

abbreviation (input) MAX_SG_NUM :: nat where "MAX_SG_NUM \<equiv> 4096"

definition pci_sg_list_layout :: "cfield list" where
  "pci_sg_list_layout = [f_u64, f_u32, f_u32]"

definition pci_sg_table_layout :: "cfield list" where
  "pci_sg_table_layout =
     [f_u32, f_u32, (MAX_SG_NUM * size_of pci_sg_list_layout, struct_align pci_sg_list_layout)]"

abbreviation (input) PCI_SG_AVAIL_OFFSET :: u64 where "PCI_SG_AVAIL_OFFSET \<equiv> 0"
abbreviation (input) PCI_SG_USED_OFFSET :: u64 where "PCI_SG_USED_OFFSET \<equiv> 4"

definition sgl_addr :: "u64 \<Rightarrow> nat \<Rightarrow> u64" where
  "sgl_addr sgt n = sgt + 8 + of_nat n * of_nat (size_of pci_sg_list_layout)"

definition sgt_get_avail :: "'d kernel \<Rightarrow> u64 \<Rightarrow> 'd world \<Rightarrow> u32 \<times> 'd world" where
  "sgt_get_avail K sgt w = readl K (sgt + PCI_SG_AVAIL_OFFSET) w"

definition sgt_get_used :: "'d kernel \<Rightarrow> u64 \<Rightarrow> 'd world \<Rightarrow> u32 \<times> 'd world" where
  "sgt_get_used K sgt w = readl K (sgt + PCI_SG_USED_OFFSET) w"

definition sgt_set_used :: "'d kernel \<Rightarrow> u64 \<Rightarrow> u32 \<Rightarrow> 'd world \<Rightarrow> 'd world" where
  "sgt_set_used K sgt used w = writel K used (sgt + PCI_SG_USED_OFFSET) w"

subsection \<open>What they compute\<close>

text \<open>The transfer rate is the number of whole MiB per second for transfers of up to 18 GB that took
  less than 2^32 ns, a little over four seconds. The divisor is cut to 32 bits, so a transfer of
  exactly 2^32 ns divides by zero, and a longer one is divided by what is left of its duration.\<close>

theorem xfer_rate_result:
  assumes "tv_nsec < 1000000000" and "tv_sec < 9000000000"
    and "ns = tv_sec * 1000000000 + tv_nsec" and "unat sz \<le> 18000000000"
  shows "(0 < ns \<and> ns < 2 ^ 32 \<longrightarrow> xfer_calc_rate sz (int tv_sec) (int tv_nsec) =
      Some (of_nat (unat sz * 1000000000 div 1024 div 1024 div ns))) \<and>
    (0 < ns \<and> ns mod 2 ^ 32 = 0 \<longrightarrow> xfer_calc_rate sz (int tv_sec) (int tv_nsec) = None) \<and>
    (ns mod 2 ^ 32 \<noteq> 0 \<longrightarrow> xfer_calc_rate sz (int tv_sec) (int tv_nsec) =
      Some (of_nat (unat sz * 1000000000 div 1024 div 1024 div (ns mod 2 ^ 32))))"
proof -
  let ?R = "unat sz * 1000000000 div 1024 div 1024"
  let ?ns = "of_nat ns :: u64"
  have small: "ns < 2 ^ 64" using assms(1-3) by simp
  have ts: "(of_int (timespec64_to_ns (int tv_sec) (int tv_nsec)) :: u64) = ?ns"
    using assms(1-3) by (simp add: timespec64_to_ns_def)
  have prod: "unat (sz * 1000000000) = unat sz * 1000000000"
    using assms(4) by (simp add: unat_word_ariths)
  have rate: "unat (sz * of_int NSEC_PER_SEC div 1024 div 1024) = ?R"
    by (simp add: unat_div prod)
  have u: "unat ?ns = ns" using small by (simp add: unsigned_of_nat take_bit_nat_eq_self)
  have low: "unat (ucast ?ns :: u32) = ns mod 2 ^ 32"
    unfolding unsigned_ucast_eq u by (simp add: take_bit_nat_def)
  have zero: "(ucast ?ns :: u32) = 0 \<longleftrightarrow> ns mod 2 ^ 32 = 0"
    using low by (metis unat_0 unat_eq_zero)
  have pos: "?ns = 0 \<longleftrightarrow> ns = 0" using unat_eq_zero [of ?ns] unfolding u by blast
  have divd: "sz * of_int NSEC_PER_SEC div 1024 div 1024 div ucast (ucast ?ns :: u32) = of_nat (?R div (ns mod 2 ^ 32))"
    by (subst word_arith_nat_div) (simp only: rate unat_ucast_32_64 low)
  have result: "xfer_calc_rate sz (int tv_sec) (int tv_nsec) =
      (if ns = 0 then Some 0 else if ns mod 2 ^ 32 = 0 then None else Some (of_nat (?R div (ns mod 2 ^ 32))))"
    unfolding xfer_calc_rate_def do_div_def Let_def ts divd zero pos ..
  show ?thesis unfolding result by auto
qed

theorem xfer_rate_result_witness:
  "xfer_calc_rate 0x100000 1 0 = Some 1 \<and> xfer_calc_rate 0x100000 4 294967296 = None \<and>
   xfer_calc_rate 0x100000 4 294967297 = Some 1000000000"
  using xfer_rate_result [of 0 1 1000000000 "0x100000"] xfer_rate_result [of 294967296 4 4294967296 "0x100000"]
    xfer_rate_result [of 294967297 4 4294967297 "0x100000"] by simp

text \<open>The resource test accepts the addresses from the start of a resource up to, but not including,
  its \<open>end\<close>, and \<open>end\<close> is the last byte of a resource in the kernel: that byte is refused, and a
  resource of one byte has no address that is accepted.\<close>

theorem resource_check_excludes_last:
  "(resource_check res_start res_end addr \<longleftrightarrow> res_start \<le> addr \<and> addr < res_end) \<and>
   \<not> resource_check res_start res_end res_end \<and> \<not> resource_check res_start res_start addr"
  by (auto simp: resource_check_def)

subsection \<open>The scatter-gather table is laid out as its accessors assume\<close>

lemma sg_layout_eval:
  "size_of pci_sg_list_layout = 16" "offset_of pci_sg_table_layout 0 = 0" "offset_of pci_sg_table_layout 1 = 4"
  "offset_of pci_sg_table_layout 2 = 8" "size_of pci_sg_table_layout = 65544"
  by (simp_all add: layout_eval pci_sg_list_layout_def pci_sg_table_layout_def)

text \<open>The accessors of the scatter-gather table agree with the layout of the C struct: the two counters
  and the list are where the struct has them, the 4096 entries do not overlap one another or the
  counters and end with the table, and a \<open>used\<close> count that is set is read back, whatever is written
  to the list in between, when the other side leaves the count alone.\<close>

theorem sg_table_layout_agrees:
  assumes "\<forall>d m. read_bytes (snd (k_ep K d m)) (sgt + 4) 4 = read_bytes m (sgt + 4) 4"
    and "n < MAX_SG_NUM" and "k < MAX_SG_NUM" and "length bs = 16"
  shows "sgl_addr sgt n = sgt + of_nat (offset_of pci_sg_table_layout 2 + n * size_of pci_sg_list_layout) \<and>
    offset_of pci_sg_table_layout 2 + (n + 1) * size_of pci_sg_list_layout \<le> size_of pci_sg_table_layout \<and>
    (n \<noteq> k \<longrightarrow> disjoint_span (sgl_addr sgt n) 16 (sgl_addr sgt k) 16) \<and>
    disjoint_span (sgt + PCI_SG_USED_OFFSET) 4 (sgl_addr sgt n) 16 \<and>
    fst (sgt_get_used K sgt (memcpy_toio K (sgl_addr sgt n) bs (sgt_set_used K sgt used w))) = used"
proof -
  have at: "sgl_addr sgt m = sgt + of_nat (8 + m * 16)" for m
    by (simp add: sgl_addr_def sg_layout_eval add.assoc mult.commute)
  have entries: "disjoint_span (sgl_addr sgt n) 16 (sgl_addr sgt k) 16" if "n \<noteq> k"
  proof (cases "n < k")
    case True
    then show ?thesis unfolding at by (intro disjoint_span_offsets) (use assms(2,3) in auto)
  next
    case False
    with that have "k < n" by simp
    then have "disjoint_span (sgl_addr sgt k) 16 (sgl_addr sgt n) 16"
      unfolding at by (intro disjoint_span_offsets) (use assms(2,3) in auto)
    then show ?thesis by (rule disjoint_span_sym)
  qed
  have used: "disjoint_span (sgt + of_nat 4) 4 (sgt + of_nat (8 + n * 16)) 16"
    by (rule disjoint_span_offsets) (use assms(2) in auto)
  have turn: "read_bytes (w_io (ep_turn K v)) (sgt + 4) 4 = read_bytes (w_io v) (sgt + 4) 4" for v
    using assms(1) by (simp add: ep_turn_def split: prod.splits) (metis snd_conv)
  let ?w1 = "sgt_set_used K sgt used w"
  have set: "read_bytes (w_io ?w1) (sgt + 4) 4 = to_le 4 used"
    using io.rd_wr_same [of "to_le 4 used" _ "sgt + 4"] by (simp add: sgt_set_used_def writel_def Let_def)
  have keep: "read_bytes (w_io (memcpy_toio K (sgl_addr sgt n) bs ?w1)) (sgt + 4) 4 = to_le 4 used"
    using io.rd_wr_other [OF used [folded assms(4)]] turn set unfolding at
    by (simp add: memcpy_toio_def Let_def assms(4))
  have "fst (sgt_get_used K sgt (memcpy_toio K (sgl_addr sgt n) bs ?w1)) = used"
    using keep turn by (simp add: sgt_get_used_def readl_def Let_def)
  moreover have "disjoint_span (sgt + PCI_SG_USED_OFFSET) 4 (sgl_addr sgt n) 16"
    using used unfolding at by simp
  ultimately show ?thesis using entries assms(2) unfolding sg_layout_eval by (simp add: at)
qed

theorem sg_table_layout_agrees_witness:
  "\<exists>K :: nat kernel. sgl_addr 0x10000 4095 = 0x1fff8 \<and>
     fst (sgt_get_used K 0x10000 (memcpy_toio K (sgl_addr 0x10000 4095) (replicate 16 7) (sgt_set_used K 0x10000 3 demo_world))) = 3"
proof -
  let ?K = "demo_kernel\<lparr>k_ep := \<lambda>d m. (d, m)\<rparr>"
  have "\<forall>d m. read_bytes (snd (k_ep ?K d m)) (0x10000 + 4) 4 = read_bytes m (0x10000 + 4) 4" by simp
  note agrees = sg_table_layout_agrees [OF this, of 4095 0 "replicate 16 7" 3 demo_world]
  have "fst (sgt_get_used ?K 0x10000 (memcpy_toio ?K (sgl_addr 0x10000 4095) (replicate 16 7) (sgt_set_used ?K 0x10000 3 demo_world))) = 3"
    by (rule agrees [THEN conjunct2, THEN conjunct2, THEN conjunct2, THEN conjunct2]) simp_all
  moreover have "sgl_addr 0x10000 4095 = 0x1fff8" by (simp add: sgl_addr_def sg_layout_eval)
  ultimately show ?thesis by blast
qed

end
