(* ===== verification/Query_Correct.thy ===== *)
theory Query_Correct
  imports Ioctl_Ops Hotplug_Correct Abi_Codec
begin

section \<open>The platform query\<close>

text \<open>
  \<open>pcie_ioctl_query_platform_info\<close> answers for all four slots at once, under the mutex. The answer
  has one entry per slot, in order, with the slot's own state and its device's numbers; it may map
  boot BARs and read board information on the way, but it changes nothing else of a slot.
\<close>

subsection \<open>One slot\<close>

definition answers :: "nat \<Rightarrow> pcie_dev_entry \<Rightarrow> amba_pci_dev_info \<Rightarrow> bool" where
  "answers i e d \<longleftrightarrow>
     di_slot_id d = of_nat i \<and> di_state d = e_state e \<and> di_id d = e_id e \<and>
     di_is_valid d = (if e_in_use e then 1 else 0) \<and> dev_info_ok d \<and>
     (\<forall>pd. e_pdev e = Some pd \<longrightarrow> e_in_use e \<longrightarrow> di_vendor d = ucast (pd_vendor pd) \<and> di_device d = ucast (pd_device pd))"

lemma query_answers:
  assumes "pcie_query_dev_info_locked K e (int i) w = ((d, e'), w')" "slot_ok i e"
  shows "answers i e' d"
proof -
  obtain r e1 w1 where m: "pcie_dev_refresh_board_info_locked K e w = ((r, e1), w1)" by (metis prod.exhaust)
  note same = refresh_result(1) [OF m assms(2), unfolded same_but_board_def prod.inject]
  show ?thesis
  proof (cases "e_in_use e")
    case False
    with assms(1) show ?thesis
      by (auto simp: pcie_query_dev_info_locked_def Let_def answers_def zero_dev_info_def dev_info_ok_def)
  next
    case True
    with assms(1) m same show ?thesis
      by (cases "e_pdev e1")
        (auto simp: pcie_query_dev_info_locked_def Let_def answers_def zero_dev_info_def dev_info_ok_def split: if_splits)
  qed
qed

subsection \<open>All slots\<close>

lemma query_all_result:
  assumes "query_all K i es w = ((ds, es', n), w')" "\<forall>j < length es. slot_ok (i + j) (es ! j)"
  shows "length ds = length es \<and> length es' = length es \<and> iow w' = iow w \<and>
    n = length (filter e_in_use es) \<and> map abs_slot es' = map abs_slot es \<and> map e_work_pending es' = map e_work_pending es \<and>
    (\<forall>j < length es. same_but_board (es ! j) (es' ! j) \<and> slot_ok (i + j) (es' ! j) \<and> answers (i + j) (es' ! j) (ds ! j))"
  using assms
proof (induction es arbitrary: i w ds es' n w')
  case Nil
  then show ?case by simp
next
  case (Cons e es)
  obtain d e1 w1 where q: "pcie_query_dev_info_locked K e (int i) w = ((d, e1), w1)" by (metis prod.exhaust)
  obtain ds2 es2 n2 w2 where rest: "query_all K (Suc i) es w1 = ((ds2, es2, n2), w2)" by (metis prod.exhaust)
  have ok: "slot_ok i e" using Cons.prems(2) by auto
  note r = query_result [OF q ok] and a = query_answers [OF q ok]
  have "\<forall>j < length es. slot_ok (Suc i + j) (es ! j)"
  proof (intro allI impI)
    fix j assume "j < length es"
    then show "slot_ok (Suc i + j) (es ! j)" using Cons.prems(2) [rule_format, of "Suc j"] by simp
  qed
  note IH = Cons.IH [OF rest this]
  have out: "ds = d # ds2" "es' = e1 # es2" "n = (if e_in_use e1 then Suc n2 else n2)" "w' = w2"
    using Cons.prems(1) q rest by auto
  have same: "e_in_use e1 = e_in_use e" "abs_slot e1 = abs_slot e" "e_work_pending e1 = e_work_pending e"
    using r(1) by (simp_all add: same_but_board_def abs_slot_def)
  have "same_but_board ((e # es) ! j) (es' ! j) \<and> slot_ok (i + j) (es' ! j) \<and> answers (i + j) (es' ! j) (ds ! j)"
    if "j < length (e # es)" for j
    using that IH r(1,3) a unfolding out by (cases j) auto
  then show ?case using IH r(2) same unfolding out by auto
qed

context ledger
begin

lemma query_all_gap:
  "query_all K i es w = ((ds, es', n), w') \<Longrightarrow> \<forall>e \<in> set es. e_boot_bar e < 6 \<Longrightarrow>
     balance wt w' - sum_list (map own es') = balance wt w - sum_list (map own es)"
proof (induction es arbitrary: i w ds es' n w')
  case Nil
  then show ?case by simp
next
  case (Cons e es)
  obtain d e1 w1 where q: "pcie_query_dev_info_locked K e (int i) w = ((d, e1), w1)" by (metis prod.exhaust)
  obtain ds2 es2 n2 w2 where rest: "query_all K (Suc i) es w1 = ((ds2, es2, n2), w2)" by (metis prod.exhaust)
  have out: "es' = e1 # es2" "w' = w2" using Cons.prems(1) q rest by auto
  have "gap wt own e1 w1 = gap wt own e w" by (rule query_gap [OF q]) (use Cons.prems(2) in simp)
  moreover have "balance wt w2 - sum_list (map own es2) = balance wt w1 - sum_list (map own es)"
    by (rule Cons.IH [OF rest]) (use Cons.prems(2) in simp)
  ultimately show ?case unfolding out by (simp add: gap_def)
qed

end

subsection \<open>The ioctl\<close>

lemma query_ioctl_cases:
  assumes "pcie_ioctl_query_platform_info K argp g w = ((r, g'), w')"
  obtains (null) "argp = 0" "r = - EINVAL" "g' = g" "w' = w"
  | (ran) infos es n w1 left info where "argp \<noteq> 0" "query_all K 0 (g_devs g) (kdo K KC_mutex_lock w) = ((infos, es, n), w1)"
      "info = \<lparr>pi_version = 1, pi_dev_num = of_nat n, pi_devs = infos\<rparr>" "g' = g\<lparr>g_devs := es\<rparr>"
      "kcall K (KC_copy_to_user argp (platform_info_to_bytes info)) (kdo K KC_mutex_unlock w1) = (left, w')"
      "r = (if left \<noteq> 0 then - EFAULT else 0)"
proof (cases "argp = 0")
  case True
  with assms null show thesis by (simp add: pcie_ioctl_query_platform_info_def)
next
  case False
  obtain infos es n w1 where q: "query_all K 0 (g_devs g) (kdo K KC_mutex_lock w) = ((infos, es, n), w1)"
    by (metis prod.exhaust)
  let ?info = "\<lparr>pi_version = 1, pi_dev_num = of_nat n, pi_devs = infos\<rparr>"
  obtain left w2 where c: "kcall K (KC_copy_to_user argp (platform_info_to_bytes ?info)) (kdo K KC_mutex_unlock w1) = (left, w2)"
    by (metis prod.exhaust)
  from assms False q c have "w' = w2" "g' = g\<lparr>g_devs := es\<rparr>" "r = (if left \<noteq> 0 then - EFAULT else 0)"
    by (simp_all add: pcie_ioctl_query_platform_info_def Let_def)
  with False q c show thesis by (intro ran) simp_all
qed

lemma query_ioctl_result:
  assumes "pcie_ioctl_query_platform_info K argp g w = ((r, g'), w')" "plat_ok g"
  shows "plat_ok g' \<and> map abs_slot (g_devs g') = map abs_slot (g_devs g) \<and>
    map e_work_pending (g_devs g') = map e_work_pending (g_devs g) \<and> iow w' = iow w"
  using assms(1)
proof (cases rule: query_ioctl_cases)
  case null
  then show ?thesis using assms(2) by simp
next
  case (ran infos es n w1 left info)
  have "\<forall>j < length (g_devs g). slot_ok (0 + j) (g_devs g ! j)" using assms(2) by (simp add: plat_ok_def)
  note q = query_all_result [OF ran(2) this]
  have io: "iow w' = iow w1" using kcallD [OF ran(5)] by (simp add: kframe)
  have len: "length (g_devs g) = 4" using assms(2) by (simp add: plat_ok_def)
  with q io ran(4) show ?thesis by (simp add: plat_ok_def kframe)
qed

text \<open>C35: The platform query answers for every slot: the buffer it copies out has the size and layout of
  the C struct, the device count is the number of cards present, and the entry of each slot holds
  its number, state, validity and its device's vendor and device number. No slot changes its state,
  its device or its timeout, and all stay well formed. A NULL pointer is refused.\<close>

theorem query_platform_info_result:
  assumes "pcie_ioctl_query_platform_info K argp g w = ((r, g'), w')" and "plat_ok g"
  shows "plat_ok g' \<and> map abs_slot (g_devs g') = map abs_slot (g_devs g) \<and>
    map e_work_pending (g_devs g') = map e_work_pending (g_devs g) \<and> iow w' = iow w \<and>
    (argp = 0 \<longrightarrow> r = - EINVAL \<and> w' = w) \<and>
    (argp \<noteq> 0 \<longrightarrow> (\<exists>info left. last (calls w') = (KC_copy_to_user argp (platform_info_to_bytes info), left) \<and>
       r = (if left \<noteq> 0 then - EFAULT else 0) \<and>
       length (platform_info_to_bytes info) = size_of platform_info_layout \<and>
       unat (pi_dev_num info) = length (filter e_in_use (g_devs g)) \<and>
       (\<forall>i < AMBA_PCI_DEV_MAX. answers i (g_devs g' ! i) (pi_devs info ! i) \<and>
          slice (8 + 100 * i) 100 (platform_info_to_bytes info) = dev_info_to_bytes (pi_devs info ! i))))"
proof -
  note res = query_ioctl_result [OF assms]
  from assms(1) show ?thesis
  proof (cases rule: query_ioctl_cases)
    case null
    then show ?thesis using res by simp
  next
    case (ran infos es n w1 left info)
    have len: "length (g_devs g) = 4" using assms(2) by (simp add: plat_ok_def)
    have "\<forall>j < length (g_devs g). slot_ok (0 + j) (g_devs g ! j)" using assms(2) by (simp add: plat_ok_def)
    note q = query_all_result [OF ran(2) this]
    have infos: "length (pi_devs info) = AMBA_PCI_DEV_MAX" using q len ran(3) by simp
    have ans: "\<forall>i < AMBA_PCI_DEV_MAX. answers i (g_devs g' ! i) (pi_devs info ! i)"
      using q len ran(3,4) by simp
    then have ok: "\<forall>d \<in> set (pi_devs info). dev_info_ok d"
      using infos by (auto simp: in_set_conv_nth answers_def)
    have "last (calls w') = (KC_copy_to_user argp (platform_info_to_bytes info), left)"
      using kcallD [OF ran(5)] by simp
    moreover have "unat (pi_dev_num info) = length (filter e_in_use (g_devs g))"
    proof -
      have "length (filter e_in_use (g_devs g)) \<le> 4" using len by (metis length_filter_le)
      then show ?thesis using q ran(3) by (simp add: unsigned_of_nat take_bit_nat_eq_self)
    qed
    ultimately show ?thesis
      using res ran(1,6) ans length_platform_info [OF infos ok] platform_info_slot [OF infos ok]
      by (intro conjI impI exI [of _ info] exI [of _ left]) simp_all
  qed
qed

theorem query_platform_info_result_witness:
  "\<exists>r g' w' info left. pcie_ioctl_query_platform_info demo_kernel 0x1000 demo_platform demo_world = ((r, g'), w') \<and>
     last (calls w') = (KC_copy_to_user 0x1000 (platform_info_to_bytes info), left) \<and>
     length (platform_info_to_bytes info) = 408 \<and> plat_ok g'"
proof -
  obtain r g' w' where run: "pcie_ioctl_query_platform_info demo_kernel 0x1000 demo_platform demo_world = ((r, g'), w')"
    by (metis prod.exhaust)
  from query_platform_info_result [OF run demo_platform_ok] run show ?thesis by (auto simp: size_of_abi)
qed

end
