(* ===== verification/H2d_Correct.thy ===== *)
theory H2d_Correct
  imports Ioctl_Ops Hotplug_Correct Abi_Codec Ring_Xfer_Correct Resource_Ledger
begin

section \<open>Sending data to a running card\<close>

text \<open>
  The two send ioctls hand chunks of at most 2 MiB to the transfer function of the turbo module.
  What has been handed over is read off the kernel calls (\<open>h2d_sent\<close>), and stored by the receiving
  side chunk by chunk (\<open>h2d_apply\<close>). A send that returns 0 has stored exactly the source at the
  requested address; the symbol, the file and the buffer are given back on every path; both loops
  end.
\<close>

subsection \<open>What has been sent\<close>

fun h2d_of :: "kcall \<times> int \<Rightarrow> (u32 \<times> u8 list \<times> u64) list" where
  "h2d_of (KC_h2d_xfer bus bs a, r) = [(bus, bs, a)]"
| "h2d_of (c, r) = []"

definition h2d_sent :: "'d world \<Rightarrow> (u32 \<times> u8 list \<times> u64) list" where
  "h2d_sent w = concat (map h2d_of (calls w))"

fun h2d_apply :: "(u32 \<times> u8 list \<times> u64) list \<Rightarrow> iomem \<Rightarrow> iomem" where
  "h2d_apply [] m = m"
| "h2d_apply ((bus, bs, a) # xs) m = h2d_apply xs (write_bytes m a bs)"

lemma h2d_sent_frame [kframe]:
  "h2d_sent (snd (kcall K c w)) = h2d_sent w @ h2d_of (c, fst (kcall K c w))"
  "h2d_sent (kdo K c w) = h2d_sent w @ h2d_of (c, fst (kcall K c w))"
  by (simp_all add: h2d_sent_def kframe)

lemma h2d_apply_append: "h2d_apply (xs @ ys) m = h2d_apply ys (h2d_apply xs m)"
  by (induction xs m rule: h2d_apply.induct) simp_all

definition chunks_ok :: "u32 \<Rightarrow> (u32 \<times> u8 list \<times> u64) list \<Rightarrow> bool" where
  "chunks_ok bus xs \<longleftrightarrow> (\<forall>(b, bs, a) \<in> set xs. b = bus \<and> bs \<noteq> [] \<and> length bs \<le> 0x200000)"

definition only_h2d :: "(kcall \<times> int) list \<Rightarrow> bool" where
  "only_h2d cs \<longleftrightarrow> (\<forall>c \<in> set cs. \<exists>bus bs a. fst c = KC_h2d_xfer bus bs a)"

subsection \<open>The buffer loop\<close>

lemma chunk_max: "unat (push_bit 20 2 :: u64) = 0x200000"
  by simp

lemma send_chunk:
  assumes "offset < sz" and n: "n = min (sz - offset) AMBA_PCI_H2D_CHUNK_MAX"
  shows "0 < unat n" "unat n \<le> 0x200000" "unat (offset + n) = unat offset + unat n" "unat offset + unat n \<le> unat sz"
proof -
  have lt: "unat offset < unat sz" using assms(1) by (simp add: word_less_nat_alt)
  have un: "unat n = min (unat sz - unat offset) 0x200000"
    unfolding n using assms(1) by (simp add: unat_min unat_sub less_imp_le)
  show "0 < unat n" "unat n \<le> 0x200000" "unat offset + unat n \<le> unat sz" using un lt by simp_all
  then show "unat (offset + n) = unat offset + unat n"
    using unat_u64_less [of sz] by (subst unat_add_no_wrap) auto
qed

lemma send_buffer_step:
  "offset < sz \<Longrightarrow> n = min (sz - offset) AMBA_PCI_H2D_CHUNK_MAX \<Longrightarrow> copy_from_user K (src + offset) (unat n) = Some bs \<Longrightarrow>
   kcall K (KC_h2d_xfer bus bs (ep_addr + offset)) w = (r, w1) \<Longrightarrow>
   send_buffer_loop K bus src sz ep_addr offset w =
     (if r \<noteq> 0 then Some (r, w1) else send_buffer_loop K bus src sz ep_addr (offset + n) w1)"
  by (subst send_buffer_loop.simps) (simp add: Let_def)

lemma send_buffer_fault:
  "offset < sz \<Longrightarrow> n = min (sz - offset) AMBA_PCI_H2D_CHUNK_MAX \<Longrightarrow> copy_from_user K (src + offset) (unat n) = None \<Longrightarrow>
   send_buffer_loop K bus src sz ep_addr offset w = Some (- EFAULT, w)"
  by (subst send_buffer_loop.simps) simp

lemma send_buffer_end: "\<not> offset < sz \<Longrightarrow> send_buffer_loop K bus src sz ep_addr offset w = Some (0, w)"
  by (subst send_buffer_loop.simps) simp

lemma send_buffer_loop_result:
  assumes "offset \<le> sz"
  shows "\<exists>r w' xs cs. send_buffer_loop K bus src sz ep_addr offset w = Some (r, w') \<and>
    h2d_sent w' = h2d_sent w @ xs \<and> chunks_ok bus xs \<and> calls w' = calls w @ cs \<and> only_h2d cs \<and> iow w' = iow w \<and>
    (r = 0 \<longrightarrow> (\<exists>data. copy_from_user K (src + offset) (unat sz - unat offset) = Some data \<and>
       (\<forall>m. h2d_apply xs m = write_bytes m (ep_addr + offset) data)))"
  using assms
proof (induction "unat sz - unat offset" arbitrary: offset w rule: less_induct)
  case less
  show ?case
  proof (cases "offset < sz")
    case False
    with less.prems have "offset = sz" by simp
    then show ?thesis
      by (intro exI [of _ 0] exI [of _ w] exI [of _ "[]"]) (auto simp: send_buffer_end chunks_ok_def only_h2d_def)
  next
    case True
    define n where "n = min (sz - offset) AMBA_PCI_H2D_CHUNK_MAX"
    note s = send_chunk [OF True n_def]
    show ?thesis
    proof (cases "copy_from_user K (src + offset) (unat n)")
      case None
      from send_buffer_fault [OF True n_def None] show ?thesis
        by (intro exI [of _ "- EFAULT"] exI [of _ w] exI [of _ "[]"]) (auto simp: chunks_ok_def only_h2d_def)
    next
      case (Some bs)
      then have len: "length bs = unat n" by (rule copy_from_user_length)
      obtain r w1 where c: "kcall K (KC_h2d_xfer bus bs (ep_addr + offset)) w = (r, w1)" by (metis prod.exhaust)
      note f = kcallD [OF c]
      have sent: "h2d_sent w1 = h2d_sent w @ [(bus, bs, ep_addr + offset)]"
        using h2d_sent_frame(1) [of K "KC_h2d_xfer bus bs (ep_addr + offset)" w] c by simp
      have okc: "chunks_ok bus [(bus, bs, ep_addr + offset)]" using len s(1,2) by (auto simp: chunks_ok_def)
      have onlyc: "only_h2d [(KC_h2d_xfer bus bs (ep_addr + offset), r)]" by (simp add: only_h2d_def)
      show ?thesis
      proof (cases "r = 0")
        case False
        with send_buffer_step [OF True n_def Some c] sent okc onlyc f show ?thesis
          by (intro exI [of _ r] exI [of _ w1] exI [of _ "[(bus, bs, ep_addr + offset)]"]
              exI [of _ "[(KC_h2d_xfer bus bs (ep_addr + offset), r)]"]) simp
      next
        case r0: True
        have smaller: "unat sz - unat (offset + n) < unat sz - unat offset" using s by linarith
        have le: "offset + n \<le> sz" using s by (simp add: word_le_nat_alt)
        obtain r' w' xs cs where IH:
          "send_buffer_loop K bus src sz ep_addr (offset + n) w1 = Some (r', w')"
          "h2d_sent w' = h2d_sent w1 @ xs" "chunks_ok bus xs" "calls w' = calls w1 @ cs" "only_h2d cs" "iow w' = iow w1"
          "r' = 0 \<Longrightarrow> \<exists>data. copy_from_user K (src + (offset + n)) (unat sz - unat (offset + n)) = Some data \<and>
             (\<forall>m. h2d_apply xs m = write_bytes m (ep_addr + (offset + n)) data)"
          using less.hyps [OF smaller le, of w1] by blast
        have whole: "\<exists>data. copy_from_user K (src + offset) (unat sz - unat offset) = Some data \<and>
            (\<forall>m. h2d_apply ((bus, bs, ep_addr + offset) # xs) m = write_bytes m (ep_addr + offset) data)" if r': "r' = 0"
        proof -
          obtain data where d: "copy_from_user K (src + (offset + n)) (unat sz - unat (offset + n)) = Some data"
            "\<forall>m. h2d_apply xs m = write_bytes m (ep_addr + (offset + n)) data" using IH(7) [OF r'] by blast
          have split: "unat sz - unat offset = unat n + (unat sz - unat (offset + n))" using s by linarith
          have n64: "(of_nat (unat n) :: u64) = n" by simp
          have "copy_from_user K (src + offset) (unat sz - unat offset) = Some (bs @ data)"
            unfolding split copy_from_user_append Some n64 using d(1) by (simp add: add.assoc)
          moreover have "h2d_apply ((bus, bs, ep_addr + offset) # xs) m = write_bytes m (ep_addr + offset) (bs @ data)" for m
          proof -
            have at: "ep_addr + (offset + n) = ep_addr + offset + of_nat (length bs)" using len by (simp add: add.assoc)
            show ?thesis using d(2) unfolding at by (simp add: write_bytes_append)
          qed
          ultimately show ?thesis by blast
        qed
        have "send_buffer_loop K bus src sz ep_addr offset w = Some (r', w')"
          using send_buffer_step [OF True n_def Some c] IH(1) r0 by simp
        moreover have "h2d_sent w' = h2d_sent w @ ((bus, bs, ep_addr + offset) # xs)" using IH(2) sent by simp
        moreover have "chunks_ok bus ((bus, bs, ep_addr + offset) # xs)" using IH(3) okc by (simp add: chunks_ok_def)
        moreover have "calls w' = calls w @ ((KC_h2d_xfer bus bs (ep_addr + offset), r) # cs)" using IH(4) f by simp
        moreover have "only_h2d ((KC_h2d_xfer bus bs (ep_addr + offset), r) # cs)" using IH(5) onlyc by (simp add: only_h2d_def)
        moreover have "iow w' = iow w" using IH(6) f by simp
        ultimately show ?thesis using whole by blast
      qed
    qed
  qed
qed

subsection \<open>The file loop\<close>

text \<open>A regular file: reading at a position gives the bytes from there, fewer at the end.\<close>

definition regular_file :: "'d kernel \<Rightarrow> u8 list \<Rightarrow> bool" where
  "regular_file K file \<longleftrightarrow> (\<forall>d pos n. k_read K d pos n = Inr (slice pos n file))"

lemma send_file_step:
  "regular_file K file \<Longrightarrow> bs = slice pos 0x200000 file \<Longrightarrow> bs \<noteq> [] \<Longrightarrow>
   kcall K (KC_h2d_xfer bus bs ep_addr) w = (r, w1) \<Longrightarrow>
   send_file_loop K bus pos ep_addr w =
     (if r \<noteq> 0 then Some (r, w1) else send_file_loop K bus (pos + length bs) (ep_addr + of_nat (length bs)) w1)"
  by (subst send_file_loop.simps) (simp add: regular_file_def)

lemma send_file_end:
  "regular_file K file \<Longrightarrow> slice pos 0x200000 file = [] \<Longrightarrow> send_file_loop K bus pos ep_addr w = Some (0, w)"
  by (subst send_file_loop.simps) (simp add: regular_file_def)

lemma send_file_loop_result:
  assumes reg: "regular_file K file"
  shows "pos \<le> length file \<Longrightarrow> \<exists>r w' xs cs. send_file_loop K bus pos ep_addr w = Some (r, w') \<and>
    h2d_sent w' = h2d_sent w @ xs \<and> chunks_ok bus xs \<and> calls w' = calls w @ cs \<and> only_h2d cs \<and> iow w' = iow w \<and>
    (r = 0 \<longrightarrow> (\<forall>m. h2d_apply xs m = write_bytes m ep_addr (drop pos file)))"
proof (induction "length file - pos" arbitrary: pos ep_addr w rule: less_induct)
  case less
  define bs where "bs = slice pos 0x200000 file"
  show ?case
  proof (cases "bs = []")
    case True
    then have "drop pos file = []" by (auto simp: bs_def slice_def)
    with send_file_end [OF reg] True show ?thesis
      by (intro exI [of _ 0] exI [of _ w] exI [of _ "[]"]) (auto simp: bs_def chunks_ok_def only_h2d_def)
  next
    case ne: False
    have len: "length bs \<le> 0x200000" "0 < length bs" "pos + length bs \<le> length file"
      using ne less.prems by (auto simp: bs_def slice_def)
    have split: "drop pos file = bs @ drop (pos + length bs) file"
    proof -
      have "length bs = min 0x200000 (length file - pos)" by (simp add: bs_def slice_def min.commute)
      then have "bs = take (length bs) (drop pos file)"
        by (cases "0x200000 \<le> length file - pos") (simp_all add: bs_def slice_def)
      then show ?thesis by (metis append_take_drop_id drop_drop add.commute)
    qed
    obtain r w1 where c: "kcall K (KC_h2d_xfer bus bs ep_addr) w = (r, w1)" by (metis prod.exhaust)
    note f = kcallD [OF c]
    have sent: "h2d_sent w1 = h2d_sent w @ [(bus, bs, ep_addr)]"
      using h2d_sent_frame(1) [of K "KC_h2d_xfer bus bs ep_addr" w] c by simp
    have okc: "chunks_ok bus [(bus, bs, ep_addr)]" using len by (auto simp: chunks_ok_def)
    have onlyc: "only_h2d [(KC_h2d_xfer bus bs ep_addr, r)]" by (simp add: only_h2d_def)
    note step = send_file_step [OF reg bs_def ne c]
    show ?thesis
    proof (cases "r = 0")
      case False
      with step sent okc onlyc f show ?thesis
        by (intro exI [of _ r] exI [of _ w1] exI [of _ "[(bus, bs, ep_addr)]"]
            exI [of _ "[(KC_h2d_xfer bus bs ep_addr, r)]"]) simp
    next
      case True
      have smaller: "length file - (pos + length bs) < length file - pos" using len by linarith
      obtain r' w' xs cs where IH:
        "send_file_loop K bus (pos + length bs) (ep_addr + of_nat (length bs)) w1 = Some (r', w')"
        "h2d_sent w' = h2d_sent w1 @ xs" "chunks_ok bus xs" "calls w' = calls w1 @ cs" "only_h2d cs" "iow w' = iow w1"
        "r' = 0 \<longrightarrow> (\<forall>m. h2d_apply xs m = write_bytes m (ep_addr + of_nat (length bs)) (drop (pos + length bs) file))"
        using less.hyps [OF smaller len(3), of "ep_addr + of_nat (length bs)" w1] by blast
      have "send_file_loop K bus pos ep_addr w = Some (r', w')" using step IH(1) True by simp
      moreover have "h2d_sent w' = h2d_sent w @ ((bus, bs, ep_addr) # xs)" using IH(2) sent by simp
      moreover have "chunks_ok bus ((bus, bs, ep_addr) # xs)" using IH(3) okc by (simp add: chunks_ok_def)
      moreover have "calls w' = calls w @ ((KC_h2d_xfer bus bs ep_addr, r) # cs)" using IH(4) f by simp
      moreover have "only_h2d ((KC_h2d_xfer bus bs ep_addr, r) # cs)" using IH(5) onlyc by (simp add: only_h2d_def)
      moreover have "r' = 0 \<longrightarrow> (\<forall>m. h2d_apply ((bus, bs, ep_addr) # xs) m = write_bytes m ep_addr (drop pos file))"
        using IH(7) unfolding split by (simp add: write_bytes_append)
      moreover have "iow w' = iow w" using IH(6) f by simp
      ultimately show ?thesis by blast
    qed
  qed
qed

subsection \<open>What the ioctls hold while they run\<close>

datatype send_resource = Symbol | File | Buffer

fun send_wt :: "send_resource \<Rightarrow> kcall \<times> int \<Rightarrow> int" where
  "send_wt s (KC_symbol_get n, r) = (if s = Symbol \<and> r \<noteq> 0 then 1 else 0)"
| "send_wt s (KC_symbol_put n, r) = (if s = Symbol then - 1 else 0)"
| "send_wt s (KC_filp_open p, r) = (if s = File \<and> 0 \<le> r then 1 else 0)"
| "send_wt s (KC_filp_close, r) = (if s = File then - 1 else 0)"
| "send_wt s (KC_vmalloc n, r) = (if s = Buffer \<and> r \<noteq> 0 then 1 else 0)"
| "send_wt s (KC_vfree, r) = (if s = Buffer then - 1 else 0)"
| "send_wt s (c, r) = 0"

lemma balance_only_h2d: "calls w' = calls w @ cs \<Longrightarrow> only_h2d cs \<Longrightarrow> balance (send_wt s) w' = balance (send_wt s) w"
proof -
  assume cs: "calls w' = calls w @ cs" "only_h2d cs"
  have "send_wt s c = 0" if "c \<in> set cs" for c
    using cs(2) that unfolding only_h2d_def by (cases c) force
  then have "sum_list (map (send_wt s) (filter (\<lambda>(c, r). \<not> is_sleep c) cs)) = 0"
    by (induction cs) auto
  then show ?thesis using cs(1) by (simp add: balance_def rcalls_def)
qed

lemma h2d_target_result:
  assumes "h2d_target K g slot_id w = (res, w')"
  shows "h2d_sent w' = h2d_sent w" "iow w' = iow w" "balance (send_wt s) w' = balance (send_wt s) w"
    "res = Inl err \<Longrightarrow> err \<in> {- ENODEV, - EBUSY}"
    "res = Inr bus \<Longrightarrow> \<exists>pd. e_in_use (g_devs g ! unat slot_id) \<and> e_pdev (g_devs g ! unat slot_id) = Some pd \<and>
       e_state (g_devs g ! unat slot_id) = AMBA_PCI_STATE_CONNECTED \<and> bus = ucast (pd_bus pd)"
  using assms by (auto simp: h2d_target_def Let_def kframe split: if_splits option.splits)

text \<open>The paths through the two ioctls.\<close>

lemma send_buffer_paths:
  "\<exists>r w' xs. pcie_ioctl_h2d_send_buffer K argp g w = Some (r, w') \<and> h2d_sent w' = h2d_sent w @ xs \<and> iow w' = iow w \<and>
    (\<forall>s. balance (send_wt s) w' = balance (send_wt s) w) \<and>
    (r = 0 \<longrightarrow> (\<exists>bs req data pd. copy_from_user K argp (size_of h2d_send_buffer_layout) = Some bs \<and>
       req = h2d_send_buffer_of_bytes bs \<and> h2d_send_buffer_ok req \<and>
       (let e = g_devs g ! unat (sb_slot_id req) in e_in_use e \<and> e_pdev e = Some pd \<and> e_state e = AMBA_PCI_STATE_CONNECTED) \<and>
       chunks_ok (ucast (pd_bus pd)) xs \<and>
       copy_from_user K (sb_src_user_ptr req) (unat (sb_size req)) = Some data \<and>
       (\<forall>m. h2d_apply xs m = write_bytes m (sb_ep_addr req) data)))"
proof (cases "copy_from_user K argp (size_of h2d_send_buffer_layout)")
  case None
  then show ?thesis by (intro exI [of _ "- EFAULT"] exI [of _ w] exI [of _ "[]"]) (simp add: pcie_ioctl_h2d_send_buffer_def)
next
  case (Some bs)
  define req where "req = h2d_send_buffer_of_bytes bs"
  obtain tgt w1 where t: "h2d_target K g (sb_slot_id req) w = (tgt, w1)" by (metis prod.exhaust)
  note tr = h2d_target_result [OF t]
  obtain sym w2 where sy: "kcall K (KC_symbol_get pci_turbo_bus_xfer_h2d) w1 = (sym, w2)" by (metis prod.exhaust)
  obtain kb w3 where kb: "kcall K (KC_vmalloc 0x200000) w2 = (kb, w3)" by (metis prod.exhaust)
  have f2: "h2d_sent w2 = h2d_sent w1" "iow w2 = iow w1" "\<And>s. balance (send_wt s) w2 = balance (send_wt s) w1 + send_wt s (KC_symbol_get pci_turbo_bus_xfer_h2d, sym)"
    using h2d_sent_frame(1) [of K "KC_symbol_get pci_turbo_bus_xfer_h2d" w1] kcallD [OF sy]
      balance_frame(6) [of _ K "KC_symbol_get pci_turbo_bus_xfer_h2d" w1] sy by simp_all
  have f3: "h2d_sent w3 = h2d_sent w2" "iow w3 = iow w2" "\<And>s. balance (send_wt s) w3 = balance (send_wt s) w2 + send_wt s (KC_vmalloc 0x200000, kb)"
    using h2d_sent_frame(1) [of K "KC_vmalloc 0x200000" w2] kcallD [OF kb]
      balance_frame(6) [of _ K "KC_vmalloc 0x200000" w2] kb by simp_all
  consider (bad) "\<not> h2d_send_buffer_ok req" | (notgt) err where "h2d_send_buffer_ok req" "tgt = Inl err"
    | (nosym) bus where "h2d_send_buffer_ok req" "tgt = Inr bus" "sym = 0"
    | (nobuf) bus where "h2d_send_buffer_ok req" "tgt = Inr bus" "sym \<noteq> 0" "kb = 0"
    | (go) bus where "h2d_send_buffer_ok req" "tgt = Inr bus" "sym \<noteq> 0" "kb \<noteq> 0"
    by (cases tgt) blast+
  then show ?thesis
  proof cases
    case bad
    with Some show ?thesis
      by (intro exI [of _ "- EINVAL"] exI [of _ w] exI [of _ "[]"]) (simp add: pcie_ioctl_h2d_send_buffer_def req_def)
  next
    case notgt
    have "pcie_ioctl_h2d_send_buffer K argp g w = Some (err, w1)"
      using notgt Some t by (simp add: pcie_ioctl_h2d_send_buffer_def req_def [symmetric])
    with tr notgt show ?thesis by (intro exI [of _ err] exI [of _ w1] exI [of _ "[]"]) auto
  next
    case nosym
    have "pcie_ioctl_h2d_send_buffer K argp g w = Some (- ENODEV, w2)"
      using nosym Some t sy by (simp add: pcie_ioctl_h2d_send_buffer_def req_def [symmetric])
    with tr f2 nosym show ?thesis by (intro exI [of _ "- ENODEV"] exI [of _ w2] exI [of _ "[]"]) simp
  next
    case nobuf
    let ?w4 = "kdo K (KC_symbol_put pci_turbo_bus_xfer_h2d) w3"
    have "pcie_ioctl_h2d_send_buffer K argp g w = Some (- ENOMEM, ?w4)"
      using nobuf Some t sy kb by (simp add: pcie_ioctl_h2d_send_buffer_def req_def [symmetric])
    with tr f2 f3 nobuf show ?thesis
      by (intro exI [of _ "- ENOMEM"] exI [of _ ?w4] exI [of _ "[]"]) (simp add: kframe)
  next
    case go
    obtain r w4 xs cs where l: "send_buffer_loop K bus (sb_src_user_ptr req) (sb_size req) (sb_ep_addr req) 0 w3 = Some (r, w4)"
      "h2d_sent w4 = h2d_sent w3 @ xs" "chunks_ok bus xs" "calls w4 = calls w3 @ cs" "only_h2d cs" "iow w4 = iow w3"
      "r = 0 \<longrightarrow> (\<exists>data. copy_from_user K (sb_src_user_ptr req + 0) (unat (sb_size req) - unat (0 :: u64)) = Some data \<and>
       (\<forall>m. h2d_apply xs m = write_bytes m (sb_ep_addr req + 0) data))"
      using send_buffer_loop_result [of 0 "sb_size req" K bus "sb_src_user_ptr req" "sb_ep_addr req" w3] by auto
    let ?w5 = "kdo K (KC_symbol_put pci_turbo_bus_xfer_h2d) (kdo K KC_vfree w4)"
    have run: "pcie_ioctl_h2d_send_buffer K argp g w = Some (r, ?w5)"
      using go Some t sy kb l(1) by (simp add: pcie_ioctl_h2d_send_buffer_def req_def [symmetric])
    have bal: "balance (send_wt s) ?w5 = balance (send_wt s) w" for s
      using tr(3) f2(3) f3(3) go balance_only_h2d [OF l(4,5)] by (simp add: kframe)
    have data: "r = 0 \<longrightarrow> (\<exists>data. copy_from_user K (sb_src_user_ptr req) (unat (sb_size req)) = Some data \<and>
       (\<forall>m. h2d_apply xs m = write_bytes m (sb_ep_addr req) data))" using l(7) by simp
    have sent: "h2d_sent ?w5 = h2d_sent w @ xs" "iow ?w5 = iow w"
      using l(2,6) f2 f3 tr by (simp_all add: kframe)
    obtain pd where pd: "e_in_use (g_devs g ! unat (sb_slot_id req))" "e_pdev (g_devs g ! unat (sb_slot_id req)) = Some pd"
      "e_state (g_devs g ! unat (sb_slot_id req)) = AMBA_PCI_STATE_CONNECTED" "bus = ucast (pd_bus pd)"
      using tr(5) [OF go(2)] by blast
    have chunks: "chunks_ok (ucast (pd_bus pd)) xs" using l(3) pd(4) by simp
    show ?thesis
      using run sent bal data pd(1-3) chunks go(1) Some req_def
      by (intro exI [of _ r] exI [of _ ?w5] exI [of _ xs] conjI allI impI) (auto simp: Let_def)
  qed
qed

lemma send_file_paths:
  assumes reg: "regular_file K content"
  shows "\<exists>r w' xs. pcie_ioctl_h2d_send_file K argp g w = Some (r, w') \<and> h2d_sent w' = h2d_sent w @ xs \<and> iow w' = iow w \<and>
    (\<forall>s. balance (send_wt s) w' = balance (send_wt s) w) \<and>
    (r = 0 \<longrightarrow> (\<exists>bs req pd. copy_from_user K argp (size_of h2d_send_file_layout) = Some bs \<and>
       req = h2d_send_file_of_bytes bs \<and> unat (sf_slot_id req) < AMBA_PCI_DEV_MAX \<and> sf_ep_addr req \<noteq> 0 \<and>
       (let e = g_devs g ! unat (sf_slot_id req) in e_in_use e \<and> e_pdev e = Some pd \<and> e_state e = AMBA_PCI_STATE_CONNECTED) \<and>
       chunks_ok (ucast (pd_bus pd)) xs \<and> (\<forall>m. h2d_apply xs m = write_bytes m (sf_ep_addr req) content)))"
proof (cases "copy_from_user K argp (size_of h2d_send_file_layout)")
  case None
  then show ?thesis by (intro exI [of _ "- EFAULT"] exI [of _ w] exI [of _ "[]"]) (simp add: pcie_ioctl_h2d_send_file_def)
next
  case (Some bs)
  define req where "req = h2d_send_file_of_bytes bs"
  define path where "path = (sf_path req)[255 := 0]"
  define bad_req where "bad_req \<longleftrightarrow> sf_slot_id req \<ge> of_nat AMBA_PCI_DEV_MAX \<or> path ! 0 = 0 \<or> sf_ep_addr req = 0"
  obtain tgt w1 where t: "h2d_target K g (sf_slot_id req) w = (tgt, w1)" by (metis prod.exhaust)
  note tr = h2d_target_result [OF t]
  let ?sy = "KC_symbol_get pci_turbo_bus_xfer_h2d" and ?fo = "KC_filp_open (cstr path)" and ?vm = "KC_vmalloc 0x200000"
  obtain sym w2 where sy: "kcall K ?sy w1 = (sym, w2)" by (metis prod.exhaust)
  obtain fp w3 where fo: "kcall K ?fo w2 = (fp, w3)" by (metis prod.exhaust)
  obtain kb w4 where kb: "kcall K ?vm w3 = (kb, w4)" by (metis prod.exhaust)
  have f: "h2d_sent w' = h2d_sent v" "iow w' = iow v" "balance (send_wt s) w' = balance (send_wt s) v + send_wt s (c, x)"
    if "kcall K c v = (x, w')" "c \<in> {?sy, ?fo, ?vm}" for c x v w' s
    using h2d_sent_frame(1) [of K c v] kcallD [OF that(1)] balance_frame(6) [of "send_wt s" K c v] that by auto
  note f2 = f [OF sy] and f3 = f [OF fo] and f4 = f [OF kb]
  have path0: "path ! 0 = sf_path req ! 0" by (simp add: path_def)
  have def_run: "pcie_ioctl_h2d_send_file K argp g w =
     (if bad_req then Some (- EINVAL, w)
      else case (tgt, w1) of (Inl err, w1) \<Rightarrow> Some (err, w1)
      | (Inr bus, w1) \<Rightarrow>
          if sym = 0 then Some (- ENODEV, w2)
          else if fp < 0 then Some (fp, kdo K (KC_symbol_put pci_turbo_bus_xfer_h2d) w3)
          else if kb = 0 then Some (- ENOMEM, kdo K (KC_symbol_put pci_turbo_bus_xfer_h2d) (kdo K KC_filp_close w4))
          else do { (ret, w5) \<leftarrow> send_file_loop K bus 0 (sf_ep_addr req) w4;
                    Some (ret, kdo K (KC_symbol_put pci_turbo_bus_xfer_h2d) (kdo K KC_filp_close (kdo K KC_vfree w5))) })"
    using Some t sy fo kb
    by (cases tgt) (simp_all add: pcie_ioctl_h2d_send_file_def req_def [symmetric] path_def [symmetric] bad_req_def path0 Let_def)
  consider (bad) "bad_req" | (notgt) err where "\<not> bad_req" "tgt = Inl err"
    | (nosym) bus where "\<not> bad_req" "tgt = Inr bus" "sym = 0"
    | (nofile) bus where "\<not> bad_req" "tgt = Inr bus" "sym \<noteq> 0" "fp < 0"
    | (nobuf) bus where "\<not> bad_req" "tgt = Inr bus" "sym \<noteq> 0" "\<not> fp < 0" "kb = 0"
    | (go) bus where "\<not> bad_req" "tgt = Inr bus" "sym \<noteq> 0" "\<not> fp < 0" "kb \<noteq> 0"
    by (cases tgt) blast+
  then show ?thesis
  proof cases
    case bad
    then have "pcie_ioctl_h2d_send_file K argp g w = Some (- EINVAL, w)" unfolding def_run by simp
    then show ?thesis by (intro exI [of _ "- EINVAL"] exI [of _ w] exI [of _ "[]"]) simp
  next
    case notgt
    then have "pcie_ioctl_h2d_send_file K argp g w = Some (err, w1)" unfolding def_run by simp
    with tr notgt show ?thesis by (intro exI [of _ err] exI [of _ w1] exI [of _ "[]"]) auto
  next
    case nosym
    then have "pcie_ioctl_h2d_send_file K argp g w = Some (- ENODEV, w2)" unfolding def_run by simp
    with tr f2 nosym show ?thesis by (intro exI [of _ "- ENODEV"] exI [of _ w2] exI [of _ "[]"]) simp
  next
    case nofile
    let ?w' = "kdo K (KC_symbol_put pci_turbo_bus_xfer_h2d) w3"
    have "pcie_ioctl_h2d_send_file K argp g w = Some (fp, ?w')" using nofile unfolding def_run by simp
    with tr f2 f3 nofile show ?thesis by (intro exI [of _ fp] exI [of _ ?w'] exI [of _ "[]"]) (simp add: kframe)
  next
    case nobuf
    let ?w' = "kdo K (KC_symbol_put pci_turbo_bus_xfer_h2d) (kdo K KC_filp_close w4)"
    have "pcie_ioctl_h2d_send_file K argp g w = Some (- ENOMEM, ?w')" using nobuf unfolding def_run by simp
    with tr f2 f3 f4 nobuf show ?thesis
      by (intro exI [of _ "- ENOMEM"] exI [of _ ?w'] exI [of _ "[]"]) (simp add: kframe)
  next
    case go
    obtain r w5 xs cs where l: "send_file_loop K bus 0 (sf_ep_addr req) w4 = Some (r, w5)"
      "h2d_sent w5 = h2d_sent w4 @ xs" "chunks_ok bus xs" "calls w5 = calls w4 @ cs" "only_h2d cs" "iow w5 = iow w4"
      "r = 0 \<longrightarrow> (\<forall>m. h2d_apply xs m = write_bytes m (sf_ep_addr req) (drop 0 content))"
      using send_file_loop_result [OF reg, of 0 bus "sf_ep_addr req" w4] by auto
    let ?w' = "kdo K (KC_symbol_put pci_turbo_bus_xfer_h2d) (kdo K KC_filp_close (kdo K KC_vfree w5))"
    have run: "pcie_ioctl_h2d_send_file K argp g w = Some (r, ?w')"
      using go l(1) unfolding def_run by simp
    have bal: "balance (send_wt s) ?w' = balance (send_wt s) w" for s
      using tr(3) f2(3) f3(3) f4(3) go balance_only_h2d [OF l(4,5)] by (simp add: kframe)
    have sent: "h2d_sent ?w' = h2d_sent w @ xs" "iow ?w' = iow w"
      using l(2,6) f2 f3 f4 tr by (simp_all add: kframe)
    obtain pd where pd: "e_in_use (g_devs g ! unat (sf_slot_id req))" "e_pdev (g_devs g ! unat (sf_slot_id req)) = Some pd"
      "e_state (g_devs g ! unat (sf_slot_id req)) = AMBA_PCI_STATE_CONNECTED" "bus = ucast (pd_bus pd)"
      using tr(5) [OF go(2)] by blast
    have ok: "unat (sf_slot_id req) < AMBA_PCI_DEV_MAX" "sf_ep_addr req \<noteq> 0"
      using go(1) by (simp_all add: bad_req_def not_le word_less_nat_alt)
    have chunks: "chunks_ok (ucast (pd_bus pd)) xs" using l(3) pd(4) by simp
    show ?thesis
      using run sent bal l(7) pd(1-3) chunks ok Some req_def
      by (intro exI [of _ r] exI [of _ ?w'] exI [of _ xs] conjI allI impI) (auto simp: Let_def)
  qed
qed

subsection \<open>The send ioctls\<close>

text \<open>C33: Sending a buffer always returns, with its symbol and its bounce buffer given back, and without
  touching the boot BAR. If it returns 0, the slot holds a connected card, and the chunks handed over
  for its bus, none empty and none above 2 MiB, store exactly the bytes of the user's buffer at the
  requested address; neither range wraps around the address space.\<close>

theorem send_buffer_delivers:
  "\<exists>r w' xs. pcie_ioctl_h2d_send_buffer K argp g w = Some (r, w') \<and> h2d_sent w' = h2d_sent w @ xs \<and> iow w' = iow w \<and>
    (\<forall>s. balance (send_wt s) w' = balance (send_wt s) w) \<and>
    (r = 0 \<longrightarrow> (\<exists>req data pd.
       (let e = g_devs g ! unat (sb_slot_id req) in e_in_use e \<and> e_pdev e = Some pd \<and> e_state e = AMBA_PCI_STATE_CONNECTED) \<and>
       map_option h2d_send_buffer_of_bytes (copy_from_user K argp (size_of h2d_send_buffer_layout)) = Some req \<and>
       unat (sb_src_user_ptr req) + length data < 2 ^ 64 \<and> unat (sb_ep_addr req) + length data < 2 ^ 64 \<and>
       copy_from_user K (sb_src_user_ptr req) (unat (sb_size req)) = Some data \<and>
       chunks_ok (ucast (pd_bus pd)) xs \<and> (\<forall>m. h2d_apply xs m = write_bytes m (sb_ep_addr req) data)))"
proof -
  obtain r w' xs where p: "pcie_ioctl_h2d_send_buffer K argp g w = Some (r, w')" "h2d_sent w' = h2d_sent w @ xs" "iow w' = iow w"
    "\<forall>s. balance (send_wt s) w' = balance (send_wt s) w"
    "r = 0 \<longrightarrow> (\<exists>bs req data pd. copy_from_user K argp (size_of h2d_send_buffer_layout) = Some bs \<and>
       req = h2d_send_buffer_of_bytes bs \<and> h2d_send_buffer_ok req \<and>
       (let e = g_devs g ! unat (sb_slot_id req) in e_in_use e \<and> e_pdev e = Some pd \<and> e_state e = AMBA_PCI_STATE_CONNECTED) \<and>
       chunks_ok (ucast (pd_bus pd)) xs \<and>
       copy_from_user K (sb_src_user_ptr req) (unat (sb_size req)) = Some data \<and>
       (\<forall>m. h2d_apply xs m = write_bytes m (sb_ep_addr req) data))"
    using send_buffer_paths [of K argp g w] by blast
  have no_wrap: "unat a + unat n < 2 ^ 64" if "\<not> a > - 1 - n" for a n :: u64
  proof -
    have "unat (- 1 - n) = 2 ^ 64 - 1 - unat n"
      by (subst unat_sub) (simp_all add: unsigned_minus_1_eq_mask mask_eq_exp_minus_1)
    with that unat_u64_less [of n] show ?thesis by (simp add: not_less word_le_nat_alt)
  qed
  show ?thesis
  proof (cases "r = 0")
    case False
    with p show ?thesis by blast
  next
    case True
    then obtain bs req data pd where q: "copy_from_user K argp (size_of h2d_send_buffer_layout) = Some bs"
       "req = h2d_send_buffer_of_bytes bs" "h2d_send_buffer_ok req"
       "let e = g_devs g ! unat (sb_slot_id req) in e_in_use e \<and> e_pdev e = Some pd \<and> e_state e = AMBA_PCI_STATE_CONNECTED"
       "chunks_ok (ucast (pd_bus pd)) xs" "copy_from_user K (sb_src_user_ptr req) (unat (sb_size req)) = Some data"
       "\<forall>m. h2d_apply xs m = write_bytes m (sb_ep_addr req) data"
      using p(5) by blast
    have "length data = unat (sb_size req)" using q(6) by (rule copy_from_user_length)
    with no_wrap q(3) have "unat (sb_src_user_ptr req) + length data < 2 ^ 64" "unat (sb_ep_addr req) + length data < 2 ^ 64"
      unfolding h2d_send_buffer_ok_def by auto
    with p q show ?thesis by (metis option.simps(9))
  qed
qed

text \<open>C34: Sending a regular file always returns, with its symbol, its file and its bounce buffer given back, and
  without touching the boot BAR. If it returns 0, the slot holds a connected card, and the chunks
  handed over store exactly the contents of the file from the requested address on. Unlike for a
  buffer nothing keeps the addresses from running past the end of the address space and on at 0,
  as they do in the run below.\<close>

theorem send_file_delivers:
  assumes "regular_file K content"
  shows "\<exists>r w' xs. pcie_ioctl_h2d_send_file K argp g w = Some (r, w') \<and> h2d_sent w' = h2d_sent w @ xs \<and> iow w' = iow w \<and>
    (\<forall>s. balance (send_wt s) w' = balance (send_wt s) w) \<and>
    (r = 0 \<longrightarrow> (\<exists>bs req pd. copy_from_user K argp (size_of h2d_send_file_layout) = Some bs \<and>
       req = h2d_send_file_of_bytes bs \<and> unat (sf_slot_id req) < AMBA_PCI_DEV_MAX \<and> sf_ep_addr req \<noteq> 0 \<and>
       (let e = g_devs g ! unat (sf_slot_id req) in e_in_use e \<and> e_pdev e = Some pd \<and> e_state e = AMBA_PCI_STATE_CONNECTED) \<and>
       chunks_ok (ucast (pd_bus pd)) xs \<and> (\<forall>m. h2d_apply xs m = write_bytes m (sf_ep_addr req) content)))"
  using assms by (rule send_file_paths)

subsection \<open>Concrete sends\<close>

definition send_req :: amba_pci_h2d_send_buffer where
  "send_req = \<lparr>sb_slot_id = 0, sb_reserved = 0, sb_src_user_ptr = 0x1000, sb_size = 32, sb_ep_addr = 0x80000000\<rparr>"

definition file_req :: amba_pci_h2d_send_file where
  "file_req = \<lparr>sf_slot_id = 0, sf_reserved = 0, sf_ep_addr = 0xfffffffffffffffc, sf_path = 0x61 # replicate 255 0\<rparr>"

definition send_kernel :: "u8 list \<Rightarrow> nat kernel" where
  "send_kernel mem = demo_kernel\<lparr>k_user := user_memory 0x1000 mem, k_read := \<lambda>d pos n. Inr (slice pos n [1, 2, 3, 4, 5, 6, 7, 8])\<rparr>"

lemma send_kernel_fields [simp]:
  "k_call (send_kernel mem) = demo_call" "k_user (send_kernel mem) = user_memory 0x1000 mem"
  "k_read (send_kernel mem) d pos n = Inr (slice pos n [1, 2, 3, 4, 5, 6, 7, 8])"
  by (simp_all add: send_kernel_def)

lemma send_kernel_call: "fst (kcall (send_kernel mem) c w) = fst (demo_call c (w_out w))"
  by (simp add: kcall_def Let_def case_prod_beta)

lemma connected_target:
  "h2d_target K connected_platform 0 w = (Inr 1, kdo K KC_mutex_unlock (kdo K KC_mutex_lock w))"
  by (simp add: h2d_target_def connected_platform_entry)
    (simp add: connected_entry_def demo_entry_def zero_entry_def demo_pci_dev_def Let_def)

lemma demo_sent: "h2d_sent demo_world = []"
  by (simp add: h2d_sent_def calls_def demo_world_def)

theorem send_buffer_delivers_witness:
  "\<exists>w' xs. pcie_ioctl_h2d_send_buffer (send_kernel (h2d_buffer_bytes send_req)) 0x1000 connected_platform demo_world = Some (0, w') \<and>
     h2d_sent w' = xs \<and> (\<forall>m. h2d_apply xs m = write_bytes m 0x80000000 (h2d_buffer_bytes send_req))"
proof -
  let ?K = "send_kernel (h2d_buffer_bytes send_req)"
  have len: "length (h2d_buffer_bytes send_req) = 32" by (simp add: lengths_of_requests)
  have req: "h2d_send_buffer_of_bytes (h2d_buffer_bytes send_req) = send_req" by (rule h2d_buffer_round_trip)
  have copy: "copy_from_user ?K (0x1000 + of_nat 0) 32 = Some (slice 0 32 (h2d_buffer_bytes send_req))"
    by (rule copy_from_user_memory) (simp_all add: len)
  then have copy32: "copy_from_user ?K 0x1000 32 = Some (h2d_buffer_bytes send_req)" by (simp add: slice_all len)
  have fields: "sb_slot_id send_req = 0" "sb_src_user_ptr send_req = 0x1000" "sb_size send_req = 32" "sb_ep_addr send_req = 0x80000000"
    by (simp_all add: send_req_def)
  have ok: "h2d_send_buffer_ok send_req" by (simp add: h2d_send_buffer_ok_def send_req_def)
  have loop: "\<exists>w'. send_buffer_loop ?K 1 0x1000 32 0x80000000 0 w = Some (0, w')" for w
  proof -
    obtain r w1 where c: "kcall ?K (KC_h2d_xfer 1 (h2d_buffer_bytes send_req) (0x80000000 + 0)) w = (r, w1)" by (metis prod.exhaust)
    then have "r = 0" using send_kernel_call [of "h2d_buffer_bytes send_req" "KC_h2d_xfer 1 (h2d_buffer_bytes send_req) (0x80000000 + 0)" w] by simp
    have "(0 :: u64) < 32" "(32 :: u64) = min (32 - 0) AMBA_PCI_H2D_CHUNK_MAX" by simp_all
    from send_buffer_step [OF this _ c] copy32 \<open>r = 0\<close> show ?thesis by (simp add: send_buffer_end)
  qed
  have "\<exists>w'. pcie_ioctl_h2d_send_buffer ?K 0x1000 connected_platform demo_world = Some (0, w')"
  proof -
    define w1 where "w1 = kdo ?K KC_mutex_unlock (kdo ?K KC_mutex_lock demo_world)"
    obtain sym w2 where sy: "kcall ?K (KC_symbol_get pci_turbo_bus_xfer_h2d) w1 = (sym, w2)" by (metis prod.exhaust)
    obtain kb w3 where kb: "kcall ?K (KC_vmalloc 0x200000) w2 = (kb, w3)" by (metis prod.exhaust)
    have nz: "sym = 1" "kb = 1"
      using sy kb send_kernel_call [of "h2d_buffer_bytes send_req" "KC_symbol_get pci_turbo_bus_xfer_h2d" w1] send_kernel_call [of "h2d_buffer_bytes send_req" "KC_vmalloc 0x200000" w2]
      by simp_all
    obtain w4 where l: "send_buffer_loop ?K 1 0x1000 32 0x80000000 0 w3 = Some (0, w4)" using loop by blast
    show ?thesis
      using sy kb nz l fields
      by (simp add: pcie_ioctl_h2d_send_buffer_def size_of_abi copy32 req ok connected_target w1_def [symmetric])
  qed
  with send_buffer_delivers [of ?K "0x1000" connected_platform demo_world]
  show ?thesis by (auto simp: size_of_abi copy32 req fields demo_sent)
qed

text \<open>A file of eight bytes sent to the last four addresses.\<close>

theorem send_file_delivers_witness:
  "\<exists>w' xs. pcie_ioctl_h2d_send_file (send_kernel (h2d_file_bytes file_req)) 0x1000 connected_platform demo_world = Some (0, w') \<and>
     h2d_sent w' = xs \<and> (\<forall>m. h2d_apply xs m 0 = 5)"
proof -
  let ?K = "send_kernel (h2d_file_bytes file_req)"
  have path: "length (sf_path file_req) = AMBA_PCI_PATH_MAX" by (simp add: file_req_def)
  have len: "length (h2d_file_bytes file_req) = 272" using path by (simp add: lengths_of_requests)
  have req: "h2d_send_file_of_bytes (h2d_file_bytes file_req) = file_req" by (rule h2d_file_round_trip [OF path])
  have copy: "copy_from_user ?K (0x1000 + of_nat 0) 272 = Some (slice 0 272 (h2d_file_bytes file_req))"
    by (rule copy_from_user_memory) (simp_all add: len)
  then have copy272: "copy_from_user ?K 0x1000 272 = Some (h2d_file_bytes file_req)" by (simp add: slice_all len)
  have reg: "regular_file ?K [1, 2, 3, 4, 5, 6, 7, 8]" by (simp add: regular_file_def)
  have fields: "sf_slot_id file_req = 0" "sf_ep_addr file_req = 0xfffffffffffffffc" "sf_path file_req ! 0 \<noteq> 0"
    by (simp_all add: file_req_def)
  have loop: "\<exists>w'. send_file_loop ?K 1 0 0xfffffffffffffffc w = Some (0, w')" for w
  proof -
    let ?c = "KC_h2d_xfer 1 [1, 2, 3, 4, 5, 6, 7, 8] 0xfffffffffffffffc"
    obtain r w1 where c: "kcall ?K ?c w = (r, w1)" by (metis prod.exhaust)
    then have "r = 0" using send_kernel_call [of "h2d_file_bytes file_req" ?c w] by simp
    have bs: "[1, 2, 3, 4, 5, 6, 7, 8] = slice 0 0x200000 [1, 2, 3, 4, 5, 6, 7, 8 :: u8]" by (simp add: slice_def)
    have fin: "slice (0 + length [1, 2, 3, 4, 5, 6, 7, 8 :: u8]) 0x200000 [1, 2, 3, 4, 5, 6, 7, 8 :: u8] = []"
      by (simp add: slice_def)
    have "send_file_loop ?K 1 0 0xfffffffffffffffc w = Some (0, w1)"
      unfolding send_file_step [OF reg bs list.simps(3) c] send_file_end [OF reg fin] using \<open>r = 0\<close> by simp
    then show ?thesis ..
  qed
  have "\<exists>w'. pcie_ioctl_h2d_send_file ?K 0x1000 connected_platform demo_world = Some (0, w')"
  proof -
    define w1 where "w1 = kdo ?K KC_mutex_unlock (kdo ?K KC_mutex_lock demo_world)"
    let ?open = "KC_filp_open (cstr ((sf_path file_req)[255 := 0]))"
    obtain sym w2 where sy: "kcall ?K (KC_symbol_get pci_turbo_bus_xfer_h2d) w1 = (sym, w2)" by (metis prod.exhaust)
    obtain fp w3 where fo: "kcall ?K ?open w2 = (fp, w3)" by (metis prod.exhaust)
    obtain kb w4 where kb: "kcall ?K (KC_vmalloc 0x200000) w3 = (kb, w4)" by (metis prod.exhaust)
    note call = send_kernel_call [of "h2d_file_bytes file_req"]
    have nz: "sym = 1" "fp = 1" "kb = 1"
      using sy fo kb call [of "KC_symbol_get pci_turbo_bus_xfer_h2d" w1] call [of ?open w2] call [of "KC_vmalloc 0x200000" w3]
      by simp_all
    obtain w5 where l: "send_file_loop ?K 1 0 0xfffffffffffffffc w4 = Some (0, w5)" using loop by blast
    show ?thesis
      using sy fo kb nz l fields
      by (simp add: pcie_ioctl_h2d_send_file_def size_of_abi copy272 req connected_target w1_def [symmetric])
  qed
  moreover have "write_bytes m 0xfffffffffffffffc [1, 2, 3, 4, 5, 6, 7, 8 :: u8] 0 = 5" for m by simp
  ultimately show ?thesis
    using send_file_delivers [OF reg, of "0x1000" connected_platform demo_world]
    by (auto simp: size_of_abi copy272 req fields demo_sent)
qed

end
