(* ===== verification/File_Ops.thy ===== *)
theory File_Ops
  imports Proc_Ops Ioctl_Ops
begin

section \<open>The operation tables of the driver's files\<close>

text \<open>
  \<open>amba_pci_platform_main.c\<close>, lines 171 to 175, 502 to 507 and 803 to 866: which handler the kernel
  calls for which file. An operation the table does not have is \<open>None\<close>. The texts of the buzz
  module are arguments, as in \<open>Proc_Ops\<close>.
\<close>

definition pcie_file_open :: "'d kernel \<Rightarrow> 'd world \<Rightarrow> int \<times> 'd world" where
  "pcie_file_open K w = kcall K KC_stream_open w"

text \<open>The control device: \<open>noop_llseek\<close> of the kernel library returns the file position unchanged.\<close>

definition noop_llseek :: "int \<Rightarrow> int \<Rightarrow> nat \<Rightarrow> int" where
  "noop_llseek f_pos off whence = f_pos"

record 'd file_operations =
  fo_open :: "'d kernel \<Rightarrow> 'd world \<Rightarrow> int \<times> 'd world"
  fo_unlocked_ioctl :: "'d kernel \<Rightarrow> (u32 \<Rightarrow> u32) \<Rightarrow> 'd remove_fn \<Rightarrow> u32 \<Rightarrow> u64 \<Rightarrow> amba_pci_platform \<Rightarrow> 'd world \<Rightarrow>
     ((outcome \<times> amba_pci_platform) \<times> 'd world) option"
  fo_llseek :: "int \<Rightarrow> int \<Rightarrow> nat \<Rightarrow> int"

definition pcie_fops :: "'d file_operations" where
  "pcie_fops = \<lparr>fo_open = pcie_file_open, fo_unlocked_ioctl = pcie_file_ioctl, fo_llseek = noop_llseek\<rparr>"

text \<open>The proc files.\<close>

datatype proc_ops = Status_Ops | Dev_Info_Ops | Net_Ops | Dev_Log_Ops | Reboot_Ops

text \<open>Name, access mode and operations of the files that \<open>pcie_create_proc_nodes\<close> makes.\<close>

definition proc_nodes :: "(string \<times> u16 \<times> proc_ops) list" where
  "proc_nodes = [(''status'', 0x124, Status_Ops), (''dev_info'', 0x124, Dev_Info_Ops), (''net'', 0x124, Net_Ops),
     (''dev_log'', 0x124, Dev_Log_Ops), (''reboot'', 0x90, Reboot_Ops)]"

fun proc_read ::
  "proc_ops \<Rightarrow> 'd kernel \<Rightarrow> (u32 \<Rightarrow> 'd world \<Rightarrow> u8 list) \<Rightarrow> (u32 \<Rightarrow> nat \<Rightarrow> 'd world \<Rightarrow> u8 list) \<Rightarrow> nat \<Rightarrow>
     (u64 \<Rightarrow> nat \<Rightarrow> int \<Rightarrow> amba_pci_platform \<Rightarrow> 'd world \<Rightarrow> (int \<times> int \<times> amba_pci_platform) \<times> 'd world) option" where
  "proc_read Status_Ops K net_text log_text i = Some (pcie_proc_status_read K i)"
| "proc_read Dev_Info_Ops K net_text log_text i = Some (pcie_proc_dev_info_read K i)"
| "proc_read Net_Ops K net_text log_text i = Some (pcie_proc_net_read K net_text i)"
| "proc_read Dev_Log_Ops K net_text log_text i =
     Some (\<lambda>buf n pos g w. let ((ret, pos1), w1) = pcie_proc_dev_log_read K log_text i buf n pos g w in ((ret, pos1, g), w1))"
| "proc_read Reboot_Ops K net_text log_text i = None"

fun proc_write ::
  "proc_ops \<Rightarrow> 'd kernel \<Rightarrow> 'd remove_fn \<Rightarrow> nat \<Rightarrow>
     (u64 \<Rightarrow> nat \<Rightarrow> int \<Rightarrow> amba_pci_platform \<Rightarrow> 'd world \<Rightarrow> (int \<times> int \<times> amba_pci_platform) \<times> 'd world) option" where
  "proc_write Status_Ops K rm i = None"
| "proc_write Dev_Info_Ops K rm i = None"
| "proc_write Net_Ops K rm i = None"
| "proc_write Dev_Log_Ops K rm i = None"
| "proc_write Reboot_Ops K rm i = Some (pcie_proc_reboot_write K rm i)"

lemma proc_nodes_names: "map fst proc_nodes = proc_node_names"
  by (simp add: proc_nodes_def proc_node_names_def)

lemma proc_nodes_modes:
  "(n, m, ops) \<in> set proc_nodes \<Longrightarrow>
     (m AND 0x124 \<noteq> 0 \<longleftrightarrow> proc_read ops K net_text log_text i \<noteq> None) \<and> (m AND 0x92 \<noteq> 0 \<longleftrightarrow> proc_write ops K rm i \<noteq> None)"
  by (auto simp: proc_nodes_def)

end
