(* ===== verification/Quiet_Calls.thy ===== *)
theory Quiet_Calls
  imports Fw_Xfer H2d_Correct Query_Correct
begin

section \<open>Operations that take and return nothing\<close>

text \<open>
  Talking to the endpoint and sending over the turbo bus are long loops of register accesses and of a
  few kinds of calls. Whatever each of these keeps, the whole operation keeps: the locales
  \<open>ring_closed\<close> and \<open>send_closed\<close> prove that once for any predicate of the world. They are interpreted
  here for the calls that no ledger of a slot or of the module weighs, and later for the mutex.
\<close>

subsection \<open>What the ring transfer keeps\<close>

text \<open>Between allocating its buffer and freeing it a transfer only sleeps.\<close>

fun buffer_call :: "kcall \<Rightarrow> bool" where
  "buffer_call (KC_kmalloc n) = True"
| "buffer_call KC_kfree = True"
| "buffer_call c = False"

definition ring_call :: "kcall \<Rightarrow> bool" where
  "ring_call c \<longleftrightarrow> is_sleep c \<or> buffer_call c"

lemma ring_call_simps [simp]:
  "ring_call (KC_usleep_range lo hi)" "ring_call KC_cond_resched" "ring_call (KC_kmalloc n)" "ring_call KC_kfree"
  by (simp_all add: ring_call_def)

text \<open>A predicate that register accesses and the calls of a transfer keep is kept by the transfer.\<close>

locale ring_closed = call_closed K P ring_call for K :: "'d kernel" and P :: "'d world \<Rightarrow> bool" +
  assumes reads: "P w \<Longrightarrow> P (snd (readl K a w))"
    and writes: "P w \<Longrightarrow> P (writel K v a w)"
    and copies: "P w \<Longrightarrow> P (memcpy_toio K a bs w)"
begin

lemma r32: "P w \<Longrightarrow> P (snd (pcie_ring_r32 K base off w))"
  by (simp add: pcie_ring_r32_def reads)

lemma w32: "P w \<Longrightarrow> P (pcie_ring_w32 K base off v w)"
  by (simp add: pcie_ring_w32_def writes)

lemma poll_read: "P w \<Longrightarrow> P (snd (xfer_poll_read K base w))"
  by (simp add: xfer_poll_read_def Let_def case_prod_beta r32)

lemma pause: "P w \<Longrightarrow> P (kdo K KC_cond_resched (kdo K (KC_usleep_range lo hi) w))"
  by (simp add: call_do)

lemma wait_u32_loop_keeps:
  assumes "wait_u32_loop K base off want equal deadline w = Some res" "P w"
  shows "P (snd res)"
proof -
  let ?Q = "\<lambda>K' base off want equal deadline w res. K' = K \<longrightarrow> P w \<longrightarrow> P (snd res)"
  have "?Q K base off want equal deadline w res"
  proof (rule wait_u32_loop.raw_induct [OF _ assms(1), where P = ?Q], intro impI)
    fix f K' base off want equal deadline and w :: "'d world" and res
    assume IH: "\<And>K' base off want equal deadline w y.
        f K' base off want equal deadline w = Some y \<Longrightarrow> ?Q K' base off want equal deadline w y"
      and K: "K' = K" and w: "P w"
      and eq: "(if time_before (jiffies K' w) deadline then
          (let val = fst (pcie_ring_r32 K' base off w); w1 = snd (pcie_ring_r32 K' base off w) in
           if wait_done want equal val then Some (0, w1)
           else f K' base off want equal deadline
                  (kdo K' KC_cond_resched (kdo K' (KC_usleep_range 1000 2000) w1)))
        else Some (- ETIMEDOUT, w)) = Some res"
    from eq show "P (snd res)"
      unfolding K by (auto simp: Let_def w r32 pause split: if_splits dest!: IH)
  qed
  then show ?thesis using assms(2) by simp
qed

lemma wait_u32: "pcie_ring_wait_u32 K base off want equal ms w = Some (r, w') \<Longrightarrow> P w \<Longrightarrow> P w'"
  unfolding pcie_ring_wait_u32_def using wait_u32_loop_keeps by fastforce

lemma xfer_poll_loop_keeps:
  assumes "xfer_poll_loop K base deadline w = Some res" "P w"
  shows "P (snd res)"
proof -
  let ?Q = "\<lambda>K' base deadline w res. K' = K \<longrightarrow> P w \<longrightarrow> P (snd res)"
  have "?Q K base deadline w res"
  proof (rule xfer_poll_loop.raw_induct [OF _ assms(1), where P = ?Q], intro impI)
    fix f K' base deadline and w :: "'d world" and res
    assume IH: "\<And>K' base deadline w y. f K' base deadline w = Some y \<Longrightarrow> ?Q K' base deadline w y"
      and K: "K' = K" and w: "P w"
      and eq: "(if time_before (jiffies K' w) deadline then
          (let idle = fst (xfer_poll_read K' base w); w1 = snd (xfer_poll_read K' base w) in
           if idle then Some (0, w1)
           else f K' base deadline
                  (kdo K' KC_cond_resched (kdo K' (KC_usleep_range 1000 2000) w1)))
        else Some (- ETIMEDOUT, w)) = Some res"
    from eq show "P (snd res)"
      unfolding K by (auto simp: Let_def w poll_read pause split: if_splits dest!: IH)
  qed
  then show ?thesis using assms(2) by simp
qed

lemma poll: "pcie_ring_xfer_poll K base ms w = Some (r, w') \<Longrightarrow> P w \<Longrightarrow> P w'"
  unfolding pcie_ring_xfer_poll_def using xfer_poll_loop_keeps by fastforce

lemma wait_ready: "pcie_ring_wait_ep_ready K base w = Some (r, w') \<Longrightarrow> P w \<Longrightarrow> P w'"
  by (auto simp: pcie_ring_wait_ep_ready_def bind_eq_Some_conv dest: wait_u32 split: if_splits)

lemma ctx_init: "P w \<Longrightarrow> P (snd (pcie_ring_ctx_init K base sz ctx w))"
  by (simp add: pcie_ring_ctx_init_def Let_def case_prod_beta r32)

lemma post_data: "pcie_ring_post_data K ctx chunk csz a w = Some (res, w') \<Longrightarrow> P w \<Longrightarrow> P w'"
  by (auto simp: pcie_ring_post_data_def bind_eq_Some_conv Let_def write_desc_def bump_used_def case_prod_beta w32 r32 copies
      dest!: wait_u32 split: if_splits)

lemma post_cmd: "pcie_ring_post_cmd K ctx cmd sz a w = Some (res, w') \<Longrightarrow> P w \<Longrightarrow> P w'"
  by (auto simp: pcie_ring_post_cmd_def bind_eq_Some_conv Let_def write_desc_def bump_used_def case_prod_beta w32 r32
      dest!: wait_u32 split: if_splits)

lemma chunks:
  assumes "xfer_chunks K src dlen la tot pos chunk ctx w = Some res" "P w"
  shows "P (snd res)"
proof -
  let ?Q = "\<lambda>K' src dlen la tot pos chunk ctx w res. K' = K \<longrightarrow> P w \<longrightarrow> P (snd res)"
  have "?Q K src dlen la tot pos chunk ctx w res"
  proof (rule xfer_chunks.raw_induct [OF _ assms(1), where P = ?Q], intro impI)
    fix f K' src dlen la tot pos chunk ctx and w :: "'d world" and res
    assume IH: "\<And>K' src dlen la tot pos chunk ctx w y.
        f K' src dlen la tot pos chunk ctx w = Some y \<Longrightarrow> ?Q K' src dlen la tot pos chunk ctx w y"
      and K: "K' = K" and w: "P w"
      and eq: "(if pos < tot then
        (case fill_chunk K' src dlen pos (chunk_size tot pos) chunk of
           None \<Rightarrow> Some ((- EFAULT, ctx), w)
         | Some chunk1 \<Rightarrow>
             do { rw \<leftarrow> pcie_ring_post_data K' ctx chunk1 (chunk_size tot pos) (la + pos) w;
                  if fst (fst rw) \<noteq> 0 then Some rw
                  else f K' src dlen la tot (pos + ucast (chunk_size tot pos)) chunk1 (snd (fst rw)) (snd rw) })
      else Some ((0, ctx), w)) = Some res"
    from eq show "P (snd res)"
      unfolding K by (auto simp: bind_eq_Some_conv w split: if_splits option.splits dest!: IH dest: post_data)
  qed
  then show ?thesis using assms(2) by simp
qed

lemma body:
  assumes "xfer_user_body K base sz user_base img w = Some (r, w')" "P w"
  shows "P w'"
proof -
  have "P w1" if "pcie_ring_ctx_init K base sz zero_ring_ctx w = (x, w1)" for x w1
    using ctx_init [OF assms(2), of base sz zero_ring_ctx] that by simp
  then show ?thesis using assms(1)
    by (auto simp: xfer_user_body_def Let_def bind_eq_Some_conv split: if_splits prod.splits dest!: chunks post_cmd poll)
qed

lemma image: "pcie_ring_xfer_user K base sz user_base img w = Some (r, w') \<Longrightarrow> P w \<Longrightarrow> P w'"
  by (auto simp: pcie_ring_xfer_user_def bind_eq_Some_conv call_do split: if_splits prod.splits dest!: callD body)

lemma images: "xfer_images K req e tys w = Some (res, w') \<Longrightarrow> P w \<Longrightarrow> P w'"
proof (induction tys arbitrary: w)
  case Nil
  then show ?case by (simp add: xfer_images_Nil)
next
  case (Cons ty tys)
  from Cons.prems(1) show ?case
    by (cases rule: xfer_images_Cons) (use Cons.IH Cons.prems(2) image in \<open>blast+\<close>)
qed

end

subsection \<open>Sending to the card\<close>

fun send_call :: "kcall \<Rightarrow> bool" where
  "send_call (KC_h2d_xfer bus bs a) = True"
| "send_call (KC_symbol_get n) = True"
| "send_call (KC_symbol_put n) = True"
| "send_call (KC_vmalloc n) = True"
| "send_call KC_vfree = True"
| "send_call (KC_filp_open p) = True"
| "send_call KC_filp_close = True"
| "send_call c = False"

text \<open>A predicate that the calls of a send keep, and that holds after the checks of the slot, holds in the end.\<close>

locale send_closed = call_closed K P send_call for K :: "'d kernel" and P :: "'d world \<Rightarrow> bool"
begin

lemma file_loop:
  assumes "send_file_loop K bus pos ep w = Some res" "P w"
  shows "P (snd res)"
proof -
  let ?Q = "\<lambda>K' bus pos ep w res. K' = K \<longrightarrow> P w \<longrightarrow> P (snd res)"
  have "?Q K bus pos ep w res"
  proof (rule send_file_loop.raw_induct [OF _ assms(1), where P = ?Q], intro impI)
    fix f K' bus pos ep and w :: "'d world" and res
    assume IH: "\<And>K' bus pos ep w y. f K' bus pos ep w = Some y \<Longrightarrow> ?Q K' bus pos ep w y"
      and K: "K' = K" and w: "P w"
      and eq: "(case k_read K' (w_out w) pos (unat AMBA_PCI_H2D_CHUNK_MAX) of
        Inl err \<Rightarrow> Some (err, w)
      | Inr bs \<Rightarrow>
          (if bs = [] then Some (0, w)
           else let rw = kcall K' (KC_h2d_xfer bus bs ep) w
                in if fst rw \<noteq> 0 then Some rw
                   else f K' bus (pos + length bs) (ep + of_nat (length bs)) (snd rw))) = Some res"
    from eq show "P (snd res)"
      unfolding K by (auto simp: Let_def w call split: sum.splits if_splits dest!: IH)
  qed
  then show ?thesis using assms(2) by simp
qed

lemma buffer_loop:
  assumes "send_buffer_loop K bus src sz ep offset w = Some res" "P w"
  shows "P (snd res)"
proof -
  let ?Q = "\<lambda>K' bus src sz ep offset w res. K' = K \<longrightarrow> P w \<longrightarrow> P (snd res)"
  have "?Q K bus src sz ep offset w res"
  proof (rule send_buffer_loop.raw_induct [OF _ assms(1), where P = ?Q], intro impI)
    fix f K' bus src sz ep offset and w :: "'d world" and res
    assume IH: "\<And>K' bus src sz ep offset w y. f K' bus src sz ep offset w = Some y \<Longrightarrow> ?Q K' bus src sz ep offset w y"
      and K: "K' = K" and w: "P w"
      and eq: "(if offset < sz then
        (let n = min (sz - offset) AMBA_PCI_H2D_CHUNK_MAX in
         case copy_from_user K' (src + offset) (unat n) of
           None \<Rightarrow> Some (- EFAULT, w)
         | Some bs \<Rightarrow>
             (let rw = kcall K' (KC_h2d_xfer bus bs (ep + offset)) w
              in if fst rw \<noteq> 0 then Some rw
                 else f K' bus src sz ep (offset + n) (snd rw)))
      else Some (0, w)) = Some res"
    from eq show "P (snd res)"
      unfolding K by (auto simp: Let_def w call split: option.splits if_splits dest!: IH)
  qed
  then show ?thesis using assms(2) by simp
qed

lemma send_buffer:
  assumes "pcie_ioctl_h2d_send_buffer K argp g w = Some (r, w')" "P w" "\<And>slot tgt w1. h2d_target K g slot w = (tgt, w1) \<Longrightarrow> P w1"
  shows "P w'"
proof (cases "copy_from_user K argp (size_of h2d_send_buffer_layout)")
  case None
  with assms(1,2) show ?thesis by (simp add: pcie_ioctl_h2d_send_buffer_def)
next
  case (Some bs)
  let ?req = "h2d_send_buffer_of_bytes bs"
  obtain tgt w1 where t: "h2d_target K g (sb_slot_id ?req) w = (tgt, w1)" by (metis prod.exhaust)
  obtain sym w2 where s: "kcall K (KC_symbol_get pci_turbo_bus_xfer_h2d) w1 = (sym, w2)" by (metis prod.exhaust)
  obtain kb w3 where k: "kcall K (KC_vmalloc (unat AMBA_PCI_H2D_CHUNK_MAX)) w2 = (kb, w3)" by (metis prod.exhaust)
  have p1: "P w1" by (rule assms(3) [OF t])
  have p2: "P w2" by (rule callD [OF s _ p1]) simp
  have p3: "P w3" by (rule callD [OF k _ p2]) simp
  show ?thesis
    using assms(1,2) Some t s k p1 p2 p3
    by (auto simp: pcie_ioctl_h2d_send_buffer_def Let_def bind_eq_Some_conv call_do split: if_splits sum.splits
        dest!: buffer_loop)
qed

lemma send_file:
  assumes "pcie_ioctl_h2d_send_file K argp g w = Some (r, w')" "P w" "\<And>slot tgt w1. h2d_target K g slot w = (tgt, w1) \<Longrightarrow> P w1"
  shows "P w'"
proof (cases "copy_from_user K argp (size_of h2d_send_file_layout)")
  case None
  with assms(1,2) show ?thesis by (simp add: pcie_ioctl_h2d_send_file_def)
next
  case (Some bs)
  define req where "req = (h2d_send_file_of_bytes bs)\<lparr>sf_path := (sf_path (h2d_send_file_of_bytes bs))[AMBA_PCI_PATH_MAX - 1 := 0]\<rparr>"
  define bad where "bad \<longleftrightarrow> sf_slot_id req \<ge> of_nat AMBA_PCI_DEV_MAX \<or> sf_path req ! 0 = 0 \<or> sf_ep_addr req = 0"
  obtain tgt w1 where t: "h2d_target K g (sf_slot_id req) w = (tgt, w1)" by (metis prod.exhaust)
  obtain sym w2 where s: "kcall K (KC_symbol_get pci_turbo_bus_xfer_h2d) w1 = (sym, w2)" by (metis prod.exhaust)
  obtain fp w3 where o: "kcall K (KC_filp_open (cstr (sf_path req))) w2 = (fp, w3)" by (metis prod.exhaust)
  obtain kb w4 where k: "kcall K (KC_vmalloc (unat AMBA_PCI_H2D_CHUNK_MAX)) w3 = (kb, w4)" by (metis prod.exhaust)
  have p1: "P w1" by (rule assms(3) [OF t])
  have p2: "P w2" by (rule callD [OF s _ p1]) simp
  have p3: "P w3" by (rule callD [OF o _ p2]) simp
  have p4: "P w4" by (rule callD [OF k _ p3]) simp
  note run = assms(1) [unfolded pcie_ioctl_h2d_send_file_def Some option.case Let_def req_def [symmetric] bad_def [symmetric] t prod.case s o k]
  from run assms(2) p1 p2 p3 p4 show ?thesis
    by (auto simp: bind_eq_Some_conv call_do split: if_splits sum.splits dest!: file_loop)
qed

end

subsection \<open>Nothing is taken or returned\<close>

lemma ring_call_neutral: "ring_call c \<Longrightarrow> is_sleep c \<or> neutral_call c"
  by (cases c) (simp_all add: ring_call_def)

lemma send_call_neutral: "send_call c \<Longrightarrow> neutral_call c"
  by (cases c) simp_all

interpretation ring_quiet: ring_closed K "quiet u" for K u
  by unfold_locales (auto dest: ring_call_neutral simp: only_def kframe)

interpretation send_quiet: send_closed K "quiet u" for K u
  by unfold_locales (auto dest: send_call_neutral)

lemmas xfer_images_quiet = ring_quiet.images [OF _ quiet_refl]

lemma h2d_target_quiet: "h2d_target K g slot_id w = (res, w') \<Longrightarrow> quiet w w'"
  by (auto simp: h2d_target_def Let_def split: if_splits option.splits)

lemmas send_buffer_quiet = send_quiet.send_buffer [OF _ quiet_refl h2d_target_quiet]
lemmas send_file_quiet = send_quiet.send_file [OF _ quiet_refl h2d_target_quiet]

end
