(* ===== verification/Proc_Reads.thy ===== *)
theory Proc_Reads
  imports File_Ops Quiet_Calls Proc_Correct
begin

section \<open>Reading any of the proc files\<close>

text \<open>
  All reads go through a kernel buffer that is allocated, filled by the file's reader and copied
  out. Only the device information touches the driver's state, and there only the boot BAR and the
  board information of its own slot.
\<close>

definition silent :: "'d world \<Rightarrow> 'd world \<Rightarrow> bool" where
  "silent w w' \<longleftrightarrow> only (\<lambda>c. neutral_call c \<and> lock_free c) w w' \<and> iow w' = iow w"

lemma silent_refl [simp]: "silent w w"
  by (simp add: silent_def)

lemma silent_trans: "silent w w1 \<Longrightarrow> silent w1 w2 \<Longrightarrow> silent w w2"
  unfolding silent_def by (metis only_trans)

lemma silent_kdo [simp]: "silent u w \<Longrightarrow> neutral_call c \<Longrightarrow> lock_free c \<Longrightarrow> silent u (kdo K c w)"
  by (simp add: silent_def kframe)

lemma silent_kcallD: "kcall K c w = (r, w') \<Longrightarrow> silent u w \<Longrightarrow> neutral_call c \<Longrightarrow> lock_free c \<Longrightarrow> silent u w'"
  using only_kcallD [of K c w r w' "\<lambda>c. neutral_call c \<and> lock_free c" u] kcallD [of K c w r w'] by (simp add: silent_def)

lemma silentD: "silent w w' \<Longrightarrow> quiet w w' \<and> only lock_free w w' \<and> iow w' = iow w"
  by (auto simp: silent_def elim: only_mono)

lemma simple_read_silent: "simple_read_from_buffer K buf n pos page w = ((r, pos'), w') \<Longrightarrow> silent w w'"
  using silent_kcallD [where u = w and w = w]
  by (auto simp: simple_read_from_buffer_def Let_def split: if_splits prod.splits)

lemma read_page_cases:
  assumes "pcie_proc_read_page K reader buf n pos g w = ((r, pos', g'), w')"
  obtains (nomem) "g' = g" "silent w w'" "r = - ENOMEM"
  | (ran) len w1 w2 where "reader g PAGE_SIZE w1 = ((len, g'), w2)" "silent w w1" "silent w2 w'"
proof -
  obtain kb w1 where km: "kcall K (KC_kmalloc PAGE_SIZE) w = (kb, w1)" by (metis prod.exhaust)
  obtain len g1 w2 where rd: "reader g PAGE_SIZE w1 = ((len, g1), w2)" by (metis prod.exhaust)
  have q1: "silent w w1" using silent_kcallD [OF km silent_refl] by simp
  show thesis
  proof (cases "kb = 0")
    case True
    with assms km have "g' = g" "w' = kdo K KC_kfree w1" "r = - ENOMEM" by (simp_all add: pcie_proc_read_page_def)
    with nomem q1 show thesis by simp
  next
    case False
    have "g' = g1 \<and> silent w2 w'"
    proof (cases len)
      case (Inl err)
      with False assms km rd have "g' = g1" "w' = kdo K KC_kfree w2" by (simp_all add: pcie_proc_read_page_def)
      then show ?thesis by simp
    next
      case (Inr page)
      obtain ret pos1 w3 where cp: "simple_read_from_buffer K buf n pos page w2 = ((ret, pos1), w3)" by (metis prod.exhaust)
      with Inr False assms km rd have "g' = g1" "w' = kdo K KC_kfree w3" by (simp_all add: pcie_proc_read_page_def)
      with simple_read_silent [OF cp] show ?thesis by simp
    qed
    with ran rd q1 show thesis by blast
  qed
qed

lemma net_read_silent: "pcie_net_read_entry K net_text e sz w = (len, w') \<Longrightarrow> silent w w'"
proof -
  assume run: "pcie_net_read_entry K net_text e sz w = (len, w')"
  obtain f w1 where a: "kcall K (KC_symbol_get pci_buzz_bus_net_get) w = (f, w1)" by (metis prod.exhaust)
  obtain ok w2 where b: "kcall K (KC_net_get (entry_bus e)) w1 = (ok, w2)" by (metis prod.exhaust)
  have "silent w w1" using silent_kcallD [OF a silent_refl] by simp
  moreover from this have "silent w w2" using silent_kcallD [OF b] by simp
  ultimately show ?thesis using run a b by (auto simp: pcie_net_read_entry_def Let_def split: if_splits)
qed

lemma log_read_silent: "pcie_dev_log_read_entry K log_text e sz w = (len, w') \<Longrightarrow> silent w w'"
proof -
  assume run: "pcie_dev_log_read_entry K log_text e sz w = (len, w')"
  obtain f w1 where a: "kcall K (KC_symbol_get pci_buzz_bus_epinfo_read) w = (f, w1)" by (metis prod.exhaust)
  obtain ret w2 where b: "kcall K (KC_epinfo_read (entry_bus e) sz) w1 = (ret, w2)" by (metis prod.exhaust)
  have "silent w w1" using silent_kcallD [OF a silent_refl] by simp
  moreover from this have "silent w w2" using silent_kcallD [OF b] by simp
  ultimately show ?thesis using run a b by (auto simp: pcie_dev_log_read_entry_def Let_def split: if_splits)
qed

lemma log_file_silent:
  assumes "pcie_proc_dev_log_read K log_text i buf n pos g w = ((r, pos'), w')"
  shows "silent w w'"
proof -
  obtain kb w1 where v: "kcall K (KC_vmalloc SZ_2M) w = (kb, w1)" by (metis prod.exhaust)
  obtain len w2 where rd: "pcie_dev_log_read_entry K log_text (g_devs g ! i) SZ_2M w1 = (len, w2)" by (metis prod.exhaust)
  have q1: "silent w w1" using silent_kcallD [OF v silent_refl] by simp
  have q2: "silent w w2" by (rule silent_trans [OF q1 log_read_silent [OF rd]])
  show ?thesis
  proof (cases "\<exists>page. kb \<noteq> 0 \<and> len = Inr page")
    case True
    then obtain page where l: "kb \<noteq> 0" "len = Inr page" by blast
    obtain res w3 where cp: "simple_read_from_buffer K buf n pos page w2 = (res, w3)" by (metis prod.exhaust)
    have "silent w w3" using silent_trans [OF q2] simple_read_silent cp by (metis prod.exhaust)
    then show ?thesis using assms v rd l cp by (auto simp: pcie_proc_dev_log_read_def)
  next
    case False
    then show ?thesis using assms v rd q1 q2
      by (auto simp: pcie_proc_dev_log_read_def split: if_splits sum.splits)
  qed
qed

text \<open>The two ways through any read of any file.\<close>

lemma read_cases:
  assumes rd: "proc_read ops K net_text log_text i = Some rd" and run: "rd buf n pos g w = ((r, pos', g'), w')"
  obtains (pure) "g' = g" "silent w w'"
  | (info) d e w1 w2 where "pcie_query_dev_info_locked K (g_devs g ! i) (int i) (kdo K KC_mutex_lock w1) = ((d, e), w2)"
      "g' = set_entry g i e" "silent w w1" "silent (kdo K KC_mutex_unlock w2) w'" "ops = Dev_Info_Ops"
proof (cases ops)
  case Status_Ops
  then have "pcie_proc_read_page K (\<lambda>g sz w. ((Inr (pcie_status_read_entry (g_devs g ! i) sz), g), w)) buf n pos g w
      = ((r, pos', g'), w')" using rd run by (auto simp: pcie_proc_status_read_def)
  then show thesis by (cases rule: read_page_cases) (use pure silent_trans in auto)
next
  case Net_Ops
  then have "pcie_proc_read_page K
       (\<lambda>g sz w. let (len, w1) = pcie_net_read_entry K net_text (g_devs g ! i) sz w in ((len, g), w1)) buf n pos g w
      = ((r, pos', g'), w')" using rd run by (auto simp: pcie_proc_net_read_def)
  then show thesis
  proof (cases rule: read_page_cases)
    case (ran len w1 w2)
    have "silent w w2"
      by (rule silent_trans [OF ran(2)]) (use ran(1) net_read_silent in \<open>auto split: prod.splits\<close>)
    with ran pure silent_trans show thesis by (auto split: prod.splits)
  qed (use pure in blast)
next
  case Dev_Log_Ops
  with rd run obtain ret where "pcie_proc_dev_log_read K log_text i buf n pos g w = ((ret, pos'), w')" "g' = g"
    by (auto split: prod.splits)
  with log_file_silent pure show thesis by blast
next
  case Dev_Info_Ops
  then have "pcie_proc_read_page K
       (\<lambda>g sz w. let ((page, e), w1) = pcie_dev_info_read_entry K i (g_devs g ! i) sz w in ((Inr page, set_entry g i e), w1))
       buf n pos g w = ((r, pos', g'), w')" using rd run by (auto simp: pcie_proc_dev_info_read_def)
  then show thesis
  proof (cases rule: read_page_cases)
    case (ran len w1 w2)
    obtain d e w3 where q: "pcie_query_dev_info_locked K (g_devs g ! i) (int i) (kdo K KC_mutex_lock w1) = ((d, e), w3)"
      by (metis prod.exhaust)
    with ran(1) have "g' = set_entry g i e" "w2 = kdo K KC_mutex_unlock w3"
      by (simp_all add: pcie_dev_info_read_entry_def Let_def)
    with q ran(2,3) info Dev_Info_Ops show thesis by simp
  qed (use pure in blast)
next
  case Reboot_Ops
  with rd show thesis by simp
qed

text \<open>C39: The access modes of the proc files agree with their operations: a file can be opened for reading
  exactly if it has a read handler, and for writing exactly if it has a write handler. And reading is
  harmless: whatever file of a slot is read, with whatever buffer and position, no slot changes its
  state, its device or its timeout, every slot stays well formed, no endpoint register is written,
  and only the device information file may change anything of the driver's state at all.\<close>

theorem proc_files_safe:
  assumes "(name, mode, ops) \<in> set proc_nodes" and "plat_ok g" and "i < AMBA_PCI_DEV_MAX"
  shows "(mode AND 0x124 \<noteq> 0 \<longleftrightarrow> proc_read ops K net_text log_text i \<noteq> None) \<and>
    (mode AND 0x92 \<noteq> 0 \<longleftrightarrow> proc_write ops K rm i \<noteq> None) \<and>
    (\<forall>rd r pos' g' w'. proc_read ops K net_text log_text i = Some rd \<longrightarrow> rd buf n pos g w = ((r, pos', g'), w') \<longrightarrow>
       plat_ok g' \<and> map abs_slot (g_devs g') = map abs_slot (g_devs g) \<and>
       map e_work_pending (g_devs g') = map e_work_pending (g_devs g) \<and> iow w' = iow w \<and> (ops \<noteq> Dev_Info_Ops \<longrightarrow> g' = g))"
proof (intro conjI allI impI)
  show "mode AND 0x124 \<noteq> 0 \<longleftrightarrow> proc_read ops K net_text log_text i \<noteq> None" "mode AND 0x92 \<noteq> 0 \<longleftrightarrow> proc_write ops K rm i \<noteq> None"
    using proc_nodes_modes [OF assms(1)] by blast+
  fix rd r pos' g' w'
  assume rd: "proc_read ops K net_text log_text i = Some rd" and run: "rd buf n pos g w = ((r, pos', g'), w')"
  have "plat_ok g' \<and> map abs_slot (g_devs g') = map abs_slot (g_devs g) \<and>
      map e_work_pending (g_devs g') = map e_work_pending (g_devs g) \<and> iow w' = iow w \<and> (ops = Dev_Info_Ops \<or> g' = g)"
    using rd run
  proof (cases rule: read_cases)
    case pure
    then show ?thesis using assms(2) by (simp add: silent_def)
  next
    case (info d e w1 w2)
    note q = query_result [OF info(1) plat_ok_slot [OF assms(2,3)]]
    have same: "abs_slot e = abs_slot (g_devs g ! i)" "e_work_pending e = e_work_pending (g_devs g ! i)"
      using q(1) by (simp_all add: same_but_board_def abs_slot_def)
    have len: "i < length (g_devs g)" using assms(2,3) by (simp add: plat_ok_def)
    have "map abs_slot (g_devs g') = map abs_slot (g_devs g)" "map e_work_pending (g_devs g') = map e_work_pending (g_devs g)"
      unfolding info(2) using len same by (simp_all add: set_entry_def map_update list_update_same_conv)
    then show ?thesis using set_entry_ok [OF assms(2,3) q(3)] info(2-5) q(2) by (simp add: silent_def kframe)
  qed
  then show "plat_ok g'" "map abs_slot (g_devs g') = map abs_slot (g_devs g)"
    "map e_work_pending (g_devs g') = map e_work_pending (g_devs g)" "iow w' = iow w" "ops \<noteq> Dev_Info_Ops \<Longrightarrow> g' = g"
    by blast+
qed

theorem proc_files_safe_witness:
  "\<exists>r pos' g' w'. pcie_proc_dev_info_read demo_kernel 0 0x1000 64 0 connected_platform demo_world = ((r, pos', g'), w') \<and>
     map abs_slot (g_devs g') = [Card AMBA_PCI_STATE_CONNECTED (Some demo_pci_dev), Empty, Empty, Empty] \<and> iow w' = []"
proof -
  obtain r pos' g' w' where run: "pcie_proc_dev_info_read demo_kernel 0 0x1000 64 0 connected_platform demo_world = ((r, pos', g'), w')"
    by (metis prod.exhaust)
  have n: "(''dev_info'', 0x124, Dev_Info_Ops) \<in> set proc_nodes" by (simp add: proc_nodes_def)
  have slots: "map abs_slot (g_devs connected_platform) = [Card AMBA_PCI_STATE_CONNECTED (Some demo_pci_dev), Empty, Empty, Empty]"
    by (simp add: connected_platform_def set_entry_def demo_platform_def zero_platform_def connected_entry_def demo_entry_def
        zero_entry_def abs_slot_def numeral_eq_Suc)
  have "iow demo_world = []" by (simp add: iow_def demo_world_def)
  with proc_files_safe [OF n connected_platform_ok, of 0 demo_kernel "\<lambda>b w. []" "\<lambda>b n w. []"] run slots show ?thesis by simp
qed

end
