(* ===== verification/Driver_System.thy ===== *)
theory Driver_System
  imports Proc_Reads
begin

section \<open>The driver as a whole: interleaved handlers\<close>

text \<open>
  The handlers of the driver run from several contexts: the bus notifier, the control device, the
  proc files, and the work queue that runs the boot timeouts. Their critical sections are
  serialised by the one mutex, so a run of the driver is a sequence of steps, each a whole handler
  up to the point where it hands a device over for removal; the removal comes back as a notifier
  step of its own. A boot timeout takes two steps: the timer expires (the work leaves the queue),
  and later its function gets the mutex; \<open>cancel_delayed_work\<close> only stops the first.
  Steps may come in any order, as often as they like.
\<close>

subsection \<open>Steps\<close>

record 'd sys =
  sys_plat :: amba_pci_platform
  sys_world :: "'d world"
  sys_run :: "nat set"

datatype step_label =
    Notify u64 bool pci_dev
  | Expire nat
  | Timeout nat
  | Ioctl u32 u64 int
  | Read_File proc_ops nat u64 nat int int
  | Write_File proc_ops nat u64 nat int int

definition removal_later :: "'d remove_fn" where
  "removal_later pd g w = (g, w)"

inductive driver_step :: "'d kernel \<Rightarrow> (u32 \<Rightarrow> u32) \<Rightarrow> 'd sys \<Rightarrow> step_label \<Rightarrow> 'd sys \<Rightarrow> bool" for K shl where
  step_notify: "pcie_pci_bus_notify K a is_pci pd g w = ((r, g'), w') \<Longrightarrow>
    driver_step K shl \<lparr>sys_plat = g, sys_world = w, sys_run = rs\<rparr> (Notify a is_pci pd)
      \<lparr>sys_plat = g', sys_world = w', sys_run = rs\<rparr>"
| step_expire: "i < AMBA_PCI_DEV_MAX \<Longrightarrow> e_work_pending (g_devs g ! i) \<Longrightarrow> i \<notin> rs \<Longrightarrow>
    driver_step K shl \<lparr>sys_plat = g, sys_world = w, sys_run = rs\<rparr> (Expire i)
      \<lparr>sys_plat = set_entry g i ((g_devs g ! i)\<lparr>e_work_pending := False\<rparr>), sys_world = w, sys_run = insert i rs\<rparr>"
| step_timeout: "i \<in> rs \<Longrightarrow> pcie_boot_timeout_fn K (g_devs g ! i) w = (e, w') \<Longrightarrow>
    driver_step K shl \<lparr>sys_plat = g, sys_world = w, sys_run = rs\<rparr> (Timeout i)
      \<lparr>sys_plat = set_entry g i e, sys_world = w', sys_run = rs - {i}\<rparr>"
| step_ioctl: "pcie_file_ioctl K shl removal_later cmd arg g w = Some ((Ret r, g'), w') \<Longrightarrow>
    driver_step K shl \<lparr>sys_plat = g, sys_world = w, sys_run = rs\<rparr> (Ioctl cmd arg r)
      \<lparr>sys_plat = g', sys_world = w', sys_run = rs\<rparr>"
| step_read: "i < AMBA_PCI_DEV_MAX \<Longrightarrow> rd buf n pos g w = ((r, pos', g'), w') \<Longrightarrow>
    proc_read ops K net_text log_text i = Some rd \<Longrightarrow>
    driver_step K shl \<lparr>sys_plat = g, sys_world = w, sys_run = rs\<rparr> (Read_File ops i buf n pos r)
      \<lparr>sys_plat = g', sys_world = w', sys_run = rs\<rparr>"
| step_write: "i < AMBA_PCI_DEV_MAX \<Longrightarrow> wr buf n pos g w = ((r, pos', g'), w') \<Longrightarrow>
    proc_write ops K removal_later i = Some wr \<Longrightarrow>
    driver_step K shl \<lparr>sys_plat = g, sys_world = w, sys_run = rs\<rparr> (Write_File ops i buf n pos r)
      \<lparr>sys_plat = g', sys_world = w', sys_run = rs\<rparr>"

subsection \<open>The life of a slot\<close>

text \<open>
  The state machine of a slot that the driver implements: what hotplug events do to a slot, and
  what the driver does on its own or on request.
\<close>

inductive plugged :: "card_slot \<Rightarrow> card_slot \<Rightarrow> bool" where
  plugged_found: "plugged Empty (Card AMBA_PCI_STATE_DISCONNECTED (Some pd))"
| plugged_running: "plugged Empty (Card AMBA_PCI_STATE_CONNECTED (Some pd))"
| plugged_away: "plugged (Card AMBA_PCI_STATE_BOOTING d) (Card AMBA_PCI_STATE_BOOTING None)"
| plugged_back: "plugged (Card AMBA_PCI_STATE_BOOTING d) (Card AMBA_PCI_STATE_CONNECTED (Some pd))"
| plugged_gone: "st \<noteq> AMBA_PCI_STATE_BOOTING \<Longrightarrow> plugged (Card st d) Empty"

inductive driven :: "card_slot \<Rightarrow> card_slot \<Rightarrow> bool" where
  driven_boot: "driven (Card AMBA_PCI_STATE_DISCONNECTED (Some pd)) (Card AMBA_PCI_STATE_BOOTING (Some pd))"
| driven_late: "driven (Card AMBA_PCI_STATE_BOOTING d) (Card AMBA_PCI_STATE_BOOT_FAILED d)"
| driven_reboot: "driven (Card AMBA_PCI_STATE_CONNECTED (Some pd)) (Card AMBA_PCI_STATE_REBOOTING (Some pd))"

inductive_simps driven_from_empty: "driven Empty x"
inductive_simps driven_card: "driven (Card st d) x"

text \<open>One slot before and after a step of the driver: how its entry and its timeout may change.\<close>

inductive slot_change :: "(card_slot \<Rightarrow> card_slot \<Rightarrow> bool) \<Rightarrow> pcie_dev_entry \<Rightarrow> pcie_dev_entry \<Rightarrow> bool" for R where
  change_kept: "abs_slot e' = abs_slot e \<Longrightarrow> e_work_pending e' = e_work_pending e \<Longrightarrow> slot_change R e e'"
| change_moved: "R (abs_slot e) (abs_slot e') \<Longrightarrow>
    (e_state e' = AMBA_PCI_STATE_BOOTING \<Longrightarrow> e_work_pending e' \<or> e_state e = AMBA_PCI_STATE_BOOTING \<and> e_work_pending e' = e_work_pending e) \<Longrightarrow>
    slot_change R e e'"

lemma slot_change_refl [simp, intro]: "slot_change R e e"
  by (rule change_kept) simp_all

lemma slot_change_board: "same_but_board e e' \<Longrightarrow> slot_change R e e'"
  by (rule change_kept) (simp_all add: same_but_board_def abs_slot_def)

lemma slot_change_abs: "slot_change R e e' \<Longrightarrow> abs_slot e' = abs_slot e \<or> R (abs_slot e) (abs_slot e')"
  by (auto elim: slot_change.cases)

definition slots_change :: "(card_slot \<Rightarrow> card_slot \<Rightarrow> bool) \<Rightarrow> amba_pci_platform \<Rightarrow> amba_pci_platform \<Rightarrow> bool" where
  "slots_change R g g' \<longleftrightarrow> (\<forall>i < AMBA_PCI_DEV_MAX. slot_change R (g_devs g ! i) (g_devs g' ! i))"

lemma slots_change_refl [simp]: "slots_change R g g"
  by (simp add: slots_change_def)

lemma slots_change_set_entry:
  assumes "plat_ok g" "i < AMBA_PCI_DEV_MAX" "slot_change R (g_devs g ! i) e"
  shows "slots_change R g (set_entry g i e)"
  using assms by (auto simp: slots_change_def set_entry_nth plat_ok_def)

lemma entry_step:
  "plat_ok g \<Longrightarrow> i < AMBA_PCI_DEV_MAX \<Longrightarrow> slot_ok i e \<Longrightarrow> slot_change R (g_devs g ! i) e \<Longrightarrow>
     plat_ok (set_entry g i e) \<and> slots_change R g (set_entry g i e)"
  by (simp add: set_entry_ok slots_change_set_entry)

lemma slots_change_next_id [simp]: "slots_change R g (g'\<lparr>g_next_dev_id := n\<rparr>) = slots_change R g g'"
  by (simp add: slots_change_def)

subsection \<open>How each handler changes the slots\<close>

lemma abs_slot_empty: "\<not> e_in_use e \<Longrightarrow> abs_slot e = Empty"
  by (simp add: abs_slot_def)

lemma handle_add_change:
  assumes "pcie_handle_add_locked K pd g w = (g', w')" "plat_ok g"
  shows "slots_change plugged g g'"
  using assms
proof (cases rule: handle_add_cases)
  case ignored
  then show ?thesis by simp
next
  case (reconnect i e)
  have e: "e = (g_devs g ! i)\<lparr>e_pdev := Some pd, e_work_pending := False, e_state := AMBA_PCI_STATE_CONNECTED\<rparr>"
    using reconnect(6) reconnect_result [of K i pd "g_devs g ! i" w] by simp
  have "slot_change plugged (g_devs g ! i) e"
    by (rule change_moved) (use reconnect in \<open>simp_all add: e abs_slot_def plugged_back\<close>)
  then show ?thesis unfolding reconnect(7) using slots_change_set_entry assms(2) reconnect(2) by blast
next
  case (init_failed i r e)
  have ok: "slot_ok i e \<and> \<not> e_in_use e"
    using create_proc_failed_ok [OF init_failed(6,5) plat_ok_slot [OF assms(2) init_failed(2)] init_failed(3)] .
  have ok0: "slot_ok i (g_devs g ! i)" by (rule plat_ok_slot [OF assms(2) init_failed(2)])
  have "slot_change plugged (g_devs g ! i) e"
    by (rule change_kept) (use ok ok0 init_failed(3) in \<open>auto simp: abs_slot_def slot_ok_def\<close>)
  then show ?thesis unfolding init_failed(7) using slots_change_set_entry assms(2) init_failed(2) by blast
next
  case (init_ok i e w1)
  let ?e = "(initialised g pd i e)\<lparr>e_state := connected_state K pd w\<rparr>"
  have "plugged (abs_slot (g_devs g ! i)) (abs_slot ?e)" "e_state ?e \<noteq> AMBA_PCI_STATE_BOOTING"
    using init_ok(3) plugged_found plugged_running
    by (auto simp: abs_slot_def initialised_def connected_state_def)
  then have "slot_change plugged (g_devs g ! i) ?e" by (intro change_moved) auto
  then show ?thesis unfolding init_ok(7) using slots_change_set_entry assms(2) init_ok(2) by simp
qed

lemma handle_del_change:
  assumes "pcie_handle_del_locked K pd g w = (g', w')" "plat_ok g"
  shows "slots_change plugged g g'"
  using assms(1)
proof (cases rule: handle_del_cases)
  case ignored
  then show ?thesis by simp
next
  case (detached i e)
  have e: "e = (if e_pdev (g_devs g ! i) = None then g_devs g ! i else (g_devs g ! i)\<lparr>e_boot_mem_base := 0, e_pdev := None\<rparr>)"
    using detach_result [of K "g_devs g ! i" w] detached(5) by simp
  have "slot_change plugged (g_devs g ! i) e"
  proof (cases "e_pdev (g_devs g ! i)")
    case None
    with e show ?thesis by simp
  next
    case (Some p)
    with e have e1: "e = (g_devs g ! i)\<lparr>e_boot_mem_base := 0, e_pdev := None\<rparr>" by simp
    show ?thesis by (rule change_moved) (use detached in \<open>simp_all add: e1 abs_slot_def plugged_away\<close>)
  qed
  then show ?thesis unfolding detached(6) using slots_change_set_entry assms(2) detached(2) by blast
next
  case (removed i e)
  have "e = released (g_devs g ! i)"
    using release_result [OF plat_ok_slot [OF assms(2) removed(2)], of K w] removed(3,5) by simp
  then have "slot_change plugged (g_devs g ! i) e"
    by (intro change_moved) (use removed in \<open>auto simp: abs_slot_def released_def zero_entry_def intro: plugged_gone\<close>)
  then show ?thesis unfolding removed(6) using slots_change_set_entry assms(2) removed(2) by blast
qed

lemma notify_change:
  assumes "pcie_pci_bus_notify K a is_pci pd g w = ((r, g'), w')" "plat_ok g"
  shows "slots_change plugged g g'"
  using assms handle_add_change [of K pd g "kdo K KC_mutex_lock w"] handle_del_change [of K pd g "kdo K KC_mutex_lock w"]
  by (auto simp: pcie_pci_bus_notify_def split: if_splits prod.splits)

text \<open>The transfer ioctl, with the removal of the device left to a later step.\<close>

lemma xfer_locked_change:
  assumes "xfer_firmware_locked K req e w = Some ((res, e', hot), w')" "slot_ok i e"
  shows "slot_ok i e' \<and> slot_change driven e e'"
proof (cases "res = Ret 0")
  case False
  from xfer_locked_failed [OF assms False] show ?thesis using slot_change_board by blast
next
  case True
  show ?thesis
  proof (rule xfer_locked_success [OF assms(1) [unfolded True] assms(2)])
    fix e1 w2 w3 pd
    assume f: "e_pdev e = Some pd" "e_in_use e" "e_state e = AMBA_PCI_STATE_DISCONNECTED" "same_but_board e e1"
      "slot_ok i e1" and e': "e' = e1\<lparr>e_state := AMBA_PCI_STATE_BOOTING, e_work_pending := True\<rparr>"
    have e1: "e_in_use e1" "e_pdev e1 = Some pd" using f by (simp_all add: same_but_board_def)
    have "slot_change driven e e'"
      by (rule change_moved) (use f e1 in \<open>simp_all add: e' abs_slot_def driven_boot\<close>)
    then show ?thesis using booting_ok [OF f(5) e1(1)] e' by simp
  qed
qed

lemma xfer_ioctl_later:
  assumes "pcie_ioctl_xfer_firmware K shl removal_later argp g w = Some ((res, g'), w')" "plat_ok g"
  obtains (rejected) "g' = g" "w' = w"
  | (ran) req i e hot w1 where "i < AMBA_PCI_DEV_MAX" "g' = set_entry g i e"
      "xfer_firmware_locked K req (g_devs g ! i) (kdo K KC_mutex_lock w) = Some ((res, e, hot), w1)"
      "w' = (if res = Null_Deref then w1 else kdo K KC_mutex_unlock w1)"
  using assms
proof (cases rule: xfer_ioctl_cases)
  case (rejected r)
  with that(1) show thesis by blast
next
  case (ran bs req i e hot w1)
  have "g' = set_entry g i e" "w' = (if res = Null_Deref then w1 else kdo K KC_mutex_unlock w1)"
    using ran(7) by (auto simp: removal_later_def split: if_splits option.splits)
  with that(2) ran(4,6) show thesis by blast
qed

lemma xfer_ioctl_change:
  assumes "pcie_ioctl_xfer_firmware K shl removal_later argp g w = Some ((res, g'), w')" "plat_ok g"
  shows "plat_ok g' \<and> slots_change driven g g'"
  using assms
proof (cases rule: xfer_ioctl_later)
  case rejected
  then show ?thesis using assms(2) by simp
next
  case (ran req i e hot w1)
  from xfer_locked_change [OF ran(3) plat_ok_slot [OF assms(2) ran(1)]] show ?thesis
    unfolding ran(2) using entry_step [OF assms(2) ran(1)] by blast
qed

lemma query_ioctl_change:
  assumes "pcie_ioctl_query_platform_info K argp g w = ((r, g'), w')" "plat_ok g"
  shows "plat_ok g' \<and> slots_change driven g g'"
proof -
  note q = query_ioctl_result [OF assms]
  have len: "length (g_devs g) = 4" "length (g_devs g') = 4" using assms(2) q by (simp_all add: plat_ok_def)
  have "abs_slot (g_devs g' ! i) = abs_slot (g_devs g ! i) \<and> e_work_pending (g_devs g' ! i) = e_work_pending (g_devs g ! i)"
    if "i < 4" for i
    using q that len by (metis nth_map)
  then show ?thesis using q by (auto simp: slots_change_def intro!: change_kept)
qed

lemma ioctl_change:
  assumes "pcie_file_ioctl K shl removal_later cmd arg g w = Some ((res, g'), w')" "plat_ok g"
  shows "plat_ok g' \<and> slots_change driven g g'"
proof -
  consider "\<exists>r. pcie_ioctl_query_platform_info K arg g w = ((r, g'), w')"
    | "pcie_ioctl_xfer_firmware K shl removal_later arg g w = Some ((res, g'), w')" | "g' = g"
    using assms(1) by (auto simp: pcie_file_ioctl_def bind_eq_Some_conv split: if_splits prod.splits)
  then show ?thesis
    by cases (use query_ioctl_change [OF _ assms(2)] xfer_ioctl_change [OF _ assms(2)] assms(2) in \<open>blast+, simp\<close>)
qed

text \<open>Reading the proc files, and rebooting.\<close>

lemma read_change:
  assumes "rd buf n pos g w = ((r, pos', g'), w')" "plat_ok g" "i < AMBA_PCI_DEV_MAX"
    and "proc_read ops K net_text log_text i = Some rd"
  shows "plat_ok g' \<and> slots_change driven g g'"
  using assms(4,1)
proof (cases rule: read_cases)
  case pure
  then show ?thesis using assms(2) by simp
next
  case (info d e w1 w2)
  note q = query_result [OF info(1) plat_ok_slot [OF assms(2,3)]]
  show ?thesis
    unfolding info(2) by (rule entry_step [OF assms(2,3) q(3) slot_change_board [OF q(1)]])
qed

lemma proc_write_reboot: "proc_write ops K rm i = Some wr \<Longrightarrow> wr = pcie_proc_reboot_write K rm i"
  by (cases ops) auto

lemma reboot_cases_later:
  assumes "pcie_proc_reboot_write K removal_later i buf n pos g w = ((r, pos', g'), w')"
  obtains (refused) "g' = g" "quiet w w'" "r < 0"
  | (accepted) pd where "e_in_use (g_devs g ! i)" "e_pdev (g_devs g ! i) = Some pd" "e_state (g_devs g ! i) = AMBA_PCI_STATE_CONNECTED"
      "g' = set_entry g i ((g_devs g ! i)\<lparr>e_state := AMBA_PCI_STATE_REBOOTING\<rparr>)" "quiet w w'" "r = int n"
  using assms
proof (cases rule: reboot_write_cases)
  case refused
  moreover from refused(1) have "r < 0" by auto
  ultimately show thesis using that(1) by blast
next
  case (ran cmd w1 r1 w2)
  from ran(5) show thesis
  proof (cases rule: reboot_entry_cases)
    case refused
    then have "r1 < 0" by auto
    moreover have "quiet w w'" using quiet_trans [OF ran(8) refused(4)] ran(6) by simp
    ultimately show thesis using that(1) refused(2) ran(7) by simp
  next
    case (accepted pd w3)
    have "quiet w w2" using quiet_trans [OF ran(8) accepted(9)] accepted(8) by (simp add: removal_later_def)
    with that(2) accepted ran(6,7) show thesis by (simp add: removal_later_def)
  qed
qed

lemma reboot_change:
  assumes "pcie_proc_reboot_write K removal_later i buf n pos g w = ((r, pos', g'), w')" "plat_ok g" "i < AMBA_PCI_DEV_MAX"
  shows "plat_ok g' \<and> slots_change driven g g'"
  using assms(1)
proof (cases rule: reboot_cases_later)
  case refused
  then show ?thesis using assms(2) by simp
next
  case (accepted pd)
  let ?e = "(g_devs g ! i)\<lparr>e_state := AMBA_PCI_STATE_REBOOTING\<rparr>"
  have "slot_change driven (g_devs g ! i) ?e"
    by (rule change_moved) (use accepted in \<open>simp_all add: abs_slot_def driven_reboot\<close>)
  then show ?thesis
    unfolding accepted(4) using entry_step [OF assms(2,3) rebooting_ok [OF plat_ok_slot [OF assms(2,3)] accepted(3,2)]] by blast
qed

end
