(* ===== verification/System_Safety.thy ===== *)
theory System_Safety
  imports Driver_System
begin

section \<open>Invariants of the interleaved driver\<close>

text \<open>
  What every reachable state of the whole driver satisfies, whatever order its handlers run in:
  the slots are well formed, a booting card has a timeout that is armed or about to run, and the
  ledgers of mappings, proc directories and device references are covered by the slots.
\<close>

subsection \<open>The ledgers of the handlers\<close>

context ledger
begin

lemma quiet_plat_gap: "quiet w w' \<Longrightarrow> plat_gap wt own g w' = plat_gap wt own g w"
  by (simp add: plat_gap_def quiet_balance)

lemma entry_gap:
  assumes "gap wt own e w2 = gap wt own (g_devs g ! i) w1" "i < AMBA_PCI_DEV_MAX" "plat_ok g" "quiet w w1" "quiet w2 w'"
  shows "plat_gap wt own (set_entry g i e) w' = plat_gap wt own g w"
proof -
  have "plat_gap wt own (set_entry g i e) w2 = plat_gap wt own g w1"
    by (rule set_entry_gap_same [OF assms(1)]) (use assms(2,3) in \<open>simp add: plat_ok_def\<close>)
  then show ?thesis using quiet_plat_gap [OF assms(4)] quiet_plat_gap [OF assms(5)] by simp
qed

lemma xfer_locked_gap:
  assumes "xfer_firmware_locked K req e w = Some ((res, e', hot), w')" "slot_ok i e"
  shows "gap wt own e' w' = gap wt own e w"
proof -
  have bar: "e_boot_bar e < 6" using assms(2) by (simp add: slot_ok_def)
  from assms show ?thesis
  proof (cases rule: xfer_locked_cases)
    case (not_ready r w1 pd)
    have "quiet w1 w'" using quiet_rcalls [OF wait_ep_ready_frame(2) [OF not_ready(7)]] quiet_trans [of w1 "kdo K (KC_pci_set_master (pd_handle pd)) w1"] by simp
    then show ?thesis using refresh_gap [OF not_ready(6) bar] quiet_gap [of w1 w' e'] by simp
  next
    case (images e1 w1 w2 pd)
    then obtain w3 where x: "xfer_images K req e1 pcie_fw_xfer_order w2 = Some (res, w3)"
      and fin: "if res = Ret 0
         then hot \<and> (e', w') = pcie_boot_timeout_schedule K (unat (fx_slot_id req)) (e1\<lparr>e_state := AMBA_PCI_STATE_BOOTING\<rparr>) w3
         else \<not> hot \<and> e' = e1 \<and> w' = w3" by blast
    have "quiet w1 w2" using quiet_rcalls [OF wait_ep_ready_frame(2) [OF images(5)]] quiet_trans [of w1 "kdo K (KC_pci_set_master (pd_handle pd)) w1"] by simp
    then have "quiet w1 w3" using xfer_images_quiet [OF x] quiet_trans by blast
    then have g3: "gap wt own e1 w3 = gap wt own e w" using refresh_gap [OF images(4) bar] quiet_gap [of w1 w3 e1] by simp
    show ?thesis
    proof (cases "res = Ret 0")
      case True
      with fin have "pcie_boot_timeout_schedule K (unat (fx_slot_id req)) (e1\<lparr>e_state := AMBA_PCI_STATE_BOOTING\<rparr>) w3 = (e', w')" by simp
      from schedule_gap [OF this] have "gap wt own e' w' = gap wt own e1 w3"
        using gap_board [of "e1\<lparr>e_state := AMBA_PCI_STATE_BOOTING\<rparr>" e1 w3] by simp
      with g3 show ?thesis by simp
    next
      case False
      with fin g3 show ?thesis by simp
    qed
  qed (use refresh_gap bar in auto)
qed

lemma ioctl_gap:
  assumes "pcie_file_ioctl K shl removal_later cmd arg g w = Some ((res, g'), w')" "plat_ok g"
  shows "plat_gap wt own g' w' = plat_gap wt own g w"
proof -
  consider (query) r where "pcie_ioctl_query_platform_info K arg g w = ((r, g'), w')"
    | (xfer) "pcie_ioctl_xfer_firmware K shl removal_later arg g w = Some ((res, g'), w')" | (other) "g' = g" "quiet w w'"
    using assms(1) send_file_quiet [of K arg g w] send_buffer_quiet [of K arg g w]
    by (auto simp: pcie_file_ioctl_def bind_eq_Some_conv split: if_splits prod.splits)
  then show ?thesis
  proof cases
    case query
    then show ?thesis
    proof (cases rule: query_ioctl_cases)
      case null
      then show ?thesis by simp
    next
      case (ran infos es n w1 left info)
      have "\<forall>e \<in> set (g_devs g). e_boot_bar e < 6"
        using assms(2) by (auto simp: plat_ok_def slot_ok_def in_set_conv_nth)
      from query_all_gap [OF ran(2) this] have "plat_gap wt own g' w1 = plat_gap wt own g (kdo K KC_mutex_lock w)"
        using ran(4) by (simp add: plat_gap_def)
      moreover have "quiet w1 w'" using quiet_kcallD [OF ran(5), of w1] by simp
      ultimately show ?thesis using quiet_plat_gap [of w1 w' g'] quiet_plat_gap [of w "kdo K KC_mutex_lock w" g] by simp
    qed
  next
    case xfer
    from xfer assms(2) show ?thesis
    proof (cases rule: xfer_ioctl_later)
      case rejected
      then show ?thesis by simp
    next
      case (ran req i e hot w1)
      note g = xfer_locked_gap [OF ran(3) plat_ok_slot [OF assms(2) ran(1)]]
      show ?thesis unfolding ran(2) by (rule entry_gap [OF g ran(1) assms(2)]) (use ran(4) in auto)
    qed
  next
    case other
    then show ?thesis using quiet_plat_gap by simp
  qed
qed

lemma read_gap:
  assumes "rd buf n pos g w = ((r, pos', g'), w')" "plat_ok g" "i < AMBA_PCI_DEV_MAX"
    and "proc_read ops K net_text log_text i = Some rd"
  shows "plat_gap wt own g' w' = plat_gap wt own g w"
  using assms(4,1)
proof (cases rule: read_cases)
  case pure
  then show ?thesis using quiet_plat_gap [of w w' g] silentD by auto
next
  case (info d e w1 w2)
  have "e_boot_bar (g_devs g ! i) < 6" using plat_ok_slot [OF assms(2,3)] by (simp add: slot_ok_def)
  note q = query_gap [OF info(1) this]
  have q1: "quiet w (kdo K KC_mutex_lock w1)" using silentD [OF info(3)] by simp
  have q2: "quiet w2 w'" using silentD [OF info(4)] quiet_trans [of w2 "kdo K KC_mutex_unlock w2"] by simp
  show ?thesis unfolding info(2) by (rule entry_gap [OF q assms(3,2) q1 q2])
qed

lemma reboot_gap:
  assumes "pcie_proc_reboot_write K removal_later i buf n pos g w = ((r, pos', g'), w')" "plat_ok g" "i < AMBA_PCI_DEV_MAX"
  shows "plat_gap wt own g' w' = plat_gap wt own g w"
  using assms(1)
proof (cases rule: reboot_cases_later)
  case refused
  then show ?thesis using quiet_plat_gap by simp
next
  case (accepted pd)
  have g: "gap wt own ((g_devs g ! i)\<lparr>e_state := AMBA_PCI_STATE_REBOOTING\<rparr>) w = gap wt own (g_devs g ! i) w"
    by (rule gap_board) simp_all
  show ?thesis unfolding accepted(4) by (rule entry_gap [OF g assms(3,2) quiet_refl accepted(5)])
qed

lemma notify_gap:
  assumes "pcie_pci_bus_notify K a is_pci pd g w = ((r, g'), w')" "plat_ok g"
  shows "plat_gap wt own g' w' = plat_gap wt own g w \<or>
    (\<exists>i < AMBA_PCI_DEV_MAX. e_state (g_devs g ! i) = AMBA_PCI_STATE_BOOTING \<and>
       plat_gap wt own g' w' = plat_gap wt own g w + overwritten own (g_devs g ! i))"
proof -
  have lock: "plat_gap wt own g (kdo K KC_mutex_lock w) = plat_gap wt own g w" by (rule quiet_plat_gap) simp
  have unlock: "plat_gap wt own g1 (kdo K KC_mutex_unlock w1) = plat_gap wt own g1 w1" for g1 and w1 :: "'a world"
    by (rule quiet_plat_gap) simp
  obtain ga wa where a: "pcie_handle_add_locked K pd g (kdo K KC_mutex_lock w) = (ga, wa)" by (metis prod.exhaust)
  obtain gd wd where d: "pcie_handle_del_locked K pd g (kdo K KC_mutex_lock w) = (gd, wd)" by (metis prod.exhaust)
  consider "g' = g" "w' = w" | "g' = ga" "w' = kdo K KC_mutex_unlock wa" | "g' = gd" "w' = kdo K KC_mutex_unlock wd"
    using assms(1) a d by (auto simp: pcie_pci_bus_notify_def split: if_splits)
  then show ?thesis
  proof cases
    case 2
    from handle_add_gap [OF a assms(2)] show ?thesis unfolding 2 unlock lock by blast
  next
    case 3
    from handle_del_gap [OF d assms(2)] show ?thesis unfolding 3 unlock lock by blast
  qed simp
qed

end

subsection \<open>The invariant\<close>

definition booting_watched :: "amba_pci_platform \<Rightarrow> nat set \<Rightarrow> bool" where
  "booting_watched g rs \<longleftrightarrow>
     (\<forall>i < AMBA_PCI_DEV_MAX. e_state (g_devs g ! i) = AMBA_PCI_STATE_BOOTING \<longrightarrow> e_work_pending (g_devs g ! i) \<or> i \<in> rs)"

lemma watched_set_entry:
  assumes "booting_watched g rs" "plat_ok g" "i < AMBA_PCI_DEV_MAX"
    "\<And>j. j \<in> rs \<Longrightarrow> j \<noteq> i \<Longrightarrow> j \<in> rs'" "e_state e = AMBA_PCI_STATE_BOOTING \<Longrightarrow> e_work_pending e \<or> i \<in> rs'"
  shows "booting_watched (set_entry g i e) rs'"
proof -
  have "i < length (g_devs g)" using assms(2,3) by (simp add: plat_ok_def)
  with assms(1,4,5) show ?thesis by (auto simp: booting_watched_def set_entry_def nth_list_update)
qed

definition ledgers_ok :: "amba_pci_platform \<Rightarrow> 'd world \<Rightarrow> bool" where
  "ledgers_ok g w \<longleftrightarrow> plat_gap map_wt map_own g w = 0 \<and> plat_gap proc_wt proc_own g w = 0 \<and>
     (\<forall>h. 0 \<le> plat_gap (ref_wt h) (ref_own h) g w)"

definition sys_ok :: "'d sys \<Rightarrow> bool" where
  "sys_ok s \<longleftrightarrow> plat_ok (sys_plat s) \<and> sys_run s \<subseteq> {..<AMBA_PCI_DEV_MAX} \<and>
     booting_watched (sys_plat s) (sys_run s) \<and> ledgers_ok (sys_plat s) (sys_world s)"

lemma watched_change:
  assumes "booting_watched g rs" "slots_change R g g'" "plat_ok g'"
  shows "booting_watched g' rs"
  unfolding booting_watched_def
proof (intro allI impI)
  fix i :: nat assume i: "i < 4" "e_state (g_devs g' ! i) = AMBA_PCI_STATE_BOOTING"
  have old: "e_state (g_devs g ! i) = AMBA_PCI_STATE_BOOTING \<Longrightarrow> e_work_pending (g_devs g ! i) \<or> i \<in> rs"
    using assms(1) i(1) by (simp add: booting_watched_def)
  have "slot_change R (g_devs g ! i) (g_devs g' ! i)" using assms(2) i(1) by (simp add: slots_change_def)
  then show "e_work_pending (g_devs g' ! i) \<or> i \<in> rs"
    by cases (use i old plat_ok_slot [OF assms(3) i(1)] in \<open>auto simp: abs_slot_def slot_ok_def split: if_splits\<close>)
qed

lemma ledgers_same:
  assumes "ledgers_ok g w" "plat_gap map_wt map_own g' w' = plat_gap map_wt map_own g w"
    "plat_gap proc_wt proc_own g' w' = plat_gap proc_wt proc_own g w"
    "\<And>h. plat_gap (ref_wt h) (ref_own h) g w \<le> plat_gap (ref_wt h) (ref_own h) g' w'"
  shows "ledgers_ok g' w'"
  using assms order_trans unfolding ledgers_ok_def by metis

lemma ledgers_notify:
  assumes "pcie_pci_bus_notify K a is_pci pd g w = ((r, g'), w')" "plat_ok g" "ledgers_ok g w"
  shows "ledgers_ok g' w'"
proof (rule ledgers_same [OF assms(3)])
  show "plat_gap map_wt map_own g' w' = plat_gap map_wt map_own g w"
    using maps.notify_gap [OF assms(1,2)] by (auto simp: overwritten_eval)
  show "plat_gap proc_wt proc_own g' w' = plat_gap proc_wt proc_own g w"
    using procs.notify_gap [OF assms(1,2)] by (auto simp: overwritten_eval)
  show "plat_gap (ref_wt h) (ref_own h) g w \<le> plat_gap (ref_wt h) (ref_own h) g' w'" for h
    using refs.notify_gap [OF assms(1,2), of h] overwritten_eval(3) by auto
qed

lemma sys_ok_change:
  assumes "sys_ok \<lparr>sys_plat = g, sys_world = w, sys_run = rs\<rparr>" "plat_ok g' \<and> slots_change R g g'" "ledgers_ok g' w'"
  shows "sys_ok \<lparr>sys_plat = g', sys_world = w', sys_run = rs\<rparr>"
  using assms watched_change [of g rs R g'] by (simp add: sys_ok_def)

text \<open>The two halves of a boot timeout.\<close>

lemma expire_ok:
  assumes "sys_ok \<lparr>sys_plat = g, sys_world = w, sys_run = rs\<rparr>" "i < AMBA_PCI_DEV_MAX"
  shows "sys_ok \<lparr>sys_plat = set_entry g i ((g_devs g ! i)\<lparr>e_work_pending := False\<rparr>), sys_world = w, sys_run = insert i rs\<rparr>"
proof -
  let ?e = "(g_devs g ! i)\<lparr>e_work_pending := False\<rparr>"
  have g: "plat_ok g" "ledgers_ok g w" "booting_watched g rs" "rs \<subseteq> {..<4}" using assms(1) by (simp_all add: sys_ok_def)
  have "slot_ok i ?e" using plat_ok_slot [OF g(1) assms(2)] by (auto simp: slot_ok_def bar_chosen_def)
  then have ok: "plat_ok (set_entry g i ?e)" by (rule set_entry_ok [OF g(1) assms(2)])
  have i: "i < length (g_devs g)" using assms(2) g(1) by (simp add: plat_ok_def)
  have "ledgers_ok (set_entry g i ?e) w"
  proof (rule ledgers_same [OF g(2)])
    show "plat_gap map_wt map_own (set_entry g i ?e) w = plat_gap map_wt map_own g w"
      by (rule set_entry_gap_same [OF maps.gap_board i]) simp_all
    show "plat_gap proc_wt proc_own (set_entry g i ?e) w = plat_gap proc_wt proc_own g w"
      by (rule set_entry_gap_same [OF procs.gap_board i]) simp_all
    show "plat_gap (ref_wt h) (ref_own h) g w \<le> plat_gap (ref_wt h) (ref_own h) (set_entry g i ?e) w" for h
      by (rule eq_refl, rule set_entry_gap_same [OF refs.gap_board i, symmetric]) simp_all
  qed
  moreover have "booting_watched (set_entry g i ?e) (insert i rs)"
    by (rule watched_set_entry [OF g(3,1) assms(2)]) auto
  ultimately show ?thesis using ok g(4) assms(2) by (simp add: sys_ok_def)
qed

lemma timeout_ok:
  assumes "sys_ok \<lparr>sys_plat = g, sys_world = w, sys_run = rs\<rparr>" "i \<in> rs"
    and t: "pcie_boot_timeout_fn K (g_devs g ! i) w = (e, w')"
  shows "sys_ok \<lparr>sys_plat = set_entry g i e, sys_world = w', sys_run = rs - {i}\<rparr>"
proof -
  have g: "plat_ok g" "ledgers_ok g w" "booting_watched g rs" "rs \<subseteq> {..<4}" using assms(1) by (simp_all add: sys_ok_def)
  have i4: "i < 4" using g(4) assms(2) by auto
  note s = plat_ok_slot [OF g(1) i4]
  have e: "e = (if e_in_use (g_devs g ! i) \<and> e_state (g_devs g ! i) = AMBA_PCI_STATE_BOOTING
      then (g_devs g ! i)\<lparr>e_state := AMBA_PCI_STATE_BOOT_FAILED\<rparr> else g_devs g ! i)"
    using timeout_fn_result [of K "g_devs g ! i" w] t by simp
  have ok: "plat_ok (set_entry g i e)" using timeout_fn_ok [OF s, of K w] t set_entry_ok [OF g(1) i4] by simp
  have i: "i < length (g_devs g)" using i4 g(1) by (simp add: plat_ok_def)
  have "ledgers_ok (set_entry g i e) w'"
  proof (rule ledgers_same [OF g(2)])
    show "plat_gap map_wt map_own (set_entry g i e) w' = plat_gap map_wt map_own g w"
      by (rule set_entry_gap_same [OF maps.timeout_fn_gap [OF t] i])
    show "plat_gap proc_wt proc_own (set_entry g i e) w' = plat_gap proc_wt proc_own g w"
      by (rule set_entry_gap_same [OF procs.timeout_fn_gap [OF t] i])
    show "plat_gap (ref_wt h) (ref_own h) g w \<le> plat_gap (ref_wt h) (ref_own h) (set_entry g i e) w'" for h
      by (rule eq_refl, rule set_entry_gap_same [OF refs.timeout_fn_gap [OF t] i, symmetric])
  qed
  moreover have "e_state e \<noteq> AMBA_PCI_STATE_BOOTING" using s by (auto simp: e slot_ok_def)
  then have "booting_watched (set_entry g i e) (rs - {i})"
    by (intro watched_set_entry [OF g(3,1) i4]) auto
  ultimately show ?thesis using ok g(4) by (auto simp: sys_ok_def)
qed

lemma driver_step_ok:
  assumes "driver_step K shl s l t" "sys_ok s"
  shows "sys_ok t"
  using assms
proof cases
  case (step_notify a is_pci pd g w r g' w' rs)
  have p: "plat_ok g" "ledgers_ok g w" using assms(2) unfolding step_notify(1) by (simp_all add: sys_ok_def)
  have "plat_ok g' \<and> slots_change plugged g g'"
    using notify_change [OF step_notify(4) p(1)] bus_notify_ok(1) [OF step_notify(4) p(1)] by simp
  from sys_ok_change [OF assms(2) [unfolded step_notify(1)] this ledgers_notify [OF step_notify(4) p]] step_notify(3)
  show ?thesis by simp
next
  case (step_expire i g rs w)
  then show ?thesis using expire_ok assms(2) by simp
next
  case (step_timeout i rs g w e w')
  then show ?thesis using timeout_ok assms(2) by simp
next
  case (step_ioctl cmd arg g w r g' w' rs)
  have p: "plat_ok g" "ledgers_ok g w" using assms(2) unfolding step_ioctl(1) by (simp_all add: sys_ok_def)
  have "ledgers_ok g' w'"
    by (rule ledgers_same [OF p(2)])
      (simp_all add: maps.ioctl_gap [OF step_ioctl(4) p(1)] procs.ioctl_gap [OF step_ioctl(4) p(1)] refs.ioctl_gap [OF step_ioctl(4) p(1)])
  from sys_ok_change [OF assms(2) [unfolded step_ioctl(1)] ioctl_change [OF step_ioctl(4) p(1)] this] step_ioctl(3) show ?thesis by simp
next
  case (step_read i rd buf n pos g w r pos' g' w' ops net_text log_text rs)
  have p: "plat_ok g" "ledgers_ok g w" using assms(2) unfolding step_read(1) by (simp_all add: sys_ok_def)
  note h = step_read(5) p(1) step_read(4,6)
  have "ledgers_ok g' w'"
    by (rule ledgers_same [OF p(2)]) (simp_all add: maps.read_gap [OF h] procs.read_gap [OF h] refs.read_gap [OF h])
  from sys_ok_change [OF assms(2) [unfolded step_read(1)] read_change [OF h] this] step_read(3) show ?thesis by simp
next
  case (step_write i wr buf n pos g w r pos' g' w' ops rs)
  have p: "plat_ok g" "ledgers_ok g w" using assms(2) unfolding step_write(1) by (simp_all add: sys_ok_def)
  note h = step_write(5) [unfolded proc_write_reboot [OF step_write(6)]] p(1) step_write(4)
  have "ledgers_ok g' w'"
    by (rule ledgers_same [OF p(2)]) (simp_all add: maps.reboot_gap [OF h] procs.reboot_gap [OF h] refs.reboot_gap [OF h])
  from sys_ok_change [OF assms(2) [unfolded step_write(1)] reboot_change [OF h] this] step_write(3) show ?thesis by simp
qed

interpretation driver: invariant_system "driver_step K shl" sys_ok for K shl
  by unfold_locales (rule driver_step_ok)

subsection \<open>Every run from module load\<close>

definition fresh_sys :: "int \<Rightarrow> 'd world \<Rightarrow> 'd sys" where
  "fresh_sys root w = \<lparr>sys_plat = zero_platform\<lparr>g_proc_root := root\<rparr>, sys_world = w, sys_run = {}\<rparr>"

lemma sum_list_own: "sum_list (map (\<lambda>e. if P e then 1 else 0) es) = int (length (filter P es))"
  by (induction es) simp_all

lemma ref_own_nonzero: "h \<noteq> 0 \<Longrightarrow> ref_own h e = (if \<exists>pd. e_pdev e = Some pd \<and> pd_handle pd = h then 1 else 0)"
  by (simp add: ref_own_def split: option.splits)

lemma fresh_sys_ok: "calls w = [] \<Longrightarrow> sys_ok (fresh_sys root w)"
proof -
  assume "calls w = []"
  then have b: "balance wt w = 0" for wt by (simp add: balance_def rcalls_def)
  have "plat_ok (zero_platform\<lparr>g_proc_root := root\<rparr>)" using zero_platform_ok by (simp add: plat_ok_def)
  moreover have "ledgers_ok (zero_platform\<lparr>g_proc_root := root\<rparr>) w"
    by (simp add: ledgers_ok_def plat_gap_def b zero_platform_def map_own_def proc_own_def ref_own_def zero_entry_def
        sum_list_replicate)
  moreover have "booting_watched (zero_platform\<lparr>g_proc_root := root\<rparr>) {}"
    using calculation(1) by (auto simp: booting_watched_def zero_platform_def zero_entry_def)
  ultimately show ?thesis by (simp add: sys_ok_def fresh_sys_def)
qed

text \<open>C1: Whatever the driver's handlers do after load, in whatever order and however often: every slot
  stays well formed, a booting card always has a boot timeout that is armed or about to run, as
  many boot BARs are mapped and as many proc directories exist as the slots record, and every
  device a slot points to is held by at least as many references as slots point to it.\<close>

theorem driver_runs_safe:
  assumes "run (driver_step K shl) (fresh_sys root w) ls t" and "calls w = []"
  shows "plat_ok (sys_plat t) \<and>
    (\<forall>i < AMBA_PCI_DEV_MAX. e_state (g_devs (sys_plat t) ! i) = AMBA_PCI_STATE_BOOTING \<longrightarrow>
       e_work_pending (g_devs (sys_plat t) ! i) \<or> i \<in> sys_run t) \<and>
    balance map_wt (sys_world t) = int (length (filter (\<lambda>e. e_boot_mem_base e \<noteq> 0) (g_devs (sys_plat t)))) \<and>
    balance proc_wt (sys_world t) = int (length (filter (\<lambda>e. e_proc_dir e \<noteq> 0) (g_devs (sys_plat t)))) \<and>
    (\<forall>h. h \<noteq> 0 \<longrightarrow> int (length (filter (\<lambda>e. \<exists>pd. e_pdev e = Some pd \<and> pd_handle pd = h) (g_devs (sys_plat t))))
       \<le> balance (ref_wt h) (sys_world t))"
proof -
  have ok: "sys_ok t" by (rule driver.run_inv [OF assms(1) fresh_sys_ok [OF assms(2)]])
  then have l: "ledgers_ok (sys_plat t) (sys_world t)" by (simp add: sys_ok_def)
  then have bal: "balance map_wt (sys_world t) = sum_list (map map_own (g_devs (sys_plat t)))"
    "balance proc_wt (sys_world t) = sum_list (map proc_own (g_devs (sys_plat t)))"
    "\<And>h. sum_list (map (ref_own h) (g_devs (sys_plat t))) \<le> balance (ref_wt h) (sys_world t)"
    by (simp_all add: ledgers_ok_def plat_gap_def)
  have refs: "int (length (filter (\<lambda>e. \<exists>pd. e_pdev e = Some pd \<and> pd_handle pd = h) (g_devs (sys_plat t))))
      \<le> balance (ref_wt h) (sys_world t)" if "h \<noteq> 0" for h
    using bal(3) [of h] unfolding ref_own_nonzero [OF that] sum_list_own .
  show ?thesis
    using ok bal(1,2) refs
    by (simp add: sys_ok_def booting_watched_def map_own_def [abs_def] proc_own_def [abs_def] sum_list_own)
qed

lemma demo_found_step:
  "\<exists>g' w'. driver_step demo_kernel shl (fresh_sys 1 demo_world) (Notify BUS_NOTIFY_ADD_DEVICE True demo_pci_dev)
     \<lparr>sys_plat = g', sys_world = w', sys_run = {}\<rparr>"
proof -
  obtain r g' w' where "pcie_pci_bus_notify demo_kernel BUS_NOTIFY_ADD_DEVICE True demo_pci_dev
      (zero_platform\<lparr>g_proc_root := 1\<rparr>) demo_world = ((r, g'), w')" by (metis prod.exhaust)
  from step_notify [OF this] show ?thesis unfolding fresh_sys_def by blast
qed

theorem driver_runs_safe_witness:
  "\<exists>t. run (driver_step demo_kernel (\<lambda>x. x)) (fresh_sys 1 demo_world) [Notify BUS_NOTIFY_ADD_DEVICE True demo_pci_dev] t \<and>
     plat_ok (sys_plat t)"
proof -
  obtain g' w' where "driver_step demo_kernel (\<lambda>x. x) (fresh_sys 1 demo_world) (Notify BUS_NOTIFY_ADD_DEVICE True demo_pci_dev)
     \<lparr>sys_plat = g', sys_world = w', sys_run = {}\<rparr>" using demo_found_step by blast
  then have run: "run (driver_step demo_kernel (\<lambda>x. x)) (fresh_sys 1 demo_world) [Notify BUS_NOTIFY_ADD_DEVICE True demo_pci_dev]
     \<lparr>sys_plat = g', sys_world = w', sys_run = {}\<rparr>" by (blast intro: run.intros)
  have "calls demo_world = []" by (simp add: calls_def demo_world_def)
  from driver_runs_safe [OF run this] run show ?thesis by blast
qed

subsection \<open>The life of a slot\<close>

fun hotplug_step :: "step_label \<Rightarrow> bool" where
  "hotplug_step (Notify a is_pci pd) = True"
| "hotplug_step (Expire i) = False"
| "hotplug_step (Timeout i) = False"
| "hotplug_step (Ioctl cmd arg r) = False"
| "hotplug_step (Read_File ops i buf n pos r) = False"
| "hotplug_step (Write_File ops i buf n pos r) = False"

lemma expire_change:
  assumes "plat_ok g" "i < AMBA_PCI_DEV_MAX" "j < AMBA_PCI_DEV_MAX"
  shows "abs_slot (g_devs (set_entry g i ((g_devs g ! i)\<lparr>e_work_pending := False\<rparr>)) ! j) = abs_slot (g_devs g ! j)"
  using assms by (simp add: set_entry_nth plat_ok_def abs_slot_def)

lemma timeout_change:
  assumes t: "pcie_boot_timeout_fn K (g_devs g ! i) w = (e, w')" and "plat_ok g" "i < AMBA_PCI_DEV_MAX" "j < AMBA_PCI_DEV_MAX"
  shows "abs_slot (g_devs (set_entry g i e) ! j) =
    (if j = i \<and> e_state (g_devs g ! i) = AMBA_PCI_STATE_BOOTING then Card AMBA_PCI_STATE_BOOT_FAILED (e_pdev (g_devs g ! i))
     else abs_slot (g_devs g ! j))"
proof -
  have e: "e = (if e_in_use (g_devs g ! i) \<and> e_state (g_devs g ! i) = AMBA_PCI_STATE_BOOTING
      then (g_devs g ! i)\<lparr>e_state := AMBA_PCI_STATE_BOOT_FAILED\<rparr> else g_devs g ! i)"
    using timeout_fn_result [of K "g_devs g ! i" w] t by simp
  show ?thesis
    using assms(2-4) plat_ok_slot [OF assms(2,3)]
    by (auto simp: set_entry_nth plat_ok_def abs_slot_def e slot_ok_def)
qed

lemma step_moves:
  assumes "driver_step K shl s l t" "sys_ok s" "i < AMBA_PCI_DEV_MAX"
  shows "abs_slot (g_devs (sys_plat t) ! i) = abs_slot (g_devs (sys_plat s) ! i) \<or>
    (if hotplug_step l then plugged else driven) (abs_slot (g_devs (sys_plat s) ! i)) (abs_slot (g_devs (sys_plat t) ! i))"
proof -
  have moved: "abs_slot (g_devs g' ! i) = abs_slot (g_devs g ! i) \<or> R (abs_slot (g_devs g ! i)) (abs_slot (g_devs g' ! i))"
    if "slots_change R g g'" for R g g'
    using that assms(3) by (auto simp: slots_change_def dest: slot_change_abs)
  have ok: "plat_ok (sys_plat s)" "sys_run s \<subseteq> {..<4}" using assms(2) by (simp_all add: sys_ok_def)
  from assms(1) show ?thesis
  proof cases
    case (step_notify a is_pci pd g w r g' w' rs)
    then show ?thesis using moved [OF notify_change [OF step_notify(4)]] ok by simp
  next
    case (step_expire k g rs w)
    then show ?thesis using expire_change assms(3) ok(1) by simp
  next
    case (step_timeout k rs g w e w')
    then have k: "k < 4" "plat_ok g" using ok by auto
    have "g_devs g ! k = g_devs (sys_plat s) ! k" "slot_ok k (g_devs g ! k)"
      using step_timeout(1) plat_ok_slot [OF k(2,1)] by simp_all
    then show ?thesis
      using timeout_change [OF step_timeout(5) k(2,1) assms(3)] step_timeout(1-3)
        driven_late [of "e_pdev (g_devs g ! k)"]
      by (auto simp: abs_slot_def slot_ok_def)
  next
    case (step_ioctl cmd arg g w r g' w' rs)
    then show ?thesis using moved [OF conjunct2 [OF ioctl_change [OF step_ioctl(4)]]] ok by simp
  next
    case (step_read k rd buf n pos g w r pos' g' w' ops net_text log_text rs)
    then show ?thesis using moved [OF conjunct2 [OF read_change [OF step_read(5) _ step_read(4,6)]]] ok by simp
  next
    case (step_write k wr buf n pos g w r pos' g' w' ops rs)
    then show ?thesis
      using moved [OF conjunct2 [OF reboot_change [OF step_write(5) [unfolded proc_write_reboot [OF step_write(6)]] _ step_write(4)]]] ok
      by simp
  qed
qed

text \<open>A concrete state: a card that was given its firmware and has been away since.\<close>

definition booting_sys :: "nat sys" where
  "booting_sys = \<lparr>sys_plat = set_entry demo_platform 0
       (demo_entry\<lparr>e_state := AMBA_PCI_STATE_BOOTING, e_work_pending := True\<rparr>),
     sys_world = demo_world\<lparr>w_trc := [Call (KC_proc_mkdir (slot_proc_name 0)) 1, Call (KC_pci_dev_get (pd_handle demo_pci_dev)) 0]\<rparr>,
     sys_run = {}\<rparr>"

lemma booting_sys_plat: "g_devs (sys_plat booting_sys) =
    [demo_entry\<lparr>e_state := AMBA_PCI_STATE_BOOTING, e_work_pending := True\<rparr>, zero_entry, zero_entry, zero_entry]"
  by (simp add: booting_sys_def set_entry_def demo_platform_def zero_platform_def numeral_eq_Suc)

lemma booting_sys_ok: "sys_ok booting_sys"
proof -
  have "slot_ok 0 (demo_entry\<lparr>e_state := AMBA_PCI_STATE_BOOTING, e_work_pending := True\<rparr>)"
    by (rule booting_ok [OF demo_entry_ok]) (simp add: demo_entry_def)
  then have ok: "plat_ok (sys_plat booting_sys)"
    unfolding booting_sys_def by (simp add: set_entry_ok [OF demo_platform_ok])
  have "rcalls (sys_world booting_sys) = [(KC_proc_mkdir (slot_proc_name 0), 1), (KC_pci_dev_get (pd_handle demo_pci_dev), 0)]"
    by (simp add: booting_sys_def rcalls_def calls_def)
  then have "ledgers_ok (sys_plat booting_sys) (sys_world booting_sys)"
    by (auto simp: ledgers_ok_def plat_gap_def balance_def booting_sys_plat map_own_def proc_own_def ref_own_def
        demo_entry_def zero_entry_def)
  moreover have "booting_watched (sys_plat booting_sys) (sys_run booting_sys)"
    by (auto simp: booting_watched_def booting_sys_plat zero_entry_def elim!: less_4_cases)
  ultimately show ?thesis using ok by (simp add: sys_ok_def booting_sys_def)
qed

lemma booting_sys_expires:
  "\<exists>t. driver_step K shl booting_sys (Expire 0) t"
proof -
  have "e_work_pending (g_devs (sys_plat booting_sys) ! 0)" by (simp add: booting_sys_plat)
  from step_expire [OF _ this, of "{}" K shl "sys_world booting_sys"] show ?thesis
    unfolding booting_sys_def by auto
qed

text \<open>C8: Every step of the driver either leaves the state and the device of a slot alone or takes it one
  step along its state machine, the hotplug part for a notification and the driver's own part for
  everything else.\<close>

theorem slot_moves_specified:
  assumes "driver_step K shl s l t" and "sys_ok s" and "i < AMBA_PCI_DEV_MAX"
  shows "abs_slot (g_devs (sys_plat t) ! i) = abs_slot (g_devs (sys_plat s) ! i) \<or>
    (if hotplug_step l then plugged else driven) (abs_slot (g_devs (sys_plat s) ! i)) (abs_slot (g_devs (sys_plat t) ! i))"
  using assms by (rule step_moves)

theorem slot_moves_specified_witness:
  "\<exists>t. driver_step demo_kernel (\<lambda>x. x) booting_sys (Expire 0) t \<and>
     (abs_slot (g_devs (sys_plat t) ! 0) = Card AMBA_PCI_STATE_BOOTING (Some demo_pci_dev) \<or>
      driven (Card AMBA_PCI_STATE_BOOTING (Some demo_pci_dev)) (abs_slot (g_devs (sys_plat t) ! 0)))"
proof -
  obtain t where st: "driver_step demo_kernel (\<lambda>x. x) booting_sys (Expire 0) t" using booting_sys_expires by blast
  have "abs_slot (g_devs (sys_plat booting_sys) ! 0) = Card AMBA_PCI_STATE_BOOTING (Some demo_pci_dev)"
    by (simp add: booting_sys_plat abs_slot_def demo_entry_def)
  with slot_moves_specified [OF st booting_sys_ok, of 0] st show ?thesis by (intro exI [of _ t]) simp
qed

lemma timeout_runs:
  assumes "sys_ok s" "i \<in> sys_run s" "e_state (g_devs (sys_plat s) ! i) = AMBA_PCI_STATE_BOOTING"
  shows "\<exists>t. driver_step K shl s (Timeout i) t \<and>
    (\<forall>j < AMBA_PCI_DEV_MAX. abs_slot (g_devs (sys_plat t) ! j) =
       (if j = i then Card AMBA_PCI_STATE_BOOT_FAILED (e_pdev (g_devs (sys_plat s) ! i)) else abs_slot (g_devs (sys_plat s) ! j)))"
proof -
  obtain g w rs where s: "s = \<lparr>sys_plat = g, sys_world = w, sys_run = rs\<rparr>" by (cases s) simp
  obtain e w' where t: "pcie_boot_timeout_fn K (g_devs g ! i) w = (e, w')" by (metis prod.exhaust)
  have g: "plat_ok g" "i < 4" using assms(1,2) unfolding s by (auto simp: sys_ok_def)
  from step_timeout [OF _ t, of rs shl] timeout_change [OF t g] assms(2,3) show ?thesis unfolding s by auto
qed

text \<open>Where the invariant holds the timeout of a booting slot can fire, and fails it.\<close>

lemma booting_slot_fails:
  assumes "sys_ok s" and "i < AMBA_PCI_DEV_MAX" and "e_state (g_devs (sys_plat s) ! i) = AMBA_PCI_STATE_BOOTING"
  shows "\<exists>ls t. run (driver_step K shl) s ls t \<and> ls \<in> {[Timeout i], [Expire i, Timeout i]} \<and>
    (\<forall>j < AMBA_PCI_DEV_MAX. abs_slot (g_devs (sys_plat t) ! j) =
       (if j = i then Card AMBA_PCI_STATE_BOOT_FAILED (e_pdev (g_devs (sys_plat s) ! i)) else abs_slot (g_devs (sys_plat s) ! j)))"
proof (cases "i \<in> sys_run s")
  case True
  from timeout_runs [OF assms(1) this assms(3)] obtain t where
    "driver_step K shl s (Timeout i) t" "\<forall>j < AMBA_PCI_DEV_MAX. abs_slot (g_devs (sys_plat t) ! j) =
       (if j = i then Card AMBA_PCI_STATE_BOOT_FAILED (e_pdev (g_devs (sys_plat s) ! i)) else abs_slot (g_devs (sys_plat s) ! j))"
    by blast
  then show ?thesis by (intro exI [of _ "[Timeout i]"] exI [of _ t]) (auto intro: run.intros)
next
  case False
  obtain g w rs where s: "s = \<lparr>sys_plat = g, sys_world = w, sys_run = rs\<rparr>" by (cases s) simp
  let ?e = "(g_devs g ! i)\<lparr>e_work_pending := False\<rparr>"
  let ?s = "\<lparr>sys_plat = set_entry g i ?e, sys_world = w, sys_run = insert i rs\<rparr>"
  have g: "plat_ok g" and pend: "e_work_pending (g_devs g ! i)" and rs: "i \<notin> rs"
    using assms False unfolding s by (auto simp: sys_ok_def booting_watched_def)
  have at: "g_devs (set_entry g i ?e) ! i = ?e" using g assms(2) by (simp add: set_entry_nth plat_ok_def)
  have st1: "driver_step K shl s (Expire i) ?s" unfolding s by (rule step_expire [OF assms(2) pend rs])
  have "sys_ok ?s" using expire_ok [OF assms(1) [unfolded s] assms(2)] .
  moreover have "e_state (g_devs (sys_plat ?s) ! i) = AMBA_PCI_STATE_BOOTING" using assms(3) at by (simp add: s)
  ultimately obtain t where t: "driver_step K shl ?s (Timeout i) t"
    "\<forall>j < AMBA_PCI_DEV_MAX. abs_slot (g_devs (sys_plat t) ! j) =
       (if j = i then Card AMBA_PCI_STATE_BOOT_FAILED (e_pdev (g_devs (sys_plat ?s) ! i)) else abs_slot (g_devs (sys_plat ?s) ! j))"
    using timeout_runs [of ?s i K shl] by auto
  have "run (driver_step K shl) s [Expire i, Timeout i] t" using st1 t(1) by (blast intro: run.intros)
  moreover have "abs_slot (g_devs (sys_plat t) ! j) =
      (if j = i then Card AMBA_PCI_STATE_BOOT_FAILED (e_pdev (g_devs (sys_plat s) ! i)) else abs_slot (g_devs (sys_plat s) ! j))"
    if "j < 4" for j
    using t(2) that at expire_change [OF g assms(2) that] by (simp add: s)
  ultimately show ?thesis by (intro exI [of _ "[Expire i, Timeout i]"] exI [of _ t]) simp
qed

definition removes_slot :: "nat \<Rightarrow> step_label \<Rightarrow> bool" where
  "removes_slot i l \<longleftrightarrow> (\<exists>pd. l = Notify BUS_NOTIFY_DEL_DEVICE True pd \<and> get_pci_slot_id pd = int i)"

text \<open>The states the driver itself never leaves.\<close>

fun settled :: "amba_pci_dev_state \<Rightarrow> bool" where
  "settled AMBA_PCI_STATE_BOOT_FAILED = True"
| "settled AMBA_PCI_STATE_REBOOTING = True"
| "settled AMBA_PCI_STATE_DISCONNECTED = False"
| "settled AMBA_PCI_STATE_BOOTING = False"
| "settled AMBA_PCI_STATE_CONNECTED = False"

lemma settled_driven: "settled st \<Longrightarrow> \<not> driven (Card st d) x"
  by (auto simp: driven_card)

lemma settled_notify:
  assumes n: "pcie_pci_bus_notify K a is_pci pd g w = ((r, g'), w')" and "plat_ok g" "i < AMBA_PCI_DEV_MAX"
    and f: "abs_slot (g_devs g ! i) = Card st d" "settled st" and "\<not> removes_slot i (Notify a is_pci pd)"
  shows "abs_slot (g_devs g' ! i) = Card st d"
proof -
  note ref = bus_notify_refines [OF n assms(2)]
  have len: "length (g_devs g) = 4" "length (g_devs g') = 4" using assms(2) ref by (simp_all add: plat_ok_def)
  have at: "abs_slot (g_devs g' ! i) = map abs_slot (g_devs g') ! i" using len(2) assms(3) by simp
  have upd: "on_slot pd h (map abs_slot (g_devs g)) ! i = Card st d"
    if "get_pci_slot_id pd = int i \<Longrightarrow> h (Card st d) = Card st d" for h
    using that f(1) len(1) assms(3) by (cases "nat (get_pci_slot_id pd) = i") (auto simp: on_slot_def)
  have "st \<noteq> AMBA_PCI_STATE_BOOTING" using f(2) by auto
  then show ?thesis
    unfolding at using ref assms(6) f(1) len(1) assms(3) upd
    by (auto simp: Let_def removes_slot_def spec_add_simps)
qed

lemma settled_step:
  assumes "driver_step K shl s l t" "sys_ok s" "i < AMBA_PCI_DEV_MAX"
    and f: "abs_slot (g_devs (sys_plat s) ! i) = Card st d" "settled st" and "\<not> removes_slot i l"
  shows "abs_slot (g_devs (sys_plat t) ! i) = Card st d"
proof (cases "hotplug_step l")
  case False
  with step_moves [OF assms(1-3)] f settled_driven show ?thesis by simp
next
  case True
  then obtain a p pd where l: "l = Notify a p pd" by (cases l) simp_all
  have ok: "plat_ok (sys_plat s)" using assms(2) by (simp add: sys_ok_def)
  from assms(1) show ?thesis
  proof cases
    case (step_notify b q pd1 g w r g' w' rs)
    with settled_notify [of K a p pd g w r g' w' i st d] ok assms(3,6) f l show ?thesis by simp
  qed (simp_all add: l)
qed

lemma settled_run:
  "run (driver_step K shl) s ls t \<Longrightarrow> sys_ok s \<Longrightarrow> i < AMBA_PCI_DEV_MAX \<Longrightarrow>
   abs_slot (g_devs (sys_plat s) ! i) = Card st d \<Longrightarrow> settled st \<Longrightarrow> \<forall>l \<in> set ls. \<not> removes_slot i l \<Longrightarrow>
   abs_slot (g_devs (sys_plat t) ! i) = Card st d"
  by (induction rule: run.induct) (auto dest: driver_step_ok settled_step)

text \<open>C9: A failed boot is final: until the bus reports that a device on the slot's bus was removed, no run of the
  driver, whatever is written, queried, added or removed elsewhere, changes the state of the slot.
  In particular a card that comes up late, after its timeout, stays failed.\<close>

theorem failed_until_removed:
  assumes "run (driver_step K shl) s ls t" and "sys_ok s" and "i < AMBA_PCI_DEV_MAX"
    and "abs_slot (g_devs (sys_plat s) ! i) = Card AMBA_PCI_STATE_BOOT_FAILED d"
    and "\<forall>l \<in> set ls. \<not> removes_slot i l"
  shows "abs_slot (g_devs (sys_plat t) ! i) = Card AMBA_PCI_STATE_BOOT_FAILED d"
  by (rule settled_run [OF assms(1-4) _ assms(5)]) simp

definition failed_sys :: "nat sys" where
  "failed_sys = booting_sys\<lparr>sys_plat := set_entry demo_platform 0 (demo_entry\<lparr>e_state := AMBA_PCI_STATE_BOOT_FAILED\<rparr>)\<rparr>"

lemma failed_sys_ok: "sys_ok failed_sys"
proof -
  have devs: "g_devs (sys_plat failed_sys) = [demo_entry\<lparr>e_state := AMBA_PCI_STATE_BOOT_FAILED\<rparr>, zero_entry, zero_entry, zero_entry]"
    by (simp add: failed_sys_def set_entry_def demo_platform_def zero_platform_def numeral_eq_Suc)
  have "slot_ok 0 (demo_entry\<lparr>e_state := AMBA_PCI_STATE_BOOT_FAILED\<rparr>)"
    using demo_entry_ok by (auto simp: slot_ok_def demo_entry_def zero_entry_def)
  then have ok: "plat_ok (sys_plat failed_sys)"
    unfolding failed_sys_def by (simp add: set_entry_ok [OF demo_platform_ok])
  have "rcalls (sys_world failed_sys) = [(KC_proc_mkdir (slot_proc_name 0), 1), (KC_pci_dev_get (pd_handle demo_pci_dev), 0)]"
    by (simp add: failed_sys_def booting_sys_def rcalls_def calls_def)
  then have "ledgers_ok (sys_plat failed_sys) (sys_world failed_sys)"
    by (auto simp: ledgers_ok_def plat_gap_def balance_def devs map_own_def proc_own_def ref_own_def
        demo_entry_def zero_entry_def)
  moreover have "booting_watched (sys_plat failed_sys) (sys_run failed_sys)"
    by (auto simp: booting_watched_def devs zero_entry_def elim!: less_4_cases)
  ultimately show ?thesis using ok by (simp add: sys_ok_def failed_sys_def booting_sys_def)
qed

theorem failed_until_removed_witness:
  "\<exists>t. run (driver_step demo_kernel (\<lambda>x. x)) failed_sys [Notify BUS_NOTIFY_ADD_DEVICE True demo_pci_dev] t \<and>
     abs_slot (g_devs (sys_plat t) ! 0) = Card AMBA_PCI_STATE_BOOT_FAILED (Some demo_pci_dev)"
proof -
  obtain r g' w' where n: "pcie_pci_bus_notify demo_kernel BUS_NOTIFY_ADD_DEVICE True demo_pci_dev
      (sys_plat failed_sys) (sys_world failed_sys) = ((r, g'), w')" by (metis prod.exhaust)
  have "driver_step demo_kernel (\<lambda>x. x) failed_sys (Notify BUS_NOTIFY_ADD_DEVICE True demo_pci_dev)
      \<lparr>sys_plat = g', sys_world = w', sys_run = sys_run failed_sys\<rparr>"
    using step_notify [OF n, of _ "sys_run failed_sys"] by (metis sys.surjective old.unit.exhaust)
  then have run: "run (driver_step demo_kernel (\<lambda>x. x)) failed_sys [Notify BUS_NOTIFY_ADD_DEVICE True demo_pci_dev]
      \<lparr>sys_plat = g', sys_world = w', sys_run = sys_run failed_sys\<rparr>" by (blast intro: run.intros)
  have f: "abs_slot (g_devs (sys_plat failed_sys) ! 0) = Card AMBA_PCI_STATE_BOOT_FAILED (Some demo_pci_dev)"
    by (simp add: failed_sys_def set_entry_def demo_platform_def zero_platform_def abs_slot_def demo_entry_def numeral_eq_Suc)
  from failed_until_removed [OF run failed_sys_ok _ f] run show ?thesis by (auto simp: removes_slot_def)
qed

end
