(* ===== verification/Boot_Races.thy ===== *)
theory Boot_Races
  imports System_Safety Fw_Liveness
begin

section \<open>Boot timeouts that outlive their boot\<close>

text \<open>
  Reconnecting and releasing call \<open>cancel_delayed_work\<close>, which does not wait for a timeout function
  that has already started and is blocked on the mutex. Such a function runs later, and it looks at
  nothing but the slot's state.
\<close>

text \<open>A firmware transfer that succeeds leaves its slot booting, with the timeout armed.\<close>

lemma boot_started:
  assumes "pcie_ioctl_xfer_firmware K shl removal_later arg g w = Some ((Ret 0, g'), w')" "plat_ok g"
  obtains bs i e where "copy_from_user K arg 96 = Some bs" "i = unat (fx_slot_id (fw_xfer_of_bytes bs))" "i < AMBA_PCI_DEV_MAX"
    "g_devs g' ! i = e" "e_in_use e" "e_state e = AMBA_PCI_STATE_BOOTING" "e_work_pending e"
    "e_pdev e = e_pdev (g_devs g ! i)" "e_state (g_devs g ! i) = AMBA_PCI_STATE_DISCONNECTED"
  using assms
proof (cases rule: xfer_ioctl_cases)
  case (rejected r)
  then show thesis by auto
next
  case (ran bs req i e hot w1)
  have g': "g' = set_entry g i e" using ran(7) by (auto simp: removal_later_def split: if_splits option.splits)
  then have e: "g_devs g' ! i = e" using assms(2) ran(4) by (simp add: set_entry_nth plat_ok_def)
  obtain e1 pd where "e = e1\<lparr>e_state := AMBA_PCI_STATE_BOOTING, e_work_pending := True\<rparr>" "e_pdev e = Some pd"
    "e_pdev (g_devs g ! i) = Some pd" "e_in_use (g_devs g ! i)" "e_state (g_devs g ! i) = AMBA_PCI_STATE_DISCONNECTED"
    "same_but_board (g_devs g ! i) e1"
    using xfer_locked_success [OF ran(6) plat_ok_slot [OF assms(2) ran(4)]] by metis
  then show thesis using that [OF ran(1) _ ran(4) e] ran(2,3) by (auto simp: same_but_board_def)
qed

lemma ioctl_arms_timeout:
  assumes "driver_step K shl s (Ioctl cmd arg r) t" "sys_ok s" "i < AMBA_PCI_DEV_MAX"
    "e_state (g_devs (sys_plat s) ! i) \<noteq> AMBA_PCI_STATE_BOOTING" "e_state (g_devs (sys_plat t) ! i) = AMBA_PCI_STATE_BOOTING"
  shows "e_work_pending (g_devs (sys_plat t) ! i)" "sys_run t = sys_run s" "sys_ok t"
proof -
  show ok: "sys_ok t" by (rule driver_step_ok [OF assms(1,2)])
  from assms(1) have "e_work_pending (g_devs (sys_plat t) ! i) \<and> sys_run t = sys_run s"
  proof cases
    case (step_ioctl g w g' w' rs)
    have p: "plat_ok g" using assms(2) unfolding step_ioctl(1) by (simp add: sys_ok_def)
    have "slot_change driven (g_devs g ! i) (g_devs g' ! i)"
      using ioctl_change [OF step_ioctl(3) p] assms(3) by (simp add: slots_change_def)
    then have "e_work_pending (g_devs g' ! i)"
    proof cases
      case change_kept
      have "slot_ok i (g_devs g ! i)" "slot_ok i (g_devs g' ! i)"
        using plat_ok_slot p ioctl_change [OF step_ioctl(3) p] assms(3) by blast+
      with change_kept assms(4,5) step_ioctl(1,2) show ?thesis by (auto simp: abs_slot_def slot_ok_def split: if_splits)
    next
      case change_moved
      with assms(4,5) step_ioctl(1,2) show ?thesis by simp
    qed
    with step_ioctl show ?thesis by simp
  qed
  then show "e_work_pending (g_devs (sys_plat t) ! i)" "sys_run t = sys_run s" by simp_all
qed

text \<open>C27: A timeout of an earlier boot that had already started when it was cancelled fails the next boot of
  the slot at once: if it is still waiting for the mutex when a firmware transfer puts the slot into
  booting, it may run directly afterwards, and the slot is failed while its own timeout is armed.\<close>

theorem stale_timeout_fails_next_boot:
  assumes "sys_ok s" and "i < AMBA_PCI_DEV_MAX" and "i \<in> sys_run s"
    and "e_state (g_devs (sys_plat s) ! i) = AMBA_PCI_STATE_DISCONNECTED"
    and "driver_step K shl s (Ioctl cmd arg r) t" and "e_state (g_devs (sys_plat t) ! i) = AMBA_PCI_STATE_BOOTING"
  shows "\<exists>u. driver_step K shl t (Timeout i) u \<and> e_state (g_devs (sys_plat u) ! i) = AMBA_PCI_STATE_BOOT_FAILED \<and>
    e_work_pending (g_devs (sys_plat u) ! i)"
proof -
  have nb: "e_state (g_devs (sys_plat s) ! i) \<noteq> AMBA_PCI_STATE_BOOTING" using assms(4) by simp
  note a = ioctl_arms_timeout [OF assms(5,1,2) nb assms(6)]
  obtain g w rs where t: "t = \<lparr>sys_plat = g, sys_world = w, sys_run = rs\<rparr>" by (cases t) simp
  have p: "plat_ok g" using a(3) unfolding t by (simp add: sys_ok_def)
  obtain e w' where f: "pcie_boot_timeout_fn K (g_devs g ! i) w = (e, w')" by (metis prod.exhaust)
  have "e_in_use (g_devs g ! i)" using slot_ok_pending [OF plat_ok_slot [OF p assms(2)]] a(1) by (simp add: t)
  then have "e = (g_devs g ! i)\<lparr>e_state := AMBA_PCI_STATE_BOOT_FAILED\<rparr>"
    using timeout_fn_result [of K "g_devs g ! i" w] f assms(6) by (simp add: t)
  moreover have "driver_step K shl t (Timeout i) \<lparr>sys_plat = set_entry g i e, sys_world = w', sys_run = rs - {i}\<rparr>"
    unfolding t by (rule step_timeout [OF _ f]) (use assms(3) a(2) in \<open>simp add: t\<close>)
  ultimately show ?thesis using a(1) p assms(2) by (intro exI) (auto simp: t set_entry_nth plat_ok_def)
qed

text \<open>A concrete race: a boot that was cancelled too late, then the next transfer.\<close>

definition race_sys :: "nat sys" where
  "race_sys = \<lparr>sys_plat = mapped_platform,
     sys_world = prompt_world\<lparr>w_trc := [Call (KC_proc_mkdir (slot_proc_name 0)) 1,
       Call (KC_pci_dev_get (pd_handle demo_pci_dev)) 0, Call (KC_pci_iomap (pd_handle demo_pci_dev) 0 0x1000) 0x10000]\<rparr>,
     sys_run = {0}\<rparr>"

lemma race_sys_ok: "sys_ok race_sys"
proof -
  have devs: "g_devs mapped_platform =
      [demo_entry\<lparr>e_boot_bar := 0, e_boot_len := 0x1000, e_boot_mem_base := 0x10000\<rparr>, zero_entry, zero_entry, zero_entry]"
    by (simp add: mapped_platform_def set_entry_def demo_platform_def zero_platform_def numeral_eq_Suc)
  have "rcalls (sys_world race_sys) = [(KC_proc_mkdir (slot_proc_name 0), 1), (KC_pci_dev_get (pd_handle demo_pci_dev), 0),
      (KC_pci_iomap (pd_handle demo_pci_dev) 0 0x1000, 0x10000)]"
    by (simp add: race_sys_def rcalls_def calls_def)
  then have "ledgers_ok (sys_plat race_sys) (sys_world race_sys)"
    by (auto simp: ledgers_ok_def plat_gap_def balance_def race_sys_def devs map_own_def proc_own_def ref_own_def
        demo_entry_def zero_entry_def)
  moreover have "booting_watched mapped_platform {0}"
    by (auto simp: booting_watched_def devs zero_entry_def demo_entry_def elim!: less_4_cases)
  ultimately show ?thesis using mapped_platform_ok by (simp add: sys_ok_def race_sys_def)
qed

lemma race_ioctl:
  obtains t where "driver_step demo_prompt_kernel shl32 race_sys (Ioctl AMBA_PCI_XFER_FIRMWARE 0x1000 0) t"
    "e_state (g_devs (sys_plat t) ! 0) = AMBA_PCI_STATE_BOOTING"
proof -
  let ?K = demo_prompt_kernel and ?w = "sys_world race_sys"
  let ?e = "g_devs mapped_platform ! unat (fx_slot_id demo_req)"
  have e: "e_in_use ?e" "e_state ?e = AMBA_PCI_STATE_DISCONNECTED" "e_pdev ?e = Some demo_pci_dev"
    "e_boot_mem_base ?e = 0x10000" "e_boot_len ?e = 0x1000"
    using mapped_entry_fields by (simp_all add: Let_def)
  have fits: "ring_fits 4 4 (e_boot_len ?e)" unfolding e by (simp add: ring_fits_def)
  have live: "ring_live 0x10000 4 4 6 ?w" using prompt_world_live by (simp add: ring_live_def race_sys_def)
  note f = prompt_kernel_facts and q = demo_prompt_request
  have "\<exists>g' w'. pcie_ioctl_xfer_firmware ?K shl32 removal_later 0x1000 mapped_platform ?w = Some ((Ret 0, g'), w')"
    by (rule xfer_ioctl_live [OF mapped_platform_ok refl refl e(4) [symmetric] e(1-3) _ q(1,2) shl32_ok q(3-6)
          f(1,2) live fits f(3-5)]) simp
  then obtain g' w' where run: "pcie_ioctl_xfer_firmware ?K shl32 removal_later 0x1000 mapped_platform ?w = Some ((Ret 0, g'), w')"
    by blast
  then have "pcie_file_ioctl ?K shl32 removal_later AMBA_PCI_XFER_FIRMWARE 0x1000 mapped_platform ?w = Some ((Ret 0, g'), w')"
    by (simp add: pcie_file_ioctl_def ioctl_numbers)
  from step_ioctl [OF this, of "{0}"] have st: "driver_step ?K shl32 race_sys (Ioctl AMBA_PCI_XFER_FIRMWARE 0x1000 0)
      \<lparr>sys_plat = g', sys_world = w', sys_run = {0}\<rparr>" by (simp add: race_sys_def)
  have slot: "unat (fx_slot_id demo_req) = 0" by (simp add: demo_req_def)
  from run mapped_platform_ok have "e_state (g_devs g' ! 0) = AMBA_PCI_STATE_BOOTING"
  proof (cases rule: boot_started)
    case (1 bs i e)
    then have "i = 0" using q(1,2) slot by (simp add: size_of_abi)
    with 1 show ?thesis by simp
  qed
  with st that show thesis by simp
qed

theorem stale_timeout_fails_next_boot_witness:
  "\<exists>t u. driver_step demo_prompt_kernel shl32 race_sys (Ioctl AMBA_PCI_XFER_FIRMWARE 0x1000 0) t \<and>
     driver_step demo_prompt_kernel shl32 t (Timeout 0) u \<and> e_state (g_devs (sys_plat u) ! 0) = AMBA_PCI_STATE_BOOT_FAILED"
proof (rule race_ioctl)
  fix t assume t: "driver_step demo_prompt_kernel shl32 race_sys (Ioctl AMBA_PCI_XFER_FIRMWARE 0x1000 0) t"
    "e_state (g_devs (sys_plat t) ! 0) = AMBA_PCI_STATE_BOOTING"
  have s: "0 \<in> sys_run race_sys" "e_state (g_devs (sys_plat race_sys) ! 0) = AMBA_PCI_STATE_DISCONNECTED"
    using mapped_entry_fields by (simp_all add: race_sys_def Let_def demo_req_def)
  from stale_timeout_fails_next_boot [OF race_sys_ok _ s t] t(1) show ?thesis by auto
qed

end
