(* ===== verification/Module_Life.thy ===== *)
theory Module_Life
  imports Hotplug
begin

section \<open>Loading and unloading the module\<close>

text \<open>
  \<open>amba_pci_platform_main.c\<close>, lines 1093 to 1220. Pointer results of the kernel are 0 for NULL, a
  positive handle, or a negative \<open>ERR_PTR\<close>. Two things are not the driver's and are arguments:
  \<open>devt\<close> is the device number that \<open>alloc_chrdev_region\<close> stores, and \<open>next_dev\<close> is \<open>pci_get_device\<close>.
  Unloading waits for boot timeouts whose function is running (\<open>running\<close>), so these run to their end first.
\<close>

definition MAJOR :: "u32 \<Rightarrow> int" where
  "MAJOR dev = uint (drop_bit 20 dev)"

definition MKDEV :: "int \<Rightarrow> u32 \<Rightarrow> u32" where
  "MKDEV ma mi = push_bit 20 (word_of_int ma) OR mi"

definition IS_ERR :: "int \<Rightarrow> bool" where
  "IS_ERR p \<longleftrightarrow> p < 0"

subsection \<open>Loading\<close>

text \<open>The error exit: what has been taken is given back, in reverse order.\<close>

definition init_cleanup ::
  "'d kernel \<Rightarrow> bool \<Rightarrow> bool \<Rightarrow> bool \<Rightarrow> amba_pci_platform \<Rightarrow> 'd world \<Rightarrow> amba_pci_platform \<times> 'd world" where
  "init_cleanup K chrdev_registered cdev_registered notifier_registered g w =
     (let w1 = (if notifier_registered then kdo K KC_bus_unregister_notifier w else w);
          (g1, w2) = (if g_proc_root g \<noteq> 0 then (g\<lparr>g_proc_root := 0\<rparr>, kdo K KC_proc_remove w1) else (g, w1));
          (g2, w3) = (if g_ctrl_dev g1 \<noteq> 0
                      then (g1\<lparr>g_ctrl_dev := 0\<rparr>, kdo K (KC_device_destroy (g_ctrl_devt g1)) w2) else (g1, w2));
          w4 = (if cdev_registered then kdo K KC_cdev_del w3 else w3);
          (g3, w5) = (if g_class g2 \<noteq> 0 then (g2\<lparr>g_class := 0\<rparr>, kdo K KC_class_destroy w4) else (g2, w4));
          w6 = (if chrdev_registered then kdo K (KC_unregister_chrdev_region (g_devt_base g3)) w5 else w5)
      in (g3, kdo K KC_mutex_destroy w6))"

definition init_failed ::
  "'d kernel \<Rightarrow> bool \<Rightarrow> bool \<Rightarrow> bool \<Rightarrow> int \<Rightarrow> amba_pci_platform \<Rightarrow> 'd world \<Rightarrow> ((int \<times> amba_pci_platform) \<times> 'd world) option" where
  "init_failed K chrdev cdev notifier ret g w =
     (let (g1, w1) = init_cleanup K chrdev cdev notifier g w in Some ((ret, g1), w1))"

definition init_devs :: "pcie_dev_entry list \<Rightarrow> pcie_dev_entry list" where
  "init_devs es = map (\<lambda>e. e\<lparr>e_work_pending := False, e_id := 0\<rparr>) es"

definition amba_pci_platform_init ::
  "'d kernel \<Rightarrow> ('d world \<Rightarrow> u32) \<Rightarrow> 'd get_device \<Rightarrow> amba_pci_platform \<Rightarrow> 'd world \<Rightarrow>
     ((int \<times> amba_pci_platform) \<times> 'd world) option" where
  "amba_pci_platform_init K devt next_dev g w =
     (let w0 = kdo K KC_mutex_init w;
          g0 = g\<lparr>g_devs := init_devs (g_devs g), g_next_dev_id := 0\<rparr>;
          (ret, w1) = kcall K KC_alloc_chrdev_region w0
      in if ret < 0 then init_failed K False False False ret g0 w1
         else let major = MAJOR (devt w1);
                  g1 = g0\<lparr>g_devt_base := devt w1, g_major := major, g_ctrl_devt := MKDEV major 0\<rparr>;
                  (cls, w2) = kcall K KC_class_create w1
              in if IS_ERR cls then init_failed K True False False cls (g1\<lparr>g_class := 0\<rparr>) w2
                 else let g2 = g1\<lparr>g_class := cls\<rparr>;
                          (ret, w3) = kcall K (KC_cdev_add (g_ctrl_devt g2)) (kdo K KC_cdev_init w2)
                      in if ret \<noteq> 0 then init_failed K True False False ret g2 w3
                         else let (dev, w4) = kcall K (KC_device_create (g_ctrl_devt g2)) w3
                              in if IS_ERR dev then init_failed K True True False dev (g2\<lparr>g_ctrl_dev := 0\<rparr>) w4
                                 else let (root, w5) = kcall K (KC_proc_mkdir DRIVER_NAME) w4;
                                          g3 = g2\<lparr>g_ctrl_dev := dev, g_proc_root := root\<rparr>;
                                          (ret, w6) = kcall K KC_bus_register_notifier w5
                                      in if ret \<noteq> 0 then init_failed K True True False ret g3 w6
                                         else do { (g4, w7) \<leftarrow> pcie_enumerate_existed_devs K next_dev g3 w6;
                                                   Some ((0, g4), w7) })"

subsection \<open>Unloading\<close>

definition cancel_work_sync ::
  "'d kernel \<Rightarrow> nat \<Rightarrow> bool \<Rightarrow> pcie_dev_entry \<Rightarrow> 'd world \<Rightarrow> pcie_dev_entry \<times> 'd world" where
  "cancel_work_sync K i running e w =
     (let (e1, w1) = (if running then pcie_boot_timeout_fn K e w else (e, w))
      in (e1\<lparr>e_work_pending := False\<rparr>, kdo K (KC_cancel_delayed_work_sync i) w1))"

fun each_entry ::
  "(nat \<Rightarrow> pcie_dev_entry \<Rightarrow> 'd world \<Rightarrow> pcie_dev_entry \<times> 'd world) \<Rightarrow> nat \<Rightarrow> pcie_dev_entry list \<Rightarrow> 'd world \<Rightarrow>
     pcie_dev_entry list \<times> 'd world" where
  "each_entry f i [] w = ([], w)"
| "each_entry f i (e # es) w =
     (let (e1, w1) = f i e w; (es1, w2) = each_entry f (Suc i) es w1 in (e1 # es1, w2))"

definition amba_pci_platform_exit ::
  "'d kernel \<Rightarrow> nat set \<Rightarrow> amba_pci_platform \<Rightarrow> 'd world \<Rightarrow> amba_pci_platform \<times> 'd world" where
  "amba_pci_platform_exit K running g w =
     (let w1 = kdo K KC_bus_unregister_notifier w;
          (es1, w2) = each_entry (\<lambda>i. cancel_work_sync K i (i \<in> running)) 0 (g_devs g) w1;
          (es2, w3) = each_entry (pcie_release_dev K) 0 es1 (kdo K KC_mutex_lock w2);
          g1 = g\<lparr>g_devs := es2, g_next_dev_id := 0\<rparr>;
          w4 = kdo K KC_mutex_unlock w3;
          (g2, w5) = (if g_proc_root g1 \<noteq> 0 then (g1\<lparr>g_proc_root := 0\<rparr>, kdo K KC_proc_remove w4) else (g1, w4));
          (g3, w6) = (if g_ctrl_dev g2 \<noteq> 0
                      then (g2\<lparr>g_ctrl_dev := 0\<rparr>, kdo K (KC_device_destroy (g_ctrl_devt g2)) w5) else (g2, w5));
          w7 = kdo K KC_cdev_del w6;
          (g4, w8) = (if g_class g3 \<noteq> 0 then (g3\<lparr>g_class := 0\<rparr>, kdo K KC_class_destroy w7) else (g3, w7));
          w9 = kdo K (KC_unregister_chrdev_region (g_devt_base g4)) w8
      in (g4, kdo K KC_mutex_destroy w9))"

end
