(* ===== verification/Module_Correct.thy ===== *)
theory Module_Correct
  imports Module_Life System_Safety
begin

section \<open>Loading and unloading gives everything back\<close>

text \<open>
  The ledgers of the module's own resources through load, any run of the handlers, and unload; and
  the ledgers of the slots through the same. A load that fails leaves nothing behind.
\<close>

subsection \<open>What the module holds\<close>

fun held :: "bool \<Rightarrow> bool \<Rightarrow> bool \<Rightarrow> amba_pci_platform \<Rightarrow> module_resource \<Rightarrow> int" where
  "held chrdev cdev notifier g Chrdev = of_bool chrdev"
| "held chrdev cdev notifier g Dev_Class = of_bool (0 < g_class g)"
| "held chrdev cdev notifier g Cdev = of_bool cdev"
| "held chrdev cdev notifier g Ctrl_Dev = of_bool (0 < g_ctrl_dev g)"
| "held chrdev cdev notifier g Notifier = of_bool notifier"
| "held chrdev cdev notifier g Proc_Root = of_bool (g_proc_root g \<noteq> 0)"

lemma held_conv:
  "held a b c g m = of_bool (case m of Chrdev \<Rightarrow> a | Dev_Class \<Rightarrow> 0 < g_class g | Cdev \<Rightarrow> b
     | Ctrl_Dev \<Rightarrow> 0 < g_ctrl_dev g | Notifier \<Rightarrow> c | Proc_Root \<Rightarrow> g_proc_root g \<noteq> 0)"
  by (cases m) simp_all

definition module_part :: "amba_pci_platform \<Rightarrow> u32 \<times> u32 \<times> int \<times> int \<times> int \<times> int" where
  "module_part g = (g_devt_base g, g_ctrl_devt g, g_major g, g_class g, g_ctrl_dev g, g_proc_root g)"

lemma module_part_simps [simp]:
  "module_part (set_entry g i e) = module_part g" "module_part (g\<lparr>g_devs := es\<rparr>) = module_part g"
  "module_part (g\<lparr>g_next_dev_id := n\<rparr>) = module_part g"
  by (simp_all add: module_part_def set_entry_def)

lemma held_module_part: "module_part g' = module_part g \<Longrightarrow> held a b c g' m = held a b c g m"
  by (cases m) (simp_all add: module_part_def)

definition slot_balances :: "'d world \<Rightarrow> int \<times> int \<times> (nat \<Rightarrow> int)" where
  "slot_balances w = (balance map_wt w, balance proc_wt w, \<lambda>h. balance (ref_wt h) w)"

lemma slot_balances_frame:
  "map_wt (c, fst (kcall K c w)) = 0 \<Longrightarrow> proc_wt (c, fst (kcall K c w)) = 0 \<Longrightarrow> (\<And>h. ref_wt h (c, fst (kcall K c w)) = 0) \<Longrightarrow>
     slot_balances (kdo K c w) = slot_balances w"
  "map_wt (c, fst (kcall K c w)) = 0 \<Longrightarrow> proc_wt (c, fst (kcall K c w)) = 0 \<Longrightarrow> (\<And>h. ref_wt h (c, fst (kcall K c w)) = 0) \<Longrightarrow>
     slot_balances (snd (kcall K c w)) = slot_balances w"
  by (simp_all add: slot_balances_def balance_frame)

lemma kcall_balances:
  assumes "kcall K c w = (r, w')" "\<not> is_sleep c"
  shows "balance (module_wt m) w' = balance (module_wt m) w + module_wt m (c, r)"
    "map_wt (c, r) = 0 \<Longrightarrow> proc_wt (c, r) = 0 \<Longrightarrow> (\<And>h. ref_wt h (c, r) = 0) \<Longrightarrow> slot_balances w' = slot_balances w"
  using assms balance_frame(6) [of "module_wt m" K c w] slot_balances_frame(2) [of c K w] by simp_all

subsection \<open>The error exit\<close>

definition errs_only_null :: "amba_pci_platform \<Rightarrow> bool" where
  "errs_only_null g \<longleftrightarrow> 0 \<le> g_class g \<and> 0 \<le> g_ctrl_dev g"

lemma init_cleanup_result:
  assumes "init_cleanup K a b c g w = (g', w')" "errs_only_null g"
  shows "balance (module_wt m) w' = balance (module_wt m) w - held a b c g m" "slot_balances w' = slot_balances w"
    "g' = g\<lparr>g_class := 0, g_ctrl_dev := 0, g_proc_root := 0\<rparr>"
proof -
  show "balance (module_wt m) w' = balance (module_wt m) w - held a b c g m"
    using assms by (cases m) (auto simp: init_cleanup_def errs_only_null_def Let_def kframe balance_frame split: if_splits)
  show "slot_balances w' = slot_balances w"
    using assms(1) by (auto simp: init_cleanup_def Let_def slot_balances_frame split: if_splits)
  show "g' = g\<lparr>g_class := 0, g_ctrl_dev := 0, g_proc_root := 0\<rparr>"
    using assms(1) by (auto simp: init_cleanup_def Let_def split: if_splits)
qed

subsection \<open>The ways through loading\<close>

definition unloaded :: "amba_pci_platform \<Rightarrow> bool" where
  "unloaded g \<longleftrightarrow> g_class g = 0 \<and> g_ctrl_dev g = 0 \<and> g_proc_root g = 0"

definition taken :: "bool \<Rightarrow> bool \<Rightarrow> bool \<Rightarrow> amba_pci_platform \<Rightarrow> amba_pci_platform \<Rightarrow> 'd world \<Rightarrow> 'd world \<Rightarrow> bool" where
  "taken a b c g g1 w w1 \<longleftrightarrow>
     g_devs g1 = init_devs (g_devs g) \<and> g_next_dev_id g1 = 0 \<and> errs_only_null g1 \<and> slot_balances w1 = slot_balances w \<and>
     (\<forall>m. balance (module_wt m) w1 = balance (module_wt m) w + held a b c g1 m)"

lemma takenI:
  assumes "g_devs g1 = init_devs (g_devs g)" "g_next_dev_id g1 = 0" "errs_only_null g1" "slot_balances w1 = slot_balances w"
    "\<And>m. balance (module_wt m) w1 = balance (module_wt m) w + held a b c g1 m"
  shows "taken a b c g g1 w w1"
  using assms by (simp add: taken_def)

lemma init_cases:
  assumes run: "amba_pci_platform_init K devt next_dev g w = Some ((r, g'), w')" and un: "unloaded g"
  obtains (init_error) a b g1 w1 where "r \<noteq> 0" "taken a b False g g1 w w1" "init_cleanup K a b False g1 w1 = (g', w')"
  | (loaded) g1 w1 where "r = 0" "taken True True True g g1 w w1" "pcie_enumerate_existed_devs K next_dev g1 w1 = Some (g', w')"
proof -
  define w0 where "w0 = kdo K KC_mutex_init w"
  define g0 where "g0 = g\<lparr>g_devs := init_devs (g_devs g), g_next_dev_id := 0\<rparr>"
  obtain r1 w1 where c1: "kcall K KC_alloc_chrdev_region w0 = (r1, w1)" by (metis prod.exhaust)
  define g1 where "g1 = g0\<lparr>g_devt_base := devt w1, g_major := MAJOR (devt w1), g_ctrl_devt := MKDEV (MAJOR (devt w1)) 0\<rparr>"
  obtain cls w2 where c2: "kcall K KC_class_create w1 = (cls, w2)" by (metis prod.exhaust)
  define g2 where "g2 = g1\<lparr>g_class := cls\<rparr>"
  define w2' where "w2' = kdo K KC_cdev_init w2"
  obtain r3 w3 where c3: "kcall K (KC_cdev_add (g_ctrl_devt g2)) w2' = (r3, w3)" by (metis prod.exhaust)
  obtain dev w4 where c4: "kcall K (KC_device_create (g_ctrl_devt g2)) w3 = (dev, w4)" by (metis prod.exhaust)
  obtain root w5 where c5: "kcall K (KC_proc_mkdir DRIVER_NAME) w4 = (root, w5)" by (metis prod.exhaust)
  define g3 where "g3 = g2\<lparr>g_ctrl_dev := dev, g_proc_root := root\<rparr>"
  obtain r6 w6 where c6: "kcall K KC_bus_register_notifier w5 = (r6, w6)" by (metis prod.exhaust)
  note b = kcall_balances [OF c1] kcall_balances [OF c2] kcall_balances [OF c3] kcall_balances [OF c4]
    kcall_balances [OF c5] kcall_balances [OF c6]
  have b0: "balance (module_wt m) w0 = balance (module_wt m) w" "balance (module_wt m) w2' = balance (module_wt m) w2"
    "slot_balances w0 = slot_balances w" "slot_balances w2' = slot_balances w2" for m
    by (simp_all add: w0_def w2'_def balance_frame slot_balances_frame)
  note gs = g0_def g1_def g2_def g3_def
  have steps: "amba_pci_platform_init K devt next_dev g w =
     (if r1 < 0 then init_failed K False False False r1 g0 w1
      else if IS_ERR cls then init_failed K True False False cls (g1\<lparr>g_class := 0\<rparr>) w2
      else if r3 \<noteq> 0 then init_failed K True False False r3 g2 w3
      else if IS_ERR dev then init_failed K True True False dev (g2\<lparr>g_ctrl_dev := 0\<rparr>) w4
      else if r6 \<noteq> 0 then init_failed K True True False r6 g3 w6
      else do { (g4, w7) \<leftarrow> pcie_enumerate_existed_devs K next_dev g3 w6; Some ((0, g4), w7) })"
    unfolding amba_pci_platform_init_def Let_def
    by (simp only: c1 c2 c3 c4 c5 c6 prod.case w0_def [symmetric] g0_def [symmetric] g1_def [symmetric] g2_def [symmetric]
        w2'_def [symmetric] g3_def [symmetric])
  have failed: thesis if "init_failed K x y False q h v = Some ((r, g'), w')" "q \<noteq> 0" "taken x y False g h w v" for x y q h v
    using that init_error [of x y h v] by (auto simp: init_failed_def split: prod.splits)
  note ts = gs unloaded_def errs_only_null_def IS_ERR_def held_conv
  have t0: "taken False False False g g0 w w1" if "r1 < 0"
    using that un b(1,2) b0 by (intro takenI) (auto simp: ts split: module_resource.splits)
  have t1: "taken True False False g (g1\<lparr>g_class := 0\<rparr>) w w2" if "\<not> r1 < 0" "IS_ERR cls"
    using that un b(1-4) b0 by (intro takenI) (auto simp: ts split: module_resource.splits)
  have t2: "taken True False False g g2 w w3" if "\<not> r1 < 0" "\<not> IS_ERR cls" "r3 \<noteq> 0"
    using that un b(1-6) b0 by (intro takenI) (auto simp: ts split: module_resource.splits)
  have t3: "taken True True False g (g2\<lparr>g_ctrl_dev := 0\<rparr>) w w4" if "\<not> r1 < 0" "\<not> IS_ERR cls" "r3 = 0" "IS_ERR dev"
    using that un b(1-8) b0 by (intro takenI) (auto simp: ts split: module_resource.splits)
  have t4: "taken True True (r6 = 0) g g3 w w6" if "\<not> r1 < 0" "\<not> IS_ERR cls" "r3 = 0" "\<not> IS_ERR dev"
    using that un b b0 by (intro takenI) (auto simp: ts split: module_resource.splits)
  consider "r1 < 0" | "\<not> r1 < 0" "IS_ERR cls" | "\<not> r1 < 0" "\<not> IS_ERR cls" "r3 \<noteq> 0"
    | "\<not> r1 < 0" "\<not> IS_ERR cls" "r3 = 0" "IS_ERR dev" | "\<not> r1 < 0" "\<not> IS_ERR cls" "r3 = 0" "\<not> IS_ERR dev" "r6 \<noteq> 0"
    | "\<not> r1 < 0" "\<not> IS_ERR cls" "r3 = 0" "\<not> IS_ERR dev" "r6 = 0" by blast
  then show thesis
  proof cases
    case 1
    with failed [of False False r1 g0 w1] t0 run steps show thesis by simp
  next
    case 2
    with failed [of True False cls "g1\<lparr>g_class := 0\<rparr>" w2] t1 run steps show thesis by (simp add: IS_ERR_def)
  next
    case 3
    with failed [of True False r3 g2 w3] t2 run steps show thesis by simp
  next
    case 4
    with failed [of True True dev "g2\<lparr>g_ctrl_dev := 0\<rparr>" w4] t3 run steps show thesis by (simp add: IS_ERR_def)
  next
    case 5
    with failed [of True True r6 g3 w6] t4 run steps show thesis by simp
  next
    case 6
    with run steps have "pcie_enumerate_existed_devs K next_dev g3 w6 = Some (g', w')" "r = 0"
      by (auto simp: bind_eq_Some_conv)
    with 6 t4 loaded show thesis by simp
  qed
qed

text \<open>C11: A load that fails, at whatever stage, leaves nothing behind: for every resource of the module as
  many were returned as were taken, nothing of a slot was touched, and the state is that of a
  module that is not loaded.\<close>

theorem failed_load_undone:
  assumes "amba_pci_platform_init K devt next_dev g w = Some ((r, g'), w')" and "unloaded g" and "r \<noteq> 0"
  shows "(\<forall>m. balance (module_wt m) w' = balance (module_wt m) w) \<and>
    (\<forall>h. balance map_wt w' = balance map_wt w \<and> balance proc_wt w' = balance proc_wt w \<and> balance (ref_wt h) w' = balance (ref_wt h) w) \<and>
    unloaded g' \<and> g_devs g' = init_devs (g_devs g)"
  using assms(1,2)
proof (cases rule: init_cases)
  case (init_error a b g1 w1)
  note t = init_error(2) [unfolded taken_def]
  have "errs_only_null g1" using t by blast
  note c = init_cleanup_result [OF init_error(3) this]
  have "slot_balances w' = slot_balances w" using c(2) t by simp
  then have "balance map_wt w' = balance map_wt w" "balance proc_wt w' = balance proc_wt w"
    "balance (ref_wt h) w' = balance (ref_wt h) w" for h
    by (auto simp: slot_balances_def dest: fun_cong)
  then show ?thesis using c(1,3) t by (simp add: unloaded_def)
next
  case loaded
  then show ?thesis using assms(3) by simp
qed

definition no_notifier_kernel :: "nat kernel" where
  "no_notifier_kernel = demo_kernel\<lparr>k_call := \<lambda>c d. if c = KC_bus_register_notifier then (- ENOMEM, d) else demo_call c d\<rparr>"

theorem failed_load_undone_witness:
  "\<exists>g' w'. amba_pci_platform_init no_notifier_kernel (\<lambda>w. 0xFE00000) demo_next_dev zero_platform demo_world = Some ((- ENOMEM, g'), w') \<and>
     (\<forall>m. balance (module_wt m) w' = 0) \<and> unloaded g'"
proof -
  have "\<exists>g' w'. amba_pci_platform_init no_notifier_kernel (\<lambda>w. 0xFE00000) demo_next_dev zero_platform demo_world = Some ((- ENOMEM, g'), w')"
    by (simp add: amba_pci_platform_init_def no_notifier_kernel_def kcall_def IS_ERR_def init_failed_def Let_def split: prod.splits)
  then obtain g' w' where run: "amba_pci_platform_init no_notifier_kernel (\<lambda>w. 0xFE00000) demo_next_dev zero_platform demo_world
      = Some ((- ENOMEM, g'), w')" by blast
  have un: "unloaded zero_platform" by (simp add: unloaded_def zero_platform_def)
  have "balance (module_wt m) demo_world = 0" for m by (simp add: balance_def rcalls_def calls_def demo_world_def)
  with failed_load_undone [OF run un] run show ?thesis by simp
qed

subsection \<open>The scan, the handlers and the ledgers of the module\<close>

text \<open>The contract of the scan: it keeps what the hotplug handler keeps for the boot function.\<close>

locale scan_invariant =
  fixes K :: "'d kernel" and P :: "amba_pci_platform \<Rightarrow> 'd world \<Rightarrow> bool"
  assumes add: "P g w \<Longrightarrow> pcie_handle_add_locked K pd g w = (g', w') \<Longrightarrow> pd_device pd = AMBA_PCI_TARGET_DEVICE_ID \<Longrightarrow> P g' w'"
    and same_trace: "P g w \<Longrightarrow> w_trc w' = w_trc w \<Longrightarrow> P g w'"
    and put_null: "P g w \<Longrightarrow> P g (kdo K (KC_pci_dev_put 0) w)"
begin

lemma scan_slot_keeps:
  assumes walk: "device_walk next_dev rank" and target: "ps_target_device slot = AMBA_PCI_TARGET_DEVICE_ID"
  shows "scan_slot K next_dev slot prev g w = Some (g', w') \<Longrightarrow> P g w \<Longrightarrow> P g' w'"
proof (induction "rank prev" arbitrary: prev g w rule: less_induct)
  case less
  obtain pd w1 where nx: "next_dev (ps_target_vendor slot) (ps_target_device slot) prev w = (pd, w1)"
    by (metis prod.exhaust)
  with walk have w1: "w_trc w1 = w_trc w"
    and hit: "\<And>p. pd = Some p \<Longrightarrow> pd_device p = AMBA_PCI_TARGET_DEVICE_ID \<and> rank (Some p) < rank prev"
    unfolding device_walk_def target by blast+
  have p1: "P g w1" by (rule same_trace [OF less.prems(2) w1])
  show ?case
  proof (cases pd)
    case None
    with nx less.prems(1) put_null [OF p1] show ?thesis by (subst (asm) scan_slot.simps) simp
  next
    case (Some p)
    note h = hit [OF Some]
    show ?thesis
    proof (cases "pd_bus p = ps_bus slot")
      case False
      with nx Some less.prems(1) have "scan_slot K next_dev slot (Some p) g w1 = Some (g', w')"
        by (subst (asm) scan_slot.simps) simp
      from less.hyps [OF conjunct2 [OF h] this p1] show ?thesis .
    next
      case True
      obtain g1 w2 where a: "pcie_handle_add_locked K p g w1 = (g1, w2)" by (metis prod.exhaust)
      with nx Some True less.prems(1) have "scan_slot K next_dev slot (Some p) g1 w2 = Some (g', w')"
        by (subst (asm) scan_slot.simps) simp
      from less.hyps [OF conjunct2 [OF h] this add [OF p1 a conjunct1 [OF h]]] show ?thesis .
    qed
  qed
qed

lemma scan_slots_keeps:
  assumes walk: "device_walk next_dev rank"
  shows "\<forall>s \<in> set ss. ps_target_device s = AMBA_PCI_TARGET_DEVICE_ID \<Longrightarrow>
    scan_slots K next_dev ss g w = Some (g', w') \<Longrightarrow> P g w \<Longrightarrow> P g' w'"
proof (induction ss arbitrary: g w)
  case Nil
  then show ?case by simp
next
  case (Cons s ss)
  then obtain g3 w3 where s: "scan_slot K next_dev s None g w = Some (g3, w3)" "scan_slots K next_dev ss g3 w3 = Some (g', w')"
    by (auto simp: bind_eq_Some_conv)
  have "P g3 w3" by (rule scan_slot_keeps [OF walk _ s(1) Cons.prems(3)]) (use Cons.prems(1) in auto)
  with Cons.IH s(2) Cons.prems(1) show ?case by simp
qed

end

locale locked_scan_invariant = scan_invariant K P for K :: "'d kernel" and P :: "amba_pci_platform \<Rightarrow> 'd world \<Rightarrow> bool" +
  assumes lock: "P g w \<Longrightarrow> P g (kdo K KC_mutex_lock w)"
    and unlock: "P g w \<Longrightarrow> P g (kdo K KC_mutex_unlock w)"
begin

lemma enumerate_keeps:
  assumes "device_walk next_dev rank" "pcie_enumerate_existed_devs K next_dev g w = Some (g', w')" "P g w"
  shows "P g' w'"
proof -
  from assms(2) obtain w1 where s: "scan_slots K next_dev pcie_physical_slots g (kdo K KC_mutex_lock w) = Some (g', w1)"
    and w': "w' = kdo K KC_mutex_unlock w1"
    by (auto simp: pcie_enumerate_existed_devs_def bind_eq_Some_conv)
  have "\<forall>s \<in> set pcie_physical_slots. ps_target_device s = AMBA_PCI_TARGET_DEVICE_ID" by (simp add: pcie_physical_slots_def)
  from unlock [OF scan_slots_keeps [OF assms(1) this s lock [OF assms(3)]]] show ?thesis unfolding w' .
qed

end

subsection \<open>The module through load and run\<close>

text \<open>What holds of the platform and the calls from the end of load on: \<open>g0\<close> is the state right after
  the notifier was registered, \<open>bal\<close> the ledgers of the module at that point.\<close>

definition module_inv :: "amba_pci_platform \<Rightarrow> (module_resource \<Rightarrow> int) \<Rightarrow> amba_pci_platform \<Rightarrow> 'd world \<Rightarrow> bool" where
  "module_inv g0 bal g w \<longleftrightarrow> module_part g = module_part g0 \<and> (\<forall>m. balance (module_wt m) w = bal m)"

text \<open>Without the driver's own proc directory no slot can be set up.\<close>

definition rootless_empty :: "amba_pci_platform \<Rightarrow> bool" where
  "rootless_empty g \<longleftrightarrow> (g_proc_root g = 0 \<longrightarrow> (\<forall>i < AMBA_PCI_DEV_MAX. \<not> e_in_use (g_devs g ! i)))"

definition load_inv :: "amba_pci_platform \<Rightarrow> (module_resource \<Rightarrow> int) \<Rightarrow> amba_pci_platform \<Rightarrow> 'd world \<Rightarrow> bool" where
  "load_inv g0 bal g w \<longleftrightarrow> plat_ok g \<and> only_boot_cards g \<and> ledgers_ok g w \<and> module_inv g0 bal g w \<and> rootless_empty g"

lemma mods_plat_gap: "plat_gap (module_wt m) (\<lambda>e. 0) g w = balance (module_wt m) w"
  by (simp add: plat_gap_def)

lemma overwritten_mods: "overwritten (\<lambda>e. 0) e = 0"
  by (simp add: overwritten_def)

lemma handle_add_module:
  assumes "pcie_handle_add_locked K pd g w = (g', w')" "plat_ok g"
  shows "module_part g' = module_part g" "balance (module_wt m) w' = balance (module_wt m) w"
proof -
  show "module_part g' = module_part g" using assms by (cases rule: handle_add_cases) simp_all
  show "balance (module_wt m) w' = balance (module_wt m) w"
    using mods.handle_add_gap [OF assms, of m] by (auto simp: mods_plat_gap overwritten_mods)
qed

lemma handle_add_rootless:
  assumes "pcie_handle_add_locked K pd g w = (g', w')" "plat_ok g" "rootless_empty g"
  shows "rootless_empty g'"
proof -
  have len: "length (g_devs g) = 4" using assms(2) by (simp add: plat_ok_def)
  from assms(1,2) show ?thesis
  proof (cases rule: handle_add_cases)
    case ignored
    then show ?thesis using assms(3) by simp
  next
    case (reconnect i e)
    then show ?thesis using assms(3) by (auto simp: rootless_empty_def set_entry_def)
  next
    case (init_failed i r e)
    have "\<not> e_in_use e"
      using create_proc_failed_ok [OF init_failed(6,5) plat_ok_slot [OF assms(2) init_failed(2)] init_failed(3)] by blast
    then show ?thesis using assms(3) init_failed(2) len unfolding init_failed(7)
      by (auto simp: rootless_empty_def set_entry_def nth_list_update)
  next
    case (init_ok i e w1)
    then show ?thesis using create_proc_ok_facts(1) [OF init_ok(5)] by (simp add: rootless_empty_def set_entry_def)
  qed
qed

lemma ledgers_handle_add:
  assumes "pcie_handle_add_locked K pd g w = (g', w')" "plat_ok g" "ledgers_ok g w"
  shows "ledgers_ok g' w'"
proof (rule ledgers_same [OF assms(3)])
  show "plat_gap map_wt map_own g' w' = plat_gap map_wt map_own g w"
    using maps.handle_add_gap [OF assms(1,2)] by (auto simp: overwritten_eval)
  show "plat_gap proc_wt proc_own g' w' = plat_gap proc_wt proc_own g w"
    using procs.handle_add_gap [OF assms(1,2)] by (auto simp: overwritten_eval)
  show "plat_gap (ref_wt h) (ref_own h) g w \<le> plat_gap (ref_wt h) (ref_own h) g' w'" for h
    using refs.handle_add_gap [OF assms(1,2), of h] overwritten_eval(3) by auto
qed

lemma ledgers_balances: "slot_balances w' = slot_balances w \<Longrightarrow> ledgers_ok g w' = ledgers_ok g w"
  by (simp add: slot_balances_def ledgers_ok_def plat_gap_def fun_eq_iff)

lemma load_inv_frame:
  assumes "load_inv g0 bal g w" "slot_balances w' = slot_balances w" "\<And>m. balance (module_wt m) w' = balance (module_wt m) w"
  shows "load_inv g0 bal g w'"
  using assms ledgers_balances [OF assms(2)] by (simp add: load_inv_def module_inv_def)

interpretation load: locked_scan_invariant K "load_inv g0 bal" for K g0 bal
proof unfold_locales
  fix g w pd g' w'
  assume i: "load_inv g0 bal g w" and a: "pcie_handle_add_locked K pd g w = (g', w')"
    and d: "pd_device pd = AMBA_PCI_TARGET_DEVICE_ID"
  have g: "plat_ok g" "only_boot_cards g" "ledgers_ok g w" "module_inv g0 bal g w" "rootless_empty g" using i by (simp_all add: load_inv_def)
  show "load_inv g0 bal g' w'"
    unfolding load_inv_def
    using handle_add_ok [OF a g(1)] handle_add_boot_only [OF a g(1,2) d] ledgers_handle_add [OF a g(1,3)]
      handle_add_module [OF a g(1)] handle_add_rootless [OF a g(1,5)] g(4) by (simp add: module_inv_def)
next
  fix g and w w' :: "'a world" assume i: "load_inv g0 bal g w" and t: "w_trc w' = w_trc w"
  then have "balance wt w' = balance wt w" for wt by (intro balance_calls_eq) (simp add: calls_def)
  then show "load_inv g0 bal g w'" by (intro load_inv_frame [OF i]) (simp_all add: slot_balances_def)
next
  fix g and w :: "'a world" assume i: "load_inv g0 bal g w"
  have put: "slot_balances (kdo K (KC_pci_dev_put 0) w) = slot_balances w"
    by (rule slot_balances_frame(1)) auto
  show "load_inv g0 bal g (kdo K (KC_pci_dev_put 0) w)"
    by (rule load_inv_frame [OF i put]) (simp add: balance_frame)
  show "load_inv g0 bal g (kdo K KC_mutex_lock w)" "load_inv g0 bal g (kdo K KC_mutex_unlock w)"
    by (rule load_inv_frame [OF i]; simp add: slot_balances_frame balance_frame)+
qed

lemma handle_del_module:
  assumes "pcie_handle_del_locked K pd g w = (g', w')"
  shows "module_part g' = module_part g"
  using assms by (cases rule: handle_del_cases) simp_all

lemma notify_module:
  assumes "pcie_pci_bus_notify K a is_pci pd g w = ((r, g'), w')" "plat_ok g"
  shows "module_part g' = module_part g" "balance (module_wt m) w' = balance (module_wt m) w"
proof -
  show "module_part g' = module_part g"
    using assms handle_add_module(1) [of K pd g "kdo K KC_mutex_lock w"] handle_del_module [of K pd g "kdo K KC_mutex_lock w"]
    by (auto simp: pcie_pci_bus_notify_def split: if_splits prod.splits)
  show "balance (module_wt m) w' = balance (module_wt m) w"
    using mods.notify_gap [OF assms, of m] by (auto simp: mods_plat_gap overwritten_mods)
qed

lemma ioctl_module:
  assumes "pcie_file_ioctl K shl removal_later cmd arg g w = Some ((res, g'), w')" "plat_ok g"
  shows "module_part g' = module_part g"
proof -
  consider (query) r where "pcie_ioctl_query_platform_info K arg g w = ((r, g'), w')"
    | (xfer) "pcie_ioctl_xfer_firmware K shl removal_later arg g w = Some ((res, g'), w')" | (other) "g' = g"
    using assms(1) by (auto simp: pcie_file_ioctl_def bind_eq_Some_conv split: if_splits prod.splits)
  then show ?thesis
  proof cases
    case query
    then show ?thesis by (cases rule: query_ioctl_cases) simp_all
  next
    case xfer
    from xfer assms(2) show ?thesis by (cases rule: xfer_ioctl_later) simp_all
  qed simp
qed

lemma step_module:
  assumes "driver_step K shl s l t" "sys_ok s"
  shows "module_part (sys_plat t) = module_part (sys_plat s) \<and>
    balance (module_wt m) (sys_world t) = balance (module_wt m) (sys_world s)"
  using assms(1)
proof cases
  case (step_notify a is_pci pd g w r g' w' rs)
  then show ?thesis using notify_module [OF step_notify(4)] assms(2) by (simp add: sys_ok_def)
next
  case (step_expire k g rs w)
  then show ?thesis by simp
next
  case (step_timeout k rs g w e w')
  then show ?thesis using mods.timeout_fn_gap [OF step_timeout(5), of m] by (simp add: gap_def)
next
  case (step_ioctl cmd arg g w r g' w' rs)
  then show ?thesis
    using ioctl_module [OF step_ioctl(4)] mods.ioctl_gap [OF step_ioctl(4), of m] assms(2) by (simp add: sys_ok_def mods_plat_gap)
next
  case (step_read k rd buf n pos g w r pos' g' w' ops net_text log_text rs)
  have p: "plat_ok g" using assms(2) unfolding step_read(1) by (simp add: sys_ok_def)
  from step_read(6,5) have "module_part g' = module_part g" by (cases rule: read_cases) simp_all
  then show ?thesis using mods.read_gap [OF step_read(5) p step_read(4,6), of m] step_read(1,3)
    by (simp add: mods_plat_gap)
next
  case (step_write k wr buf n pos g w r pos' g' w' ops rs)
  have p: "plat_ok g" using assms(2) unfolding step_write(1) by (simp add: sys_ok_def)
  note h = step_write(5) [unfolded proc_write_reboot [OF step_write(6)]]
  from h have "module_part g' = module_part g" by (cases rule: reboot_cases_later) simp_all
  then show ?thesis using mods.reboot_gap [OF h p step_write(4), of m] step_write(1,3)
    by (simp add: mods_plat_gap)
qed

lemma notify_rootless:
  assumes "pcie_pci_bus_notify K a is_pci pd g w = ((r, g'), w')" "plat_ok g" "rootless_empty g"
  shows "rootless_empty g'"
proof -
  obtain ga wa where a: "pcie_handle_add_locked K pd g (kdo K KC_mutex_lock w) = (ga, wa)" by (metis prod.exhaust)
  obtain gd wd where d: "pcie_handle_del_locked K pd g (kdo K KC_mutex_lock w) = (gd, wd)" by (metis prod.exhaust)
  have "rootless_empty gd"
    using d
  proof (cases rule: handle_del_cases)
    case (removed i e)
    have "\<not> e_in_use e"
      using release_result [OF plat_ok_slot [OF assms(2) removed(2)], of K "kdo K KC_mutex_lock w"] removed(3,5)
      by (simp add: released_def zero_entry_def)
    then show ?thesis using assms(3) removed(2,3) unfolding removed(6) by (auto simp: rootless_empty_def set_entry_def)
  qed (use assms(3) in \<open>auto simp: rootless_empty_def set_entry_def\<close>)
  then show ?thesis
    using assms a d handle_add_rootless [OF a assms(2,3)] by (auto simp: pcie_pci_bus_notify_def split: if_splits)
qed

lemma step_rootless:
  assumes "driver_step K shl s l t" "sys_ok s" "rootless_empty (sys_plat s)"
  shows "rootless_empty (sys_plat t)"
proof (cases "hotplug_step l")
  case True
  from assms(1) show ?thesis
  proof cases
    case (step_notify a is_pci pd g w r g' w' rs)
    then show ?thesis using notify_rootless [OF step_notify(4)] assms(2,3) by (simp add: sys_ok_def)
  qed (use True in auto)
next
  case False
  have root: "g_proc_root (sys_plat t) = g_proc_root (sys_plat s)"
    using step_module [OF assms(1,2)] by (simp add: module_part_def)
  have "\<not> e_in_use (g_devs (sys_plat t) ! i)" if "i < 4" "\<not> e_in_use (g_devs (sys_plat s) ! i)" for i
    using step_moves [OF assms(1,2) that(1)] False that(2) by (auto simp: abs_slot_def driven_from_empty split: if_splits)
  with assms(3) root show ?thesis by (simp add: rootless_empty_def)
qed

interpretation loaded: invariant_system "driver_step K shl"
  "\<lambda>s. sys_ok s \<and> module_inv g0 bal (sys_plat s) (sys_world s) \<and> rootless_empty (sys_plat s)" for K shl g0 bal
  by unfold_locales (auto simp: module_inv_def step_module intro: driver_step_ok step_rootless)

lemma load_sys_ok:
  assumes "load_inv g0 bal g w"
  shows "sys_ok \<lparr>sys_plat = g, sys_world = w, sys_run = {}\<rparr>"
proof -
  have "booting_watched g {}"
    using assms by (auto simp: load_inv_def only_boot_cards_def booting_watched_def plat_ok_def)
  then show ?thesis using assms by (simp add: load_inv_def sys_ok_def)
qed

end
