(* ===== verification/Module_Exit.thy ===== *)
theory Module_Exit
  imports Module_Correct
begin

section \<open>From load to unload\<close>

text \<open>
  Unloading stops the boot timeouts, empties every slot and returns what the module took at load.
  Together with the load and the invariants of the handlers this closes the life of the driver:
  whatever happened in between, nothing is left.
\<close>

subsection \<open>All slots in turn\<close>

context ledger
begin

lemma each_entry_gap:
  assumes "\<And>i e w e' w'. Q i e \<Longrightarrow> f i e w = (e', w') \<Longrightarrow> gap wt own e' w' = gap wt own e w"
  shows "each_entry f i es w = (es', w') \<Longrightarrow> \<forall>j < length es. Q (i + j) (es ! j) \<Longrightarrow>
    balance wt w' - sum_list (map own es') = balance wt w - sum_list (map own es)"
proof (induction es arbitrary: i w es' w')
  case Nil
  then show ?case by simp
next
  case (Cons e es)
  obtain e1 w1 where f: "f i e w = (e1, w1)" by (metis prod.exhaust)
  obtain es1 w2 where r: "each_entry f (Suc i) es w1 = (es1, w2)" by (metis prod.exhaust)
  have q: "Q i e" using Cons.prems(2) by auto
  have "\<forall>j < length es. Q (Suc i + j) (es ! j)"
    using Cons.prems(2) by (metis Suc_less_eq add_Suc_right add_Suc length_Cons nth_Cons_Suc)
  from Cons.IH [OF r this] assms [OF q f] Cons.prems(1) f r show ?case by (auto simp: gap_def)
qed

end

lemma each_entry_nth:
  "each_entry f i es w = (es', w') \<Longrightarrow> length es' = length es \<and> (\<forall>j < length es. \<exists>v. es' ! j = fst (f (i + j) (es ! j) v))"
proof (induction es arbitrary: i w es' w')
  case Nil
  then show ?case by simp
next
  case (Cons e es)
  obtain e1 w1 where f: "f i e w = (e1, w1)" by (metis prod.exhaust)
  obtain es1 w2 where r: "each_entry f (Suc i) es w1 = (es1, w2)" by (metis prod.exhaust)
  have out: "es' = e1 # es1" "w' = w2" using Cons.prems f r by auto
  have "\<exists>v. es' ! j = fst (f (i + j) ((e # es) ! j) v)" if "j < length (e # es)" for j
    using that Cons.IH [OF r] f unfolding out by (cases j) (auto intro: exI [of _ w])
  then show ?case using Cons.IH [OF r] out by simp
qed

subsection \<open>Stopping the timeouts and emptying the slots\<close>

lemma cancel_result:
  assumes "cancel_work_sync K i running e w = (e', w')" "slot_ok i e"
  shows "slot_ok i e'"
proof -
  obtain e1 w1 where t: "(if running then pcie_boot_timeout_fn K e w else (e, w)) = (e1, w1)" by (metis prod.exhaust)
  have "slot_ok i e1" using t timeout_fn_ok [OF assms(2), of K w] assms(2) by (auto split: if_splits)
  moreover have "e' = e1\<lparr>e_work_pending := False\<rparr>" using assms(1) t by (simp add: cancel_work_sync_def)
  ultimately show ?thesis by (auto simp: slot_ok_def bar_chosen_def)
qed

lemma release_empties:
  assumes "slot_ok i e"
  shows "slot_ok i (fst (pcie_release_dev K i e w)) \<and> \<not> e_in_use (fst (pcie_release_dev K i e w))"
  using release_result [OF assms, of K w] assms released_ok [of i e] by (auto simp: released_def zero_entry_def)

lemma unused_owns_nothing:
  assumes "slot_ok i e" "\<not> e_in_use e"
  shows "map_own e = 0" "proc_own e = 0" "ref_own h e = 0"
  using assms by (auto simp: slot_ok_def map_own_def proc_own_def ref_own_def)

context ledger
begin

lemma cancel_gap:
  assumes "cancel_work_sync K i running e w = (e', w')"
  shows "gap wt own e' w' = gap wt own e w"
proof -
  obtain e1 w1 where t: "(if running then pcie_boot_timeout_fn K e w else (e, w)) = (e1, w1)" by (metis prod.exhaust)
  have "gap wt own e1 w1 = gap wt own e w" using t timeout_fn_gap [of K e w e1 w1] by (auto split: if_splits)
  moreover have "own (e1\<lparr>e_work_pending := False\<rparr>) = own e1" by (rule own_cong) simp_all
  ultimately show ?thesis using assms t by (auto simp: cancel_work_sync_def gap_def kframe wt_neutral)
qed

end

text \<open>The part of unloading that deals with the slots, from the stopped notifier to the freed mutex.\<close>

definition exit_slots ::
  "'d kernel \<Rightarrow> nat set \<Rightarrow> pcie_dev_entry list \<Rightarrow> 'd world \<Rightarrow> pcie_dev_entry list \<times> 'd world" where
  "exit_slots K running es w =
     (let (es1, w2) = each_entry (\<lambda>i. cancel_work_sync K i (i \<in> running)) 0 es w;
          (es2, w3) = each_entry (pcie_release_dev K) 0 es1 (kdo K KC_mutex_lock w2)
      in (es2, kdo K KC_mutex_unlock w3))"

lemma exit_slots_split:
  assumes "exit_slots K running es w = (es', w')"
  obtains es1 w2 w3 where "each_entry (\<lambda>i. cancel_work_sync K i (i \<in> running)) 0 es w = (es1, w2)"
    "each_entry (pcie_release_dev K) 0 es1 (kdo K KC_mutex_lock w2) = (es', w3)" "w' = kdo K KC_mutex_unlock w3"
  using assms by (auto simp: exit_slots_def split: prod.splits)

lemma exit_slots_ok:
  assumes "exit_slots K running es w = (es', w')" "\<forall>j < length es. slot_ok j (es ! j)"
  shows "length es' = length es \<and> (\<forall>j < length es. slot_ok j (es' ! j) \<and> \<not> e_in_use (es' ! j))"
  using assms(1)
proof (rule exit_slots_split)
  fix es1 w2 w3
  assume c: "each_entry (\<lambda>i. cancel_work_sync K i (i \<in> running)) 0 es w = (es1, w2)"
    and r: "each_entry (pcie_release_dev K) 0 es1 (kdo K KC_mutex_lock w2) = (es', w3)"
  have ok1: "slot_ok j (es1 ! j)" if "j < length es" for j
    using each_entry_nth [OF c] that assms(2) cancel_result by (metis add_0 prod.collapse)
  show ?thesis using each_entry_nth [OF c] each_entry_nth [OF r] ok1 release_empties by (metis add_0)
qed

context ledger
begin

lemma exit_slots_gap:
  assumes "exit_slots K running es w = (es', w')" "\<forall>j < length es. slot_ok j (es ! j)"
  shows "balance wt w' - sum_list (map own es') = balance wt w - sum_list (map own es)"
  using assms(1)
proof (rule exit_slots_split)
  fix es1 w2 w3
  assume c: "each_entry (\<lambda>i. cancel_work_sync K i (i \<in> running)) 0 es w = (es1, w2)"
    and r: "each_entry (pcie_release_dev K) 0 es1 (kdo K KC_mutex_lock w2) = (es', w3)" and w': "w' = kdo K KC_mutex_unlock w3"
  have ok1: "\<forall>j < length es1. slot_ok (0 + j) (es1 ! j)"
    using each_entry_nth [OF c] assms(2) cancel_result by (metis add_0 prod.collapse)
  have "balance wt w2 - sum_list (map own es1) = balance wt w - sum_list (map own es)"
    by (rule each_entry_gap [OF _ c, where Q = "\<lambda>i e. True"]) (simp_all add: cancel_gap)
  moreover have "balance wt w3 - sum_list (map own es') = balance wt (kdo K KC_mutex_lock w2) - sum_list (map own es1)"
    by (rule each_entry_gap [OF _ r ok1]) (simp add: release_gap)
  ultimately show ?thesis unfolding w' by (simp add: balance_frame wt_neutral)
qed

end

text \<open>The whole of unloading, as the slots' part between the notifier and the module's resources.\<close>

lemma exit_split:
  assumes "amba_pci_platform_exit K running g w = (g', w')"
  obtains es w1 where "exit_slots K running (g_devs g) (kdo K KC_bus_unregister_notifier w) = (es, w1)"
    "init_cleanup K True True False (g\<lparr>g_devs := es, g_next_dev_id := 0\<rparr>) w1 = (g', w')"
proof -
  obtain es w1 where e: "exit_slots K running (g_devs g) (kdo K KC_bus_unregister_notifier w) = (es, w1)" by (metis prod.exhaust)
  from e show thesis
  proof (rule exit_slots_split)
    fix es1 w2 w3
    assume s: "each_entry (\<lambda>i. cancel_work_sync K i (i \<in> running)) 0 (g_devs g) (kdo K KC_bus_unregister_notifier w) = (es1, w2)"
      "each_entry (pcie_release_dev K) 0 es1 (kdo K KC_mutex_lock w2) = (es, w3)" "w1 = kdo K KC_mutex_unlock w3"
    have "init_cleanup K True True False (g\<lparr>g_devs := es, g_next_dev_id := 0\<rparr>) w1 = (g', w')"
      using assms s by (simp add: amba_pci_platform_exit_def init_cleanup_def Let_def)
    with that e show thesis by blast
  qed
qed

subsection \<open>Unloading returns everything\<close>

lemma sum_list_zero: "(\<And>j. j < length es \<Longrightarrow> own (es ! j) = (0 :: int)) \<Longrightarrow> sum_list (map own es) = 0"
  by (subst map_cong [of es es _ "\<lambda>_. 0"]) (auto simp: in_set_conv_nth)

lemma exit_result:
  assumes "amba_pci_platform_exit K running g w = (g', w')" "plat_ok g" "errs_only_null g"
  shows "balance (module_wt m) w' = balance (module_wt m) w - held True True True g m"
    "balance map_wt w' = plat_gap map_wt map_own g w" "balance proc_wt w' = plat_gap proc_wt proc_own g w"
    "balance (ref_wt h) w' = plat_gap (ref_wt h) (ref_own h) g w"
    "plat_ok g'" "unloaded g'" "g_next_dev_id g' = 0" "\<forall>i < AMBA_PCI_DEV_MAX. abs_slot (g_devs g' ! i) = Empty"
proof -
  obtain es w1 where s: "exit_slots K running (g_devs g) (kdo K KC_bus_unregister_notifier w) = (es, w1)"
    and c: "init_cleanup K True True False (g\<lparr>g_devs := es, g_next_dev_id := 0\<rparr>) w1 = (g', w')"
    by (rule exit_split [OF assms(1)])
  let ?w0 = "kdo K KC_bus_unregister_notifier w"
  have ok: "\<forall>j < length (g_devs g). slot_ok j (g_devs g ! j)" using assms(2) by (simp add: plat_ok_def)
  note e = exit_slots_ok [OF s ok]
  have errs: "errs_only_null (g\<lparr>g_devs := es, g_next_dev_id := 0\<rparr>)" using assms(3) by (simp add: errs_only_null_def)
  note r = init_cleanup_result [OF c errs]
  have len: "length (g_devs g) = 4" using assms(2) by (simp add: plat_ok_def)
  have none: "sum_list (map map_own es) = 0" "sum_list (map proc_own es) = 0" "sum_list (map (ref_own h) es) = 0"
    by (rule sum_list_zero, use e unused_owns_nothing in metis)+
  have w1: "balance map_wt w1 = plat_gap map_wt map_own g w" "balance proc_wt w1 = plat_gap proc_wt proc_own g w"
    "balance (ref_wt h) w1 = plat_gap (ref_wt h) (ref_own h) g w"
    using maps.exit_slots_gap [OF s ok] procs.exit_slots_gap [OF s ok] refs.exit_slots_gap [OF s ok, of h] none
    by (simp_all add: plat_gap_def balance_frame)
  have "balance map_wt w' = balance map_wt w1" "balance proc_wt w' = balance proc_wt w1"
    "balance (ref_wt h) w' = balance (ref_wt h) w1"
    using r(2) by (auto simp: slot_balances_def dest: fun_cong)
  with w1 show "balance map_wt w' = plat_gap map_wt map_own g w" "balance proc_wt w' = plat_gap proc_wt proc_own g w"
    "balance (ref_wt h) w' = plat_gap (ref_wt h) (ref_own h) g w" by simp_all
  have "balance (module_wt m) w1 = balance (module_wt m) w - (if m = Notifier then 1 else 0)"
    using mods.exit_slots_gap [OF s ok, of m] by (simp add: balance_frame)
  then show "balance (module_wt m) w' = balance (module_wt m) w - held True True True g m"
    using r(1) [of m] by (cases m) simp_all
  show "plat_ok g'" "\<forall>i < AMBA_PCI_DEV_MAX. abs_slot (g_devs g' ! i) = Empty"
    using e len by (simp_all add: r(3) plat_ok_def abs_slot_def)
  show "unloaded g'" "g_next_dev_id g' = 0" by (simp_all add: r(3) unloaded_def)
qed

lemma init_devs_zero: "init_devs (g_devs zero_platform) = g_devs zero_platform"
  by (simp add: init_devs_def zero_platform_def zero_entry_def)

lemma load_establishes:
  assumes "amba_pci_platform_init K devt next_dev zero_platform w = Some ((0, g), w1)" "calls w = []" "device_walk next_dev rank"
  obtains g0 where "load_inv g0 (held True True True g0) g w1" "errs_only_null g0"
proof -
  have un: "unloaded zero_platform" by (simp add: unloaded_def zero_platform_def)
  from assms(1) un show thesis
  proof (cases rule: init_cases)
    case (loaded g0 w0)
    note t = loaded(2) [unfolded taken_def init_devs_zero]
    have b: "balance wt w = 0" for wt using assms(2) by (simp add: balance_def rcalls_def)
    have devs: "g_devs g0 = replicate 4 zero_entry" using t by (simp add: zero_platform_def)
    have own0: "sum_list (map map_own (g_devs g0)) = 0" "sum_list (map proc_own (g_devs g0)) = 0"
      "sum_list (map (ref_own h) (g_devs g0)) = 0" for h
      unfolding devs by (simp_all add: map_own_def proc_own_def ref_own_def zero_entry_def sum_list_replicate)
    have "plat_ok g0" using zero_platform_ok t by (simp add: plat_ok_def)
    moreover have "only_boot_cards g0" using devs by (simp add: only_boot_cards_def zero_entry_def)
    moreover have "ledgers_ok g0 w0"
      using t b own0 by (simp add: ledgers_ok_def plat_gap_def slot_balances_def fun_eq_iff)
    moreover have "module_inv g0 (held True True True g0) g0 w0" using t b by (simp add: module_inv_def)
    moreover have "rootless_empty g0" using devs by (simp add: rootless_empty_def zero_entry_def)
    ultimately have "load_inv g0 (held True True True g0) g0 w0" by (simp add: load_inv_def)
    from load.enumerate_keeps [OF assms(3) loaded(3) this] t that show thesis by blast
  qed simp
qed

lemma load_run_inv:
  assumes "load_inv g0 bal g w" "run (driver_step K shl) \<lparr>sys_plat = g, sys_world = w, sys_run = {}\<rparr> ls t"
  shows "sys_ok t" "module_inv g0 bal (sys_plat t) (sys_world t)" "rootless_empty (sys_plat t)"
  using loaded.run_inv [OF assms(2), of g0 bal] load_sys_ok [OF assms(1)] assms(1) by (simp_all add: load_inv_def)

text \<open>C2: The whole life of the module: load it successfully, let its handlers run in any order for as long as
  one likes, and unload it. Then every resource of the module, every mapping of a boot BAR and every
  proc directory has been returned exactly as often as it was taken, no device has been returned
  more often than it was taken, and all slots are empty.\<close>

theorem load_run_unload:
  assumes "amba_pci_platform_init K devt next_dev zero_platform w = Some ((0, g), w1)"
    and "calls w = []" and "device_walk next_dev rank"
    and "run (driver_step K shl) \<lparr>sys_plat = g, sys_world = w1, sys_run = {}\<rparr> ls t"
    and "amba_pci_platform_exit K (sys_run t) (sys_plat t) (sys_world t) = (g', w')"
  shows "(\<forall>m. balance (module_wt m) w' = 0) \<and> balance map_wt w' = 0 \<and> balance proc_wt w' = 0 \<and>
    (\<forall>h. 0 \<le> balance (ref_wt h) w') \<and> unloaded g' \<and> (\<forall>i < AMBA_PCI_DEV_MAX. abs_slot (g_devs g' ! i) = Empty)"
proof -
  obtain g0 where l: "load_inv g0 (held True True True g0) g w1" "errs_only_null g0" by (rule load_establishes [OF assms(1-3)])
  note inv = load_run_inv [OF l(1) assms(4)]
  have errs: "errs_only_null (sys_plat t)" using inv(2) l(2) by (simp add: module_inv_def module_part_def errs_only_null_def)
  have ok: "plat_ok (sys_plat t)" "ledgers_ok (sys_plat t) (sys_world t)" using inv(1) by (simp_all add: sys_ok_def)
  note e = exit_result [OF assms(5) ok(1) errs]
  have "balance (module_wt m) w' = 0" for m
    using e(1) [of m] inv(2) held_module_part [of "sys_plat t" g0 True True True m] by (simp add: module_inv_def)
  then show ?thesis using e(2-4,6,8) ok(2) by (simp add: ledgers_ok_def)
qed

lemma demo_walk: "device_walk demo_next_dev (\<lambda>p. if p = None then 1 else 0)"
  by (auto simp: device_walk_def demo_next_dev_def)

interpretation scan_part: locked_scan_invariant K "\<lambda>g w. plat_ok g \<and> module_part g = p" for K p
  by unfold_locales (auto dest: handle_add_ok handle_add_module(1))

text \<open>Two kernels on which the load succeeds: with and without the driver's proc directory.\<close>

definition no_proc_kernel :: "nat kernel" where
  "no_proc_kernel = demo_kernel\<lparr>k_call := \<lambda>c d. if c = KC_proc_mkdir DRIVER_NAME then (0, d) else demo_call c d\<rparr>"

text \<open>A kernel that gives every step of the load what it asks for; \<open>proc_mkdir\<close>, which the load does not
  check, returns \<open>root\<close>: 0 is the NULL of its failure.\<close>

definition load_granted :: "'d kernel \<Rightarrow> int \<Rightarrow> bool" where
  "load_granted K root \<longleftrightarrow> (\<forall>d n. 0 \<le> fst (k_call K KC_alloc_chrdev_region d) \<and>
     \<not> IS_ERR (fst (k_call K KC_class_create d)) \<and> fst (k_call K (KC_cdev_add n) d) = 0 \<and>
     \<not> IS_ERR (fst (k_call K (KC_device_create n) d)) \<and> fst (k_call K (KC_proc_mkdir DRIVER_NAME) d) = root \<and>
     fst (k_call K KC_bus_register_notifier d) = 0)"

lemma fst_kcall: "fst (kcall K c w) = fst (k_call K c (w_out w))"
  by (simp add: kcall_def case_prod_beta Let_def)

lemma granted_facts:
  assumes "load_granted K root"
  shows "(fst (k_call K KC_alloc_chrdev_region d) < 0) = False" "IS_ERR (fst (k_call K KC_class_create d)) = False"
    "fst (k_call K (KC_cdev_add n) d) = 0" "IS_ERR (fst (k_call K (KC_device_create n) d)) = False"
    "fst (k_call K (KC_proc_mkdir DRIVER_NAME) d) = root" "fst (k_call K KC_bus_register_notifier d) = 0"
  using assms unfolding load_granted_def by (meson not_less)+

lemma load_granted_returns:
  assumes env: "load_granted K root" and walk: "device_walk next_dev rank"
  shows "\<exists>g w1. amba_pci_platform_init K devt next_dev zero_platform w = Some ((0, g), w1) \<and> g_proc_root g = root"
proof -
  have zero: "plat_ok zero_platform" "only_boot_cards zero_platform"
    using zero_platform_ok by (simp, simp add: only_boot_cards_def zero_platform_def zero_entry_def)
  have "\<exists>g3 w6. g_devs g3 = g_devs zero_platform \<and> g_proc_root g3 = root \<and>
      amba_pci_platform_init K devt next_dev zero_platform w =
        do { (g4, w7) \<leftarrow> pcie_enumerate_existed_devs K next_dev g3 w6; Some ((0, g4), w7) }"
    unfolding amba_pci_platform_init_def Let_def
    by (simp only: case_prod_beta fst_kcall granted_facts [OF env] if_False not_True_eq_False not_False_eq_True simp_thms)
      (intro exI conjI; (rule refl)?; simp add: init_devs_zero)
  then obtain g3 w6 where g3: "g_devs g3 = g_devs zero_platform" "g_proc_root g3 = root"
    and init: "amba_pci_platform_init K devt next_dev zero_platform w =
        do { (g4, w7) \<leftarrow> pcie_enumerate_existed_devs K next_dev g3 w6; Some ((0, g4), w7) }" by blast
  have ok: "plat_ok g3" "only_boot_cards g3" using zero g3(1) by (simp_all add: plat_ok_def only_boot_cards_def)
  obtain g w1 where e: "pcie_enumerate_existed_devs K next_dev g3 w6 = Some (g, w1)"
    using enumerate_result [OF walk ok] by blast
  have "module_part g = module_part g3" using scan_part.enumerate_keeps [OF walk e] ok(1) by blast
  with init e g3(2) show ?thesis by (simp add: module_part_def)
qed

lemma demo_granted: "load_granted demo_kernel 1" "load_granted no_proc_kernel 0"
  by (simp_all add: load_granted_def no_proc_kernel_def IS_ERR_def)

theorem load_run_unload_witness:
  "\<exists>g w1 t g' w'. amba_pci_platform_init demo_kernel (\<lambda>w. 0xFE00000) demo_next_dev zero_platform demo_world = Some ((0, g), w1) \<and>
     run (driver_step demo_kernel (\<lambda>x. x)) \<lparr>sys_plat = g, sys_world = w1, sys_run = {}\<rparr> [Notify BUS_NOTIFY_DEL_DEVICE True demo_pci_dev] t \<and>
     amba_pci_platform_exit demo_kernel {} (sys_plat t) (sys_world t) = (g', w') \<and> balance map_wt w' = 0"
proof -
  obtain g w1 where i: "amba_pci_platform_init demo_kernel (\<lambda>w. 0xFE00000) demo_next_dev zero_platform demo_world = Some ((0, g), w1)"
    using load_granted_returns [OF demo_granted(1) demo_walk] by blast
  obtain r g2 w2 where n: "pcie_pci_bus_notify demo_kernel BUS_NOTIFY_DEL_DEVICE True demo_pci_dev g w1 = ((r, g2), w2)"
    by (metis prod.exhaust)
  let ?t = "\<lparr>sys_plat = g2, sys_world = w2, sys_run = {}\<rparr>"
  have run: "run (driver_step demo_kernel (\<lambda>x. x)) \<lparr>sys_plat = g, sys_world = w1, sys_run = {}\<rparr>
      [Notify BUS_NOTIFY_DEL_DEVICE True demo_pci_dev] ?t"
    using step_notify [OF n] by (blast intro: run.intros)
  obtain g' w' where e: "amba_pci_platform_exit demo_kernel (sys_run ?t) (sys_plat ?t) (sys_world ?t) = (g', w')"
    by (metis prod.exhaust)
  have "calls demo_world = []" by (simp add: calls_def demo_world_def)
  from load_run_unload [OF i this demo_walk run e] i run e show ?thesis by (intro exI [of _ g] exI [of _ w1] exI [of _ ?t] exI [of _ g'] exI [of _ w']) simp
qed

text \<open>C30: A failure to create the driver's proc directory is not noticed: where \<open>proc_mkdir\<close> fails and
  the other steps of the load get what they ask for, the load returns 0, and no slot of a driver
  loaded that way ever holds a card, whatever is plugged in or requested later.\<close>

theorem no_proc_root_no_cards:
  assumes "load_granted K 0" and "device_walk next_dev rank" and "calls w = []"
  shows "\<exists>g w1. amba_pci_platform_init K devt next_dev zero_platform w = Some ((0, g), w1) \<and>
    (\<forall>shl ls t. run (driver_step K shl) \<lparr>sys_plat = g, sys_world = w1, sys_run = {}\<rparr> ls t \<longrightarrow>
       (\<forall>i < AMBA_PCI_DEV_MAX. abs_slot (g_devs (sys_plat t) ! i) = Empty))"
proof -
  obtain g w1 where i: "amba_pci_platform_init K devt next_dev zero_platform w = Some ((0, g), w1)" "g_proc_root g = 0"
    using load_granted_returns [OF assms(1,2)] by blast
  obtain g0 where l: "load_inv g0 (held True True True g0) g w1" by (rule load_establishes [OF i(1) assms(3,2)])
  have "\<forall>i < AMBA_PCI_DEV_MAX. abs_slot (g_devs (sys_plat t) ! i) = Empty"
    if "run (driver_step K shl) \<lparr>sys_plat = g, sys_world = w1, sys_run = {}\<rparr> ls t" for shl ls t
  proof -
    note inv = load_run_inv [OF l that]
    have "g_proc_root (sys_plat t) = 0"
      using inv(2) l i(2) by (simp add: load_inv_def module_inv_def module_part_def)
    with inv(3) show ?thesis by (simp add: rootless_empty_def abs_slot_empty)
  qed
  with i(1) show ?thesis by blast
qed

theorem no_proc_root_no_cards_witness:
  "\<exists>g w1 t. amba_pci_platform_init no_proc_kernel (\<lambda>w. 0xFE00000) demo_next_dev zero_platform demo_world = Some ((0, g), w1) \<and>
     run (driver_step no_proc_kernel (\<lambda>x. x)) \<lparr>sys_plat = g, sys_world = w1, sys_run = {}\<rparr> [Notify BUS_NOTIFY_ADD_DEVICE True demo_pci_dev] t \<and>
     abs_slot (g_devs (sys_plat t) ! 0) = Empty"
proof -
  have "calls demo_world = []" by (simp add: calls_def demo_world_def)
  then obtain g w1 where i: "amba_pci_platform_init no_proc_kernel (\<lambda>w. 0xFE00000) demo_next_dev zero_platform demo_world = Some ((0, g), w1)"
    and empty: "\<And>ls t. run (driver_step no_proc_kernel (\<lambda>x. x)) \<lparr>sys_plat = g, sys_world = w1, sys_run = {}\<rparr> ls t \<Longrightarrow>
      \<forall>i < AMBA_PCI_DEV_MAX. abs_slot (g_devs (sys_plat t) ! i) = Empty"
    using no_proc_root_no_cards [OF demo_granted(2) demo_walk] by blast
  obtain r g2 w2 where n: "pcie_pci_bus_notify no_proc_kernel BUS_NOTIFY_ADD_DEVICE True demo_pci_dev g w1 = ((r, g2), w2)"
    by (metis prod.exhaust)
  have run: "run (driver_step no_proc_kernel (\<lambda>x. x)) \<lparr>sys_plat = g, sys_world = w1, sys_run = {}\<rparr>
      [Notify BUS_NOTIFY_ADD_DEVICE True demo_pci_dev] \<lparr>sys_plat = g2, sys_world = w2, sys_run = {}\<rparr>"
    using step_notify [OF n] by (blast intro: run.intros)
  from empty [OF run] i run show ?thesis by (intro exI) auto
qed

end
