(* ===== verification/Lock_Trace.thy ===== *)
theory Lock_Trace
  imports Quiet_Calls File_Ops
begin

section \<open>Traces and the mutex\<close>

text \<open>
  Which events of the trace belong where: what touches the card or the slots' resources needs the
  mutex; what may wait for a handler, for the user or for another module must not run under it, with
  the one exception the code makes, the removal of a card's proc directory. A scan of a trace checks
  both, and that the mutex is taken and given back alternately. Reading the caller's memory
  (\<open>copy_from_user\<close>) leaves no event in a trace; a firmware transfer does that under the mutex.
\<close>

subsection \<open>Events under the mutex and outside of it\<close>

text \<open>Calls that touch the card or what a slot owns.\<close>

fun needs_mutex :: "kcall \<Rightarrow> bool" where
  "needs_mutex (KC_pci_write_config_byte p off v) = True"
| "needs_mutex (KC_pci_iomap p b l) = True"
| "needs_mutex (KC_pci_iounmap p a) = True"
| "needs_mutex (KC_pci_dev_get p) = True"
| "needs_mutex (KC_pci_dev_put p) = True"
| "needs_mutex (KC_pci_set_master p) = True"
| "needs_mutex (KC_schedule_delayed_work i n) = True"
| "needs_mutex (KC_cancel_delayed_work i) = True"
| "needs_mutex (KC_proc_create d n) = True"
| "needs_mutex (KC_remove_proc_subtree n) = True"
| "needs_mutex (KC_proc_mkdir n) = (n \<noteq> DRIVER_NAME)"
| "needs_mutex c = False"

text \<open>
  Calls that may wait for somebody who may want the mutex: removing a device calls the bus
  notifier, \<open>cancel_delayed_work_sync\<close> waits for the boot timeout, registering and unregistering a
  notifier waits for the notifiers of the bus, \<open>proc_remove\<close> and \<open>remove_proc_subtree\<close> for the readers
  of the files they remove; and calls that wait for the user's memory, a file system or another module.
\<close>

fun may_wait :: "kcall \<Rightarrow> bool" where
  "may_wait (KC_pci_stop_and_remove p) = True"
| "may_wait (KC_cancel_delayed_work_sync i) = True"
| "may_wait KC_bus_register_notifier = True"
| "may_wait KC_bus_unregister_notifier = True"
| "may_wait KC_proc_remove = True"
| "may_wait (KC_remove_proc_subtree n) = True"
| "may_wait KC_mutex_init = True"
| "may_wait KC_mutex_destroy = True"
| "may_wait (KC_copy_to_user a bs) = True"
| "may_wait (KC_h2d_xfer b bs a) = True"
| "may_wait (KC_filp_open p) = True"
| "may_wait KC_filp_close = True"
| "may_wait (KC_net_get b) = True"
| "may_wait (KC_epinfo_read b n) = True"
| "may_wait c = False"

fun removes_dir :: "kcall \<Rightarrow> bool" where
  "removes_dir (KC_remove_proc_subtree n) = True"
| "removes_dir c = False"

text \<open>Under the mutex nothing may wait, except that \<open>pcie_release_dev\<close> removes the card's directory there.\<close>

fun inside :: "event \<Rightarrow> bool" where
  "inside (Call c r) = (lock_free c \<and> (may_wait c \<longrightarrow> removes_dir c))"
| "inside (Readl a v) = True"
| "inside (Writel a v) = True"
| "inside (MemcpyToio a bs) = True"

fun outside :: "event \<Rightarrow> bool" where
  "outside (Call c r) = (lock_free c \<and> \<not> needs_mutex c)"
| "outside (Readl a v) = False"
| "outside (Writel a v) = False"
| "outside (MemcpyToio a bs) = False"

interpretation ring_inside: ring_closed K "did inside u" for K u
proof
  fix c w a v bs assume u: "did inside u w"
  show "did inside u (snd (kcall K c w))" if "ring_call c"
    by (rule did_kcall [OF u]) (use that in \<open>cases c; simp add: ring_call_def\<close>)
  show "did inside u (snd (readl K a w))"
    by (rule did_snoc [OF u, of _ "Readl a (fst (readl K a w))"]) (simp_all add: readl_def Let_def)
  show "did inside u (writel K v a w)"
    by (rule did_snoc [OF u, of _ "Writel a v"]) (simp_all add: writel_def Let_def)
  show "did inside u (memcpy_toio K a bs w)"
    by (rule did_snoc [OF u, of _ "MemcpyToio a bs"]) (simp_all add: memcpy_toio_def Let_def)
qed

interpretation card_inside: card_closed K "did inside u" for K u
proof
  fix c a w assume u: "did inside u w"
  show "did inside u (snd (kcall K c w))" if "card_call c"
    by (rule did_kcall [OF u]) (use that in \<open>cases c; simp\<close>)
  show "did inside u (snd (readl K a w))" by (rule ring_inside.reads [OF u])
qed

subsection \<open>Operations on the slots\<close>

lemmas refresh_did [simp] = card_inside.refresh
lemmas card_did [simp] = card_inside.ensure_mapped card_inside.read_board

lemma query_did [simp]: "did inside u w \<Longrightarrow> did inside u (snd (pcie_query_dev_info_locked K e i w))"
  by (simp add: pcie_query_dev_info_locked_def Let_def case_prod_beta split: option.split)

lemma query_all_did [simp]: "did inside u w \<Longrightarrow> did inside u (snd (query_all K i es w))"
  by (induction es arbitrary: i w) (simp_all add: Let_def case_prod_beta)

lemma unmap_did [simp]: "did inside u w \<Longrightarrow> did inside u (snd (pcie_boot_bar_unmap K e w))"
  by (simp add: pcie_boot_bar_unmap_def)

lemma detach_did [simp]: "did inside u w \<Longrightarrow> did inside u (snd (pcie_entry_detach_pdev K e w))"
  by (simp add: pcie_entry_detach_pdev_def Let_def case_prod_beta split: option.split)

lemma release_did [simp]: "did inside u w \<Longrightarrow> did inside u (snd (pcie_release_dev K i e w))"
  by (simp add: pcie_release_dev_def Let_def case_prod_beta)

lemma create_nodes_did [simp]: "did inside u w \<Longrightarrow> did inside u (snd (create_nodes K dir ns w))"
  by (induction ns arbitrary: w) (simp_all add: Let_def case_prod_beta)

lemma create_proc_did [simp]: "did inside u w \<Longrightarrow> did inside u (snd (pcie_create_proc_nodes K root e i w))"
  by (simp add: pcie_create_proc_nodes_def Let_def case_prod_beta)

lemma init_slot_did [simp]: "did inside u w \<Longrightarrow> did inside u (snd (pcie_init_slot K g pd i w))"
  by (simp add: pcie_init_slot_def pci_dev_get_def Let_def case_prod_beta)

lemma reconnect_did [simp]: "did inside u w \<Longrightarrow> did inside u (snd (pcie_try_reconnect_booting_locked K i pd e w))"
  by (simp add: pcie_try_reconnect_booting_locked_def pci_dev_get_def Let_def case_prod_beta)

lemma handle_add_did [simp]: "did inside u w \<Longrightarrow> did inside u (snd (pcie_handle_add_locked K pd g w))"
  by (simp add: pcie_handle_add_locked_def Let_def case_prod_beta)

lemma handle_del_did [simp]: "did inside u w \<Longrightarrow> did inside u (snd (pcie_handle_del_locked K pd g w))"
  by (simp add: pcie_handle_del_locked_def Let_def case_prod_beta)

lemma schedule_did [simp]: "did inside u w \<Longrightarrow> did inside u (snd (pcie_boot_timeout_schedule K i e w))"
  by (simp add: pcie_boot_timeout_schedule_def Let_def)

lemma xfer_locked_did:
  assumes "xfer_firmware_locked K req e w = Some ((res, e', hot), w')" "slot_ok i e"
  shows "did inside w w'"
  using assms
proof (cases rule: xfer_locked_cases)
  case (unmapped r)
  then show ?thesis using refresh_did [of w w K e] by simp
next
  case (not_ready r w1 pd)
  have "did inside w w1" using refresh_did [of w w K e] not_ready(6) by simp
  then show ?thesis using ring_inside.wait_ready [OF not_ready(7), of w] by simp
next
  case (images e1 w1 w2 pd)
  have "did inside w w1" using refresh_did [of w w K e] images(4) by simp
  then have w2: "did inside w w2" using ring_inside.wait_ready [OF images(5), of w] by simp
  from images(6) obtain w3 where x: "xfer_images K req e1 pcie_fw_xfer_order w2 = Some (res, w3)"
    and fin: "if res = Ret 0
         then hot \<and> (e', w') = pcie_boot_timeout_schedule K (unat (fx_slot_id req)) (e1\<lparr>e_state := AMBA_PCI_STATE_BOOTING\<rparr>) w3
         else \<not> hot \<and> e' = e1 \<and> w' = w3" by blast
  have "did inside w w3" by (rule ring_inside.images [OF x w2])
  then show ?thesis using fin schedule_did [of w w3 K "unat (fx_slot_id req)" "e1\<lparr>e_state := AMBA_PCI_STATE_BOOTING\<rparr>"]
    by (cases "res = Ret 0") (auto simp: prod_eq_iff)
qed simp

subsection \<open>What runs while the mutex is free\<close>

lemma simple_read_did: "did outside u w \<Longrightarrow> did outside u (snd (simple_read_from_buffer K buf n pos page w))"
  by (simp add: simple_read_from_buffer_def Let_def case_prod_beta)

lemma net_read_did: "did outside u w \<Longrightarrow> did outside u (snd (pcie_net_read_entry K net_text e sz w))"
  by (simp add: pcie_net_read_entry_def Let_def case_prod_beta)

lemma log_read_did: "did outside u w \<Longrightarrow> did outside u (snd (pcie_dev_log_read_entry K log_text e sz w))"
  by (simp add: pcie_dev_log_read_entry_def Let_def case_prod_beta)

lemma log_file_did: "did outside w (snd (pcie_proc_dev_log_read K log_text i buf n pos g w))"
  by (simp add: pcie_proc_dev_log_read_def Let_def case_prod_beta simple_read_did log_read_did split: sum.split)

subsection \<open>Scanning a trace\<close>

fun takes_mutex :: "event \<Rightarrow> bool" where
  "takes_mutex (Call c r) = (c = KC_mutex_lock)"
| "takes_mutex (Readl a v) = False"
| "takes_mutex (Writel a v) = False"
| "takes_mutex (MemcpyToio a bs) = False"

fun gives_mutex :: "event \<Rightarrow> bool" where
  "gives_mutex (Call c r) = (c = KC_mutex_unlock)"
| "gives_mutex (Readl a v) = False"
| "gives_mutex (Writel a v) = False"
| "gives_mutex (MemcpyToio a bs) = False"

definition mutex_step :: "bool \<Rightarrow> event \<Rightarrow> bool option" where
  "mutex_step h e =
     (if takes_mutex e then (if h then None else Some True)
      else if gives_mutex e then (if h then Some False else None)
      else if (if h then inside e else outside e) then Some h else None)"

primrec lock_scan :: "bool \<Rightarrow> event list \<Rightarrow> bool option" where
  "lock_scan h [] = Some h"
| "lock_scan h (e # evs) = (case mutex_step h e of None \<Rightarrow> None | Some h1 \<Rightarrow> lock_scan h1 evs)"

lemma mutex_step_simps [simp]:
  "mutex_step h (Call KC_mutex_lock r) = (if h then None else Some True)"
  "mutex_step h (Call KC_mutex_unlock r) = (if h then Some False else None)"
  "lock_free c \<Longrightarrow> mutex_step h (Call c r) = (if (if h then may_wait c \<and> \<not> removes_dir c else needs_mutex c) then None else Some h)"
  "mutex_step h (Readl a v) = (if h then Some True else None)"
  "mutex_step h (Writel a v) = (if h then Some True else None)"
  "mutex_step h (MemcpyToio a bs) = (if h then Some True else None)"
  by (auto simp: mutex_step_def)

lemma lock_scan_append:
  "lock_scan h (xs @ ys) = (case lock_scan h xs of None \<Rightarrow> None | Some h1 \<Rightarrow> lock_scan h1 ys)"
  by (induction xs arbitrary: h) (auto split: option.split)

lemma mutex_step_inside: "inside e \<Longrightarrow> mutex_step True e = Some True \<and> \<not> takes_mutex e"
  by (cases e) (auto simp: mutex_step_def)

lemma mutex_step_outside: "outside e \<Longrightarrow> mutex_step False e = Some False \<and> \<not> takes_mutex e"
  by (cases e) (auto simp: mutex_step_def)

lemma lock_scan_inside: "\<forall>e \<in> set evs. inside e \<Longrightarrow> lock_scan True evs = Some True \<and> filter takes_mutex evs = []"
  by (induction evs) (auto dest: mutex_step_inside)

lemma lock_scan_outside: "\<forall>e \<in> set evs. outside e \<Longrightarrow> lock_scan False evs = Some False \<and> filter takes_mutex evs = []"
  by (induction evs) (auto dest: mutex_step_outside)

text \<open>From one world to another the trace passes the scan, with at most \<open>n\<close> critical sections.\<close>

definition sections :: "nat \<Rightarrow> 'd world \<Rightarrow> 'd world \<Rightarrow> bool" where
  "sections n w w' \<longleftrightarrow>
     (\<exists>evs. w_trc w' = w_trc w @ evs \<and> lock_scan False evs = Some False \<and> length (filter takes_mutex evs) \<le> n)"

lemma sections_refl [simp]: "sections n w w"
  by (simp add: sections_def)

lemma sections_trans: "sections m w w1 \<Longrightarrow> sections n w1 w2 \<Longrightarrow> sections (m + n) w w2"
  by (fastforce simp: sections_def lock_scan_append)

lemma sections_outside: "sections n w w1 \<Longrightarrow> did outside w1 w2 \<Longrightarrow> sections n w w2"
  unfolding sections_def did_def by (fastforce simp: lock_scan_append dest: lock_scan_outside)

lemma outside_sections: "did outside w w1 \<Longrightarrow> sections n w1 w2 \<Longrightarrow> sections n w w2"
  using sections_trans [of 0 w w1 n w2] sections_outside [of 0 w w w1] by simp

lemma sections_kcall [simp]: "sections n u w \<Longrightarrow> (\<And>r. outside (Call c r)) \<Longrightarrow> sections n u (snd (kcall K c w))"
  by (erule sections_outside) simp

lemma sections_kdo [simp]: "sections n u w \<Longrightarrow> (\<And>r. outside (Call c r)) \<Longrightarrow> sections n u (kdo K c w)"
  by (simp add: kdo_def)

lemma section_held:
  assumes "did inside (kdo K KC_mutex_lock w) w1"
  shows "sections 1 w (kdo K KC_mutex_unlock w1)"
proof -
  obtain evs where "w_trc w1 = w_trc w @ Call KC_mutex_lock (fst (kcall K KC_mutex_lock w)) # evs" "\<forall>e \<in> set evs. inside e"
    using assms by (auto simp: did_def kdo_trc)
  with lock_scan_inside [OF this(2)] show ?thesis
    by (intro sections_def [THEN iffD2] exI [of _ "Call KC_mutex_lock (fst (kcall K KC_mutex_lock w)) # evs @
        [Call KC_mutex_unlock (fst (kcall K KC_mutex_unlock w1))]"]) (simp add: kdo_trc lock_scan_append)
qed

lemmas section_held_Suc [simp] = section_held [unfolded One_nat_def]

interpretation send_sections: send_closed K "sections n u" for K n u
proof
  fix c w assume "send_call c" and u: "sections n u w"
  then show "sections n u (snd (kcall K c w))" by (intro sections_kcall [OF u]) (cases c; simp)
qed

end
