(* ===== verification/Lock_Discipline.thy ===== *)
theory Lock_Discipline
  imports Lock_Trace Module_Exit
begin

section \<open>The mutex\<close>

text \<open>
  Everything the driver does to the card and to the slots happens under its one mutex, of the calls
  that might wait for somebody else only the removal of a card's proc directory happens under it, and
  every way out of a handler that returns gives back what it took: the trace of the whole life of the module passes the scan of \<open>Lock_Trace\<close>.
\<close>

subsection \<open>The handlers\<close>

lemma notify_sections: "sections 1 w (snd (pcie_pci_bus_notify K a is_pci pd g w))"
  by (simp add: pcie_pci_bus_notify_def Let_def case_prod_beta)

lemma timeout_sections: "sections 1 w (snd (pcie_boot_timeout_fn K e w))"
  by (simp add: pcie_boot_timeout_fn_def Let_def)

lemma target_sections: "h2d_target K g slot w = (res, w') \<Longrightarrow> sections 1 w w'"
  by (auto simp: h2d_target_def Let_def split: option.splits if_splits)

lemma query_sections: "sections 1 w (snd (pcie_ioctl_query_platform_info K argp g w))"
  by (simp add: pcie_ioctl_query_platform_info_def Let_def case_prod_beta)

text \<open>The two handlers that hand a device over do so with the mutex free: whatever critical sections the
  removal brings come after their own.\<close>

lemma xfer_ioctl_sections:
  assumes "pcie_ioctl_xfer_firmware K shl rm argp g w = Some ((Ret r, g'), w')" "plat_ok g"
    and rm: "\<And>pd h v. sections k v (snd (rm pd h v))"
  shows "sections (1 + k) w w'"
  using assms(1,2)
proof (cases rule: xfer_ioctl_cases)
  case (rejected q)
  then show ?thesis by simp
next
  case (ran bs req i e hot w1)
  have s: "sections 1 w (kdo K KC_mutex_unlock w1)"
    by (rule section_held [OF xfer_locked_did [OF ran(6) plat_ok_slot [OF assms(2) ran(4)]]])
  show ?thesis
  proof (cases "if hot then e_pdev e else None")
    case None
    with ran(7) have "w' = kdo K KC_mutex_unlock w1" by auto
    with s show ?thesis using sections_trans [OF s sections_refl, of k] by simp
  next
    case (Some pd)
    with ran(7) have "(g', w') = rm pd (set_entry g i e) (kdo K KC_mutex_unlock w1)" by auto
    with sections_trans [OF s rm [of "kdo K KC_mutex_unlock w1" pd "set_entry g i e"]] show ?thesis by (metis snd_conv)
  qed
qed

lemma reboot_sections:
  assumes rm: "\<And>pd h v. sections k v (snd (rm pd h v))"
  shows "sections (1 + k) w (snd (pcie_proc_reboot_write K rm i buf n pos g w))"
proof -
  have held: "sections 1 v (kdo K KC_mutex_unlock (kdo K KC_mutex_lock v))" for v by (rule section_held) simp
  have entry: "sections (1 + k) v (snd (pcie_reboot_write_entry K rm i cmd g v))" for cmd v
    using sections_trans [OF held sections_refl, of k v] sections_trans [OF held rm, of v]
    by (simp add: pcie_reboot_write_entry_def Let_def case_prod_beta del: section_held_Suc split: option.split)
  have km: "did outside w (snd (kcall K (KC_kmalloc (n + 1)) w))" by simp
  show ?thesis
    using sections_outside [OF sections_refl km, of "1 + k"] outside_sections [OF km entry]
    by (simp add: pcie_proc_reboot_write_def Let_def case_prod_beta split: option.split)
qed

text \<open>In particular the removal of a device, which calls the bus notifier, finds the mutex free.\<close>

lemma bus_remove_sections: "sections 1 w (snd (bus_remove K pd g w))"
proof -
  have "did outside w (kdo K (KC_pci_stop_and_remove (pd_handle pd)) w)" by simp
  from outside_sections [OF this notify_sections] show ?thesis
    by (simp add: bus_remove_def Let_def case_prod_beta)
qed

theorem removal_finds_mutex_free:
  "sections 2 w (snd (pcie_proc_reboot_write K (bus_remove K) i buf n pos g w))"
  "plat_ok g \<Longrightarrow> pcie_ioctl_xfer_firmware K shl (bus_remove K) argp g w = Some ((Ret r, g'), w') \<Longrightarrow> sections 2 w w'"
  using reboot_sections [of 1 "bus_remove K" w K i buf n pos g, OF bus_remove_sections]
    xfer_ioctl_sections [of K shl "bus_remove K" argp g w r g' w' 1, OF _ _ bus_remove_sections]
  by (simp_all add: numeral_2_eq_2)

subsection \<open>The steps\<close>

lemma removal_later_sections: "sections 0 w (snd (removal_later pd g w))"
  by (simp add: removal_later_def)

lemma ioctl_sections:
  assumes "pcie_file_ioctl K shl removal_later cmd arg g w = Some ((Ret r, g'), w')" "plat_ok g"
  shows "sections 1 w w'"
proof -
  consider (query) q where "pcie_ioctl_query_platform_info K arg g w = ((q, g'), w')"
    | (xfer) "pcie_ioctl_xfer_firmware K shl removal_later arg g w = Some ((Ret r, g'), w')"
    | (send_file) "pcie_ioctl_h2d_send_file K arg g w = Some (r, w')"
    | (send_buffer) "pcie_ioctl_h2d_send_buffer K arg g w = Some (r, w')" | (none) "w' = w"
    using assms(1) by (auto simp: pcie_file_ioctl_def bind_eq_Some_conv split: if_splits prod.splits)
  then show ?thesis
  proof cases
    case query
    then show ?thesis using query_sections [of w K arg g] by simp
  next
    case xfer
    from xfer_ioctl_sections [OF xfer assms(2) removal_later_sections] show ?thesis by simp
  next
    case send_file
    then show ?thesis by (rule send_sections.send_file [OF _ sections_refl target_sections])
  next
    case send_buffer
    then show ?thesis by (rule send_sections.send_buffer [OF _ sections_refl target_sections])
  qed simp
qed

lemma read_page_sections:
  assumes "\<And>g v. sections 1 v (snd (reader g PAGE_SIZE v))"
  shows "sections 1 w (snd (pcie_proc_read_page K reader buf n pos g w))"
proof -
  have km: "did outside w (snd (kcall K (KC_kmalloc PAGE_SIZE) w))" by simp
  then have rd: "sections 1 w (snd (reader g PAGE_SIZE (snd (kcall K (KC_kmalloc PAGE_SIZE) w))))"
    by (rule outside_sections [OF _ assms])
  have cp: "sections 1 w (snd (simple_read_from_buffer K buf n pos page v))" if "sections 1 w v" for page v
    by (rule sections_outside [OF that simple_read_did]) simp
  show ?thesis
    using sections_outside [OF sections_refl km] rd cp [OF rd]
    by (simp add: pcie_proc_read_page_def Let_def case_prod_beta split: sum.split)
qed

lemma dev_info_sections: "sections 1 w (snd (pcie_dev_info_read_entry K i e sz w))"
  by (simp add: pcie_dev_info_read_entry_def Let_def case_prod_beta)

lemma read_sections:
  assumes "proc_read ops K net_text log_text i = Some rd"
  shows "sections 1 w (snd (rd buf n pos g w))"
proof -
  have free: "sections 1 v (snd (pcie_net_read_entry K net_text e sz v))" for e sz v
    by (rule sections_outside [OF sections_refl net_read_did]) simp
  have log: "sections 1 w (snd (pcie_proc_dev_log_read K log_text i buf n pos g w))"
    by (rule sections_outside [OF sections_refl log_file_did])
  from assms show ?thesis
    by (cases ops)
      (auto simp: pcie_proc_status_read_def pcie_proc_dev_info_read_def pcie_proc_net_read_def case_prod_beta Let_def
        simp del: One_nat_def intro!: read_page_sections dev_info_sections free log)
qed

lemma step_sections:
  assumes "driver_step K shl s l t" "sys_ok s"
  shows "sections 1 (sys_world s) (sys_world t)"
  using assms(1)
proof cases
  case (step_notify a is_pci pd g w r g' w' rs)
  then show ?thesis using notify_sections [of w K a is_pci pd g] by simp
next
  case (step_timeout k rs g w e w')
  then show ?thesis using timeout_sections [of w K "g_devs g ! k"] by simp
next
  case (step_ioctl cmd arg g w r g' w' rs)
  then show ?thesis using ioctl_sections [OF step_ioctl(4)] assms(2) by (simp add: sys_ok_def)
next
  case (step_read i rd buf n pos g w r pos' g' w' ops net_text log_text rs)
  then show ?thesis using read_sections [OF step_read(6), of w buf n pos g] by simp
next
  case (step_write i wr buf n pos g w r pos' g' w' ops rs)
  then show ?thesis
    using reboot_sections [of 0 removal_later w K i buf n pos g, OF removal_later_sections] proc_write_reboot [OF step_write(6)] by simp
qed simp

lemma run_sections:
  "run (driver_step K shl) s ls t \<Longrightarrow> sys_ok s \<Longrightarrow> sections (length ls) (sys_world s) (sys_world t)"
proof (induction rule: run.induct)
  case (run_cons s l t ls u)
  have "sections (1 + length ls) (sys_world s) (sys_world u)"
    by (rule sections_trans [OF step_sections [OF run_cons.hyps(1) run_cons.prems]
          run_cons.IH [OF driver_step_ok [OF run_cons.hyps(1) run_cons.prems]]])
  then show ?case by simp
qed simp

subsection \<open>Loading and unloading\<close>

interpretation inside_scan: scan_invariant K "\<lambda>g w. did inside u w" for K u
proof
  fix g w pd g' w' assume "did inside u w" "pcie_handle_add_locked K pd g w = (g', w')"
  then show "did inside u w'" using handle_add_did [of u w K pd g] by simp
next
  fix w w' :: "'a world" assume "did inside u w" "w_trc w' = w_trc w"
  then show "did inside u w'" by (simp add: did_def)
qed simp

lemma scan_sections:
  assumes "pcie_enumerate_existed_devs K next_dev g w = Some (g', w')" "device_walk next_dev rank"
  shows "sections 1 w w'"
proof -
  from assms(1) obtain w1 where s: "scan_slots K next_dev pcie_physical_slots g (kdo K KC_mutex_lock w) = Some (g', w1)"
    and w': "w' = kdo K KC_mutex_unlock w1"
    by (auto simp: pcie_enumerate_existed_devs_def bind_eq_Some_conv)
  have "\<forall>s \<in> set pcie_physical_slots. ps_target_device s = AMBA_PCI_TARGET_DEVICE_ID" by (simp add: pcie_physical_slots_def)
  from section_held [OF inside_scan.scan_slots_keeps [OF assms(2) this s did_refl]] show ?thesis unfolding w' .
qed

lemma cleanup_sections: "sections n u w \<Longrightarrow> sections n u (snd (init_cleanup K a b c g w))"
  by (simp add: init_cleanup_def Let_def case_prod_beta)

lemma load_sections:
  assumes "amba_pci_platform_init K devt next_dev g w = Some ((r, g'), w')" "device_walk next_dev rank"
  shows "sections 1 w w'"
proof -
  have cleanup: "sections 1 w v'" if "init_failed K a b c x h v = Some ((r, g'), v')" "sections 1 w v" for a b c x h v v'
    using that cleanup_sections [of 1 w v K a b c h] by (simp add: init_failed_def case_prod_beta)
  have scan: "sections 1 w w'" if "pcie_enumerate_existed_devs K next_dev h v = Some (g', w')" "did outside w v" for h v
    by (rule outside_sections [OF that(2) scan_sections [OF that(1) assms(2)]])
  show ?thesis
    using assms(1)
    by (auto simp: amba_pci_platform_init_def Let_def case_prod_beta bind_eq_Some_conv split: if_splits
        simp del: One_nat_def dest!: scan elim!: cleanup)
qed

lemma each_entry_closed:
  assumes "\<And>i e v. P v \<Longrightarrow> P (snd (f i e v))"
  shows "P w \<Longrightarrow> P (snd (each_entry f i es w))"
  by (induction es arbitrary: i w) (simp_all add: Let_def case_prod_beta assms)

lemma each_entry_sections:
  assumes "\<And>i e v. sections 1 v (snd (f i e v))"
  shows "sections (length es) w (snd (each_entry f i es w))"
proof (induction es arbitrary: i w)
  case (Cons e es)
  have "sections (1 + length es) w (snd (each_entry f (Suc i) es (snd (f i e w))))"
    by (rule sections_trans [OF assms Cons.IH])
  then show ?case by (simp add: Let_def case_prod_beta)
qed simp

lemma cancel_sections: "sections 1 w (snd (cancel_work_sync K i running e w))"
  using timeout_sections [of w K e] by (simp add: cancel_work_sync_def Let_def case_prod_beta)

lemma unload_sections:
  assumes "amba_pci_platform_exit K running g w = (g', w')"
  shows "sections (length (g_devs g) + 1) w w'"
proof (rule exit_split [OF assms])
  fix es w1
  assume s: "exit_slots K running (g_devs g) (kdo K KC_bus_unregister_notifier w) = (es, w1)"
    and c: "init_cleanup K True True False (g\<lparr>g_devs := es, g_next_dev_id := 0\<rparr>) w1 = (g', w')"
  let ?w0 = "kdo K KC_bus_unregister_notifier w"
  let ?w2 = "snd (each_entry (\<lambda>i. cancel_work_sync K i (i \<in> running)) 0 (g_devs g) ?w0)"
  have w2: "sections (length (g_devs g)) w ?w2"
    by (rule outside_sections [OF _ each_entry_sections [OF cancel_sections]]) simp
  have held: "did inside (kdo K KC_mutex_lock ?w2) (snd (each_entry (pcie_release_dev K) 0 h (kdo K KC_mutex_lock ?w2)))" for h
    by (rule each_entry_closed) simp_all
  have "sections (length (g_devs g) + 1) w w1"
    using sections_trans [OF w2 section_held [OF held]] s by (auto simp: exit_slots_def Let_def case_prod_beta)
  from cleanup_sections [OF this, of K True True False "g\<lparr>g_devs := es, g_next_dev_id := 0\<rparr>"] c
  show ?thesis by simp
qed

text \<open>C10: The mutex over the whole life of the module, from a successful load over any run of the handlers
  to the unload: it is taken and given back alternately, at most once by each handler, and is free at
  the end, whatever errors the handlers return; every access to the card's registers and every call
  that touches the card or what a slot owns happens while it is held; and of the recorded calls that
  may wait for a handler of the driver, for the user or for another module, only one kind is made while it
  is held: the removal of a card's proc directory, which can deadlock with a reader (\<open>Proc_Deadlock\<close>). Reading the
  caller's memory is not a recorded call; a firmware transfer does it while the mutex is held.\<close>

theorem mutex_discipline:
  assumes "amba_pci_platform_init K devt next_dev zero_platform w = Some ((0, g), w1)"
    and "calls w = []" and "device_walk next_dev rank"
    and "run (driver_step K shl) \<lparr>sys_plat = g, sys_world = w1, sys_run = {}\<rparr> ls t"
    and "amba_pci_platform_exit K (sys_run t) (sys_plat t) (sys_world t) = (g', w')"
  shows "\<exists>evs. w_trc w' = w_trc w @ evs \<and> lock_scan False evs = Some False \<and>
    length (filter takes_mutex evs) \<le> length ls + AMBA_PCI_DEV_MAX + 2"
proof -
  obtain g0 where l: "load_inv g0 (held True True True g0) g w1" by (rule load_establishes [OF assms(1-3)])
  have ok: "sys_ok t" by (rule load_run_inv(1) [OF l assms(4)])
  then have len: "length (g_devs (sys_plat t)) = AMBA_PCI_DEV_MAX" by (simp add: sys_ok_def plat_ok_def)
  have "sections (length ls) w1 (sys_world t)"
    using run_sections [OF assms(4)] load_sys_ok [OF l] by simp
  from sections_trans [OF sections_trans [OF load_sections [OF assms(1,3)] this] unload_sections [OF assms(5)]] len
  show ?thesis by (simp add: sections_def algebra_simps)
qed

theorem mutex_discipline_witness:
  "\<exists>g w1 t g' w'. amba_pci_platform_init demo_kernel (\<lambda>w. 0xFE00000) demo_next_dev zero_platform demo_world = Some ((0, g), w1) \<and>
     run (driver_step demo_kernel (\<lambda>x. x)) \<lparr>sys_plat = g, sys_world = w1, sys_run = {}\<rparr> [Notify BUS_NOTIFY_DEL_DEVICE True demo_pci_dev] t \<and>
     amba_pci_platform_exit demo_kernel {} (sys_plat t) (sys_world t) = (g', w') \<and> lock_scan False (w_trc w') = Some False"
proof -
  obtain g w1 where i: "amba_pci_platform_init demo_kernel (\<lambda>w. 0xFE00000) demo_next_dev zero_platform demo_world = Some ((0, g), w1)"
    using load_granted_returns [OF demo_granted(1) demo_walk] by blast
  obtain r g2 w2 where n: "pcie_pci_bus_notify demo_kernel BUS_NOTIFY_DEL_DEVICE True demo_pci_dev g w1 = ((r, g2), w2)"
    by (metis prod.exhaust)
  let ?t = "\<lparr>sys_plat = g2, sys_world = w2, sys_run = {}\<rparr>"
  have run: "run (driver_step demo_kernel (\<lambda>x. x)) \<lparr>sys_plat = g, sys_world = w1, sys_run = {}\<rparr>
      [Notify BUS_NOTIFY_DEL_DEVICE True demo_pci_dev] ?t"
    using step_notify [OF n] by (blast intro: run.intros)
  obtain g' w' where e: "amba_pci_platform_exit demo_kernel (sys_run ?t) (sys_plat ?t) (sys_world ?t) = (g', w')"
    by (metis prod.exhaust)
  have none: "calls demo_world = []" "w_trc demo_world = []" by (simp_all add: calls_def demo_world_def)
  from mutex_discipline [OF i none(1) demo_walk run e] none i run e
  show ?thesis by (intro exI [of _ g] exI [of _ w1] exI [of _ ?t] exI [of _ g'] exI [of _ w']) simp
qed

end
