(* ===== verification/Handover_Races.thy ===== *)
theory Handover_Races
  imports System_Safety
begin

section \<open>The hand-over of a rebooting card\<close>

text \<open>
  \<open>pcie_reboot_write_entry\<close> (\<open>amba_pci_platform_main.c\<close>, lines 628 to 682) marks the card as rebooting
  under the mutex, releases the mutex, and only then reads the device pointer again to hand the
  device to the PCI core. In \<open>Proc_Ops\<close> the function is one step; here it is cut at the unlock, so that
  other handlers can come in between.
\<close>

definition reboot_hand_over ::
  "'d remove_fn \<Rightarrow> nat \<Rightarrow> amba_pci_platform \<Rightarrow> 'd world \<Rightarrow> (outcome \<times> amba_pci_platform) \<times> 'd world" where
  "reboot_hand_over rm i g w =
     (case e_pdev (g_devs g ! i) of
        None \<Rightarrow> ((Null_Deref, g), w)
      | Some pd \<Rightarrow> let (g1, w1) = rm pd g w in ((Ret 0, g1), w1))"

text \<open>Without anything in between, the two parts are the function.\<close>

lemma reboot_entry_split:
  assumes "i < length (g_devs g)"
  shows "pcie_reboot_write_entry K rm i text g w =
    (let ((r, g1), w1) = pcie_reboot_write_entry K removal_later i text g w
     in if r < 0 then ((r, g1), w1)
        else let ((res, g2), w2) = reboot_hand_over rm i g1 w1 in ((r, g2), w2))"
proof (cases "e_in_use (g_devs g ! i) \<and> text \<noteq> [] \<and> reboot_cmd text = Some 1 \<and>
    e_pdev (g_devs g ! i) \<noteq> None \<and> e_state (g_devs g ! i) = AMBA_PCI_STATE_CONNECTED")
  case True
  then obtain pd where "e_pdev (g_devs g ! i) = Some pd" by blast
  with True assms show ?thesis
    by (simp add: pcie_reboot_write_entry_def reboot_hand_over_def removal_later_def Let_def case_prod_beta set_entry_def)
next
  case False
  then show ?thesis
    by (auto simp: pcie_reboot_write_entry_def removal_later_def Let_def split: option.splits)
qed

lemma accepted_reboot:
  assumes "driver_step K shl s (Write_File ops i buf n pos r) t" "sys_ok s" "0 \<le> r"
  obtains pd where "e_pdev (g_devs (sys_plat s) ! i) = Some pd" "i < AMBA_PCI_DEV_MAX"
    "abs_slot (g_devs (sys_plat t) ! i) = Card AMBA_PCI_STATE_REBOOTING (Some pd)"
  using assms(1)
proof cases
  case (step_write wr g w pos' g' w' rs)
  have p: "plat_ok g" using assms(2) unfolding step_write(1) by (simp add: sys_ok_def)
  have "pcie_proc_reboot_write K removal_later i buf n pos g w = ((r, pos', g'), w')"
    using step_write(4) proc_write_reboot [OF step_write(5)] by simp
  then show thesis
  proof (cases rule: reboot_cases_later)
    case refused
    with assms(3) show thesis by simp
  next
    case (accepted pd)
    show thesis
      by (rule that [of pd]) (use accepted step_write p in \<open>auto simp: set_entry_nth plat_ok_def abs_slot_def\<close>)
  qed
qed

lemma hand_over_device:
  "abs_slot (g_devs g ! i) = Card st (Some pd) \<Longrightarrow>
     reboot_hand_over rm i g w = (let (g1, w1) = rm pd g w in ((Ret 0, g1), w1))"
  by (auto simp: abs_slot_def reboot_hand_over_def split: if_splits)

lemma hand_over_empty:
  "plat_ok g \<Longrightarrow> i < AMBA_PCI_DEV_MAX \<Longrightarrow> abs_slot (g_devs g ! i) = Empty \<Longrightarrow>
     reboot_hand_over rm i g w = ((Null_Deref, g), w)"
  using plat_ok_slot [of g i] by (auto simp: abs_slot_def reboot_hand_over_def slot_ok_def split: if_splits)

lemma removal_empties:
  assumes "sys_ok t" "i < AMBA_PCI_DEV_MAX" "abs_slot (g_devs (sys_plat t) ! i) = Card AMBA_PCI_STATE_REBOOTING (Some pd)"
  obtains u where "driver_step K shl t (Notify BUS_NOTIFY_DEL_DEVICE True pd) u" "sys_ok u"
    "abs_slot (g_devs (sys_plat u) ! i) = Empty"
proof -
  obtain g w rs where t: "t = \<lparr>sys_plat = g, sys_world = w, sys_run = rs\<rparr>" by (cases t) simp
  have p: "plat_ok g" using assms(1) by (simp add: t sys_ok_def)
  obtain r g' w' where n: "pcie_pci_bus_notify K BUS_NOTIFY_DEL_DEVICE True pd g w = ((r, g'), w')" by (metis prod.exhaust)
  let ?u = "\<lparr>sys_plat = g', sys_world = w', sys_run = rs\<rparr>"
  have step: "driver_step K shl t (Notify BUS_NOTIFY_DEL_DEVICE True pd) ?u" unfolding t by (rule step_notify [OF n])
  have id: "get_pci_slot_id pd = int i"
    using plat_ok_slot [OF p assms(2)] assms(3) by (auto simp: t abs_slot_def slot_ok_def split: if_splits)
  note ref = bus_notify_refines [OF n p]
  have len: "length (g_devs g) = 4" "length (g_devs g') = 4" using p ref by (simp_all add: plat_ok_def)
  have "abs_slot (g_devs g' ! i) = map abs_slot (g_devs g') ! i" using len(2) assms(2) by simp
  also have "\<dots> = Empty" using ref id assms(2,3) len(1) by (simp add: on_slot_at spec_del_simps t)
  finally show thesis using step driver_step_ok [OF step assms(1)] by (intro that [of ?u]) simp_all
qed

text \<open>C40: An accepted reboot hands the device to the PCI core after the mutex was released, and reads the
  pointer again for it. As long as the bus does not report the removal of a device of the slot in
  between, the device that is handed over is the one that was rebooted, whatever else the driver is
  asked to do in the meantime. If the bus does report it, which it may do at any moment, the slot is
  empty and a NULL pointer is handed over.\<close>

theorem reboot_hand_over_races:
  assumes "driver_step K shl s (Write_File ops i buf n pos r) t" and "sys_ok s" and "0 \<le> r"
  shows "\<exists>pd. e_pdev (g_devs (sys_plat s) ! i) = Some pd \<and>
    (\<forall>ls u. run (driver_step K shl) t ls u \<longrightarrow> (\<forall>l \<in> set ls. \<not> removes_slot i l) \<longrightarrow>
       reboot_hand_over rm i (sys_plat u) (sys_world u) =
         (let (g, w) = rm pd (sys_plat u) (sys_world u) in ((Ret 0, g), w))) \<and>
    (\<exists>u. driver_step K shl t (Notify BUS_NOTIFY_DEL_DEVICE True pd) u \<and>
       reboot_hand_over rm i (sys_plat u) (sys_world u) = ((Null_Deref, sys_plat u), sys_world u))"
proof -
  obtain pd where pd: "e_pdev (g_devs (sys_plat s) ! i) = Some pd" "i < AMBA_PCI_DEV_MAX"
    "abs_slot (g_devs (sys_plat t) ! i) = Card AMBA_PCI_STATE_REBOOTING (Some pd)"
    by (rule accepted_reboot [OF assms])
  have t: "sys_ok t" by (rule driver_step_ok [OF assms(1,2)])
  obtain u where u: "driver_step K shl t (Notify BUS_NOTIFY_DEL_DEVICE True pd) u" "sys_ok u"
    "abs_slot (g_devs (sys_plat u) ! i) = Empty" by (rule removal_empties [OF t pd(2,3)])
  have "plat_ok (sys_plat u)" using u(2) by (simp add: sys_ok_def)
  from u(1) hand_over_empty [OF this pd(2) u(3)]
  have gone: "\<exists>u. driver_step K shl t (Notify BUS_NOTIFY_DEL_DEVICE True pd) u \<and>
       reboot_hand_over rm i (sys_plat u) (sys_world u) = ((Null_Deref, sys_plat u), sys_world u)" by blast
  have "reboot_hand_over rm i (sys_plat v) w = (let (g, w) = rm pd (sys_plat v) w in ((Ret 0, g), w))"
    if "run (driver_step K shl) t ls v" "\<forall>l \<in> set ls. \<not> removes_slot i l" for ls v w
    by (rule hand_over_device [OF settled_run [OF that(1) t pd(2,3) _ that(2)]]) simp
  with pd(1) gone show ?thesis by blast
qed

definition connected_sys :: "nat sys" where
  "connected_sys = booting_sys\<lparr>sys_plat := connected_platform\<rparr>"

lemma connected_sys_ok: "sys_ok connected_sys"
proof -
  have devs: "g_devs connected_platform = [connected_entry, zero_entry, zero_entry, zero_entry]"
    by (simp add: connected_platform_def set_entry_def demo_platform_def zero_platform_def numeral_eq_Suc)
  have "rcalls (sys_world connected_sys) = [(KC_proc_mkdir (slot_proc_name 0), 1), (KC_pci_dev_get (pd_handle demo_pci_dev), 0)]"
    by (simp add: connected_sys_def booting_sys_def rcalls_def calls_def)
  then have "ledgers_ok connected_platform (sys_world connected_sys)"
    by (auto simp: ledgers_ok_def plat_gap_def balance_def devs map_own_def proc_own_def ref_own_def
        connected_entry_def demo_entry_def zero_entry_def)
  moreover have "booting_watched connected_platform (sys_run connected_sys)"
    by (auto simp: booting_watched_def devs connected_entry_def zero_entry_def elim!: less_4_cases)
  ultimately show ?thesis using connected_platform_ok by (simp add: sys_ok_def connected_sys_def booting_sys_def)
qed

theorem reboot_hand_over_races_witness:
  "\<exists>t u. driver_step reboot_kernel (\<lambda>x. x) connected_sys (Write_File Reboot_Ops 0 0x1000 2 0 2) t \<and>
     driver_step reboot_kernel (\<lambda>x. x) t (Notify BUS_NOTIFY_DEL_DEVICE True demo_pci_dev) u \<and>
     fst (fst (reboot_hand_over removal_later 0 (sys_plat u) (sys_world u))) = Null_Deref \<and>
     fst (fst (reboot_hand_over removal_later 0 (sys_plat t) (sys_world t))) = Ret 0"
proof -
  obtain g' w' where run: "pcie_proc_reboot_write reboot_kernel removal_later 0 0x1000 2 0 connected_platform
      (sys_world connected_sys) = ((2, 2, g'), w')" using reboot_run by blast
  let ?t = "\<lparr>sys_plat = g', sys_world = w', sys_run = sys_run connected_sys\<rparr>"
  have sys: "connected_sys = \<lparr>sys_plat = connected_platform, sys_world = sys_world connected_sys, sys_run = sys_run connected_sys\<rparr>"
    by (simp add: connected_sys_def booting_sys_def)
  have step: "driver_step reboot_kernel (\<lambda>x. x) connected_sys (Write_File Reboot_Ops 0 0x1000 2 0 2) ?t"
    by (subst sys) (rule step_write [where wr = "pcie_proc_reboot_write reboot_kernel removal_later 0", OF _ run], simp_all)
  have "e_pdev (g_devs (sys_plat connected_sys) ! 0) = Some demo_pci_dev"
    using connected_platform_entry by (simp add: connected_sys_def connected_entry_def demo_entry_def)
  with reboot_hand_over_races [OF step connected_sys_ok, of removal_later]
  have kept: "\<forall>ls u. run (driver_step reboot_kernel (\<lambda>x. x)) ?t ls u \<longrightarrow> (\<forall>l \<in> set ls. \<not> removes_slot 0 l) \<longrightarrow>
      reboot_hand_over removal_later 0 (sys_plat u) (sys_world u) =
        (let (g, w) = removal_later demo_pci_dev (sys_plat u) (sys_world u) in ((Ret 0, g), w))"
    and gone: "\<exists>u. driver_step reboot_kernel (\<lambda>x. x) ?t (Notify BUS_NOTIFY_DEL_DEVICE True demo_pci_dev) u \<and>
      reboot_hand_over removal_later 0 (sys_plat u) (sys_world u) = ((Null_Deref, sys_plat u), sys_world u)" by auto
  have "fst (fst (reboot_hand_over removal_later 0 (sys_plat ?t) (sys_world ?t))) = Ret 0"
    using kept [rule_format, OF run_nil] by (simp add: removal_later_def)
  with step gone show ?thesis by (metis fst_conv)
qed

end
