(* ===== verification/Boot_Cycle.thy ===== *)
theory Boot_Cycle
  imports Boot_Races
begin

section \<open>A boot from the ioctl to the running card\<close>

text \<open>
  The steps of one boot, composed: the firmware ioctl, the removal of the boot function that it asks
  the PCI core for, and the arrival of the booted system's virtio function on the same bus.
\<close>

lemma step_notify_refines:
  assumes "driver_step K shl s (Notify a True pd) t" "sys_ok s" "get_pci_slot_id pd = int i"
  shows "a = BUS_NOTIFY_DEL_DEVICE \<Longrightarrow> abs_slot (g_devs (sys_plat t) ! i) = spec_del (abs_slot (g_devs (sys_plat s) ! i))"
    and "a = BUS_NOTIFY_ADD_DEVICE \<Longrightarrow> is_virtio_dev K pd (kdo K KC_mutex_lock (sys_world s)) \<Longrightarrow>
      abs_slot (g_devs (sys_plat s) ! i) = Card AMBA_PCI_STATE_BOOTING d \<Longrightarrow>
      abs_slot (g_devs (sys_plat t) ! i) = Card AMBA_PCI_STATE_CONNECTED (Some pd)"
proof -
  have i: "i < 4" using slot_id_index [of pd] assms(3) by simp
  from assms(1) obtain g w r g' w' rs where s: "s = \<lparr>sys_plat = g, sys_world = w, sys_run = rs\<rparr>"
    and t: "t = \<lparr>sys_plat = g', sys_world = w', sys_run = rs\<rparr>"
    and n: "pcie_pci_bus_notify K a True pd g w = ((r, g'), w')" by (rule driver_step.cases) auto
  have p: "plat_ok g" using assms(2) by (simp add: s sys_ok_def)
  note ref = bus_notify_refines [OF n p]
  have len: "length (g_devs g) = 4" "length (g_devs g') = 4" using p ref by (simp_all add: plat_ok_def)
  have at: "abs_slot (g_devs (sys_plat t) ! i) = map abs_slot (g_devs g') ! i" using len i by (simp add: t)
  show "abs_slot (g_devs (sys_plat t) ! i) = spec_del (abs_slot (g_devs (sys_plat s) ! i))"
    if "a = BUS_NOTIFY_DEL_DEVICE"
    unfolding at using ref that len(1) i assms(3) by (simp add: on_slot_at s)
  show "abs_slot (g_devs (sys_plat t) ! i) = Card AMBA_PCI_STATE_CONNECTED (Some pd)"
    if "a = BUS_NOTIFY_ADD_DEVICE" "is_virtio_dev K pd (kdo K KC_mutex_lock (sys_world s))"
      "abs_slot (g_devs (sys_plat s) ! i) = Card AMBA_PCI_STATE_BOOTING d"
    unfolding at using ref that len(1) i assms(3) by (simp add: on_slot_at s Let_def kind_of_def spec_add_simps)
qed

lemma connected_target_bus:
  assumes "abs_slot (g_devs g ! unat slot) = Card AMBA_PCI_STATE_CONNECTED (Some pd)"
  shows "fst (h2d_target K g slot w) = Inr (ucast (pd_bus pd))"
  using assms by (auto simp: abs_slot_def h2d_target_def Let_def split: if_splits)

text \<open>C5: A whole boot: after a firmware ioctl that returned 0 the slot is booting and its timeout is armed;
  when the bus then reports the boot function gone, the slot keeps waiting without a device; when a
  virtio function of the card appears on the same bus, the slot is connected to it, its timeout is
  disarmed, and from then on the send ioctls accept the slot and address the bus of the card.\<close>

theorem booted_card_connects:
  assumes "driver_step K shl s (Ioctl AMBA_PCI_XFER_FIRMWARE arg 0) t" and "sys_ok s"
    and "copy_from_user K arg 96 = Some bs" and "i = unat (fx_slot_id (fw_xfer_of_bytes bs))"
    and "driver_step K shl t (Notify BUS_NOTIFY_DEL_DEVICE True pd) u" and "get_pci_slot_id pd = int i"
    and "driver_step K shl u (Notify BUS_NOTIFY_ADD_DEVICE True vd) v" and "get_pci_slot_id vd = int i"
    and "is_virtio_dev K vd (kdo K KC_mutex_lock (sys_world u))"
  shows "abs_slot (g_devs (sys_plat t) ! i) = Card AMBA_PCI_STATE_BOOTING (e_pdev (g_devs (sys_plat s) ! i)) \<and>
    e_work_pending (g_devs (sys_plat t) ! i) \<and>
    abs_slot (g_devs (sys_plat u) ! i) = Card AMBA_PCI_STATE_BOOTING None \<and>
    abs_slot (g_devs (sys_plat v) ! i) = Card AMBA_PCI_STATE_CONNECTED (Some vd) \<and>
    \<not> e_work_pending (g_devs (sys_plat v) ! i) \<and>
    fst (h2d_target K (sys_plat v) (fx_slot_id (fw_xfer_of_bytes bs)) w) = Inr (ucast (pd_bus vd))"
proof -
  have ok: "sys_ok t" "sys_ok u" "sys_ok v"
    using driver_step_ok assms(1,2,5,7) by blast+
  have i: "i < 4" using slot_id_index [of pd] assms(6) by simp
  from assms(1) have t: "abs_slot (g_devs (sys_plat t) ! i) = Card AMBA_PCI_STATE_BOOTING (e_pdev (g_devs (sys_plat s) ! i)) \<and>
      e_work_pending (g_devs (sys_plat t) ! i)"
  proof cases
    case (step_ioctl g w g' w' rs)
    have x: "pcie_ioctl_xfer_firmware K shl removal_later arg g w = Some ((Ret 0, g'), w')"
      using step_ioctl(3) by (simp add: pcie_file_ioctl_def ioctl_numbers)
    have "plat_ok g" using assms(2) unfolding step_ioctl(1) by (simp add: sys_ok_def)
    from x this show ?thesis
      by (cases rule: boot_started) (use assms(3,4) step_ioctl(1,2) in \<open>simp add: abs_slot_def\<close>)
  qed
  have u: "abs_slot (g_devs (sys_plat u) ! i) = Card AMBA_PCI_STATE_BOOTING None"
    using step_notify_refines(1) [OF assms(5) ok(1) assms(6)] t by simp
  have v: "abs_slot (g_devs (sys_plat v) ! i) = Card AMBA_PCI_STATE_CONNECTED (Some vd)"
    by (rule step_notify_refines(2) [OF assms(7) ok(2) assms(8) refl assms(9) u])
  have "slot_ok i (g_devs (sys_plat v) ! i)" using plat_ok_slot i ok(3) by (simp add: sys_ok_def)
  then have "\<not> e_work_pending (g_devs (sys_plat v) ! i)" using v by (auto simp: slot_ok_def abs_slot_def split: if_splits)
  with t u v connected_target_bus assms(4) show ?thesis by simp
qed

definition demo_virtio_dev :: pci_dev where
  "demo_virtio_dev = demo_pci_dev\<lparr>pd_handle := 2, pd_device := 0x500\<rparr>"

theorem booted_card_connects_witness:
  "\<exists>t u v. driver_step demo_prompt_kernel shl32 race_sys (Ioctl AMBA_PCI_XFER_FIRMWARE 0x1000 0) t \<and>
     driver_step demo_prompt_kernel shl32 t (Notify BUS_NOTIFY_DEL_DEVICE True demo_pci_dev) u \<and>
     driver_step demo_prompt_kernel shl32 u (Notify BUS_NOTIFY_ADD_DEVICE True demo_virtio_dev) v \<and>
     abs_slot (g_devs (sys_plat v) ! 0) = Card AMBA_PCI_STATE_CONNECTED (Some demo_virtio_dev)"
proof -
  let ?K = demo_prompt_kernel
  have notify: "\<exists>t. driver_step ?K shl32 s (Notify a True pd) t" for s a pd
  proof -
    obtain r g' w' where "pcie_pci_bus_notify ?K a True pd (sys_plat s) (sys_world s) = ((r, g'), w')" by (metis prod.exhaust)
    from step_notify [OF this, of shl32 "sys_run s"] show ?thesis by (metis sys.surjective old.unit.exhaust)
  qed
  obtain t where t: "driver_step ?K shl32 race_sys (Ioctl AMBA_PCI_XFER_FIRMWARE 0x1000 0) t" by (rule race_ioctl)
  obtain u where u: "driver_step ?K shl32 t (Notify BUS_NOTIFY_DEL_DEVICE True demo_pci_dev) u" using notify by blast
  obtain v where v: "driver_step ?K shl32 u (Notify BUS_NOTIFY_ADD_DEVICE True demo_virtio_dev) v" using notify by blast
  have ids: "get_pci_slot_id demo_pci_dev = int 0" "get_pci_slot_id demo_virtio_dev = int 0"
    by (simp_all add: get_pci_slot_id_cases demo_pci_dev_def demo_virtio_dev_def)
  have vd: "is_virtio_dev ?K demo_virtio_dev w" for w
    by (simp add: is_virtio_dev_def pci_resource_len_def demo_virtio_dev_def demo_pci_dev_def prompt_kernel_def demo_fw_kernel_def)
  have "0 = unat (fx_slot_id (fw_xfer_of_bytes (fw_xfer_bytes demo_req)))"
    using demo_prompt_request(2) by (simp add: demo_req_def)
  note booted_card_connects [OF t race_sys_ok demo_prompt_request(1) [unfolded size_of_abi] this u ids(1) v ids(2) vd]
  with t u v show ?thesis by blast
qed

subsection \<open>A boot that never finishes\<close>

text \<open>C7: A booting card is never forgotten: whatever the handlers have done since the load, in whatever
  order, whenever a slot is booting its boot timeout can fire, in at most two steps, the expiry of its timer
  and the run of its function, or only the second; then the slot is failed and keeps its device, while every other slot is as before.\<close>

theorem booting_card_times_out:
  assumes "run (driver_step K shl) (fresh_sys root w) ls0 s" and "calls w = []"
    and "i < AMBA_PCI_DEV_MAX" and "e_state (g_devs (sys_plat s) ! i) = AMBA_PCI_STATE_BOOTING"
  shows "\<exists>ls t. run (driver_step K shl) s ls t \<and> ls \<in> {[Timeout i], [Expire i, Timeout i]} \<and>
    (\<forall>j < AMBA_PCI_DEV_MAX. abs_slot (g_devs (sys_plat t) ! j) =
       (if j = i then Card AMBA_PCI_STATE_BOOT_FAILED (e_pdev (g_devs (sys_plat s) ! i)) else abs_slot (g_devs (sys_plat s) ! j)))"
  by (rule booting_slot_fails [OF driver.run_inv [OF assms(1) fresh_sys_ok [OF assms(2)]] assms(3,4)])

text \<open>A card that is found and given its firmware.\<close>

lemma demo_found_platform:
  "\<exists>w'. driver_step demo_fw_kernel shl32 (fresh_sys 1 demo_world) (Notify BUS_NOTIFY_ADD_DEVICE True demo_pci_dev)
     \<lparr>sys_plat = demo_fw_platform\<lparr>g_next_dev_id := 1\<rparr>, sys_world = w', sys_run = {}\<rparr>"
proof -
  have kind: "is_boot_dev demo_fw_kernel demo_pci_dev w" "\<not> is_virtio_dev demo_fw_kernel demo_pci_dev w" for w
    by (simp_all add: is_boot_dev_def is_virtio_dev_def pci_resource_len_def demo_pci_dev_def)
  have slot: "get_pci_slot_id demo_pci_dev = 0" by (simp add: get_pci_slot_id_cases demo_pci_dev_def)
  have "\<exists>w'. pcie_pci_bus_notify demo_fw_kernel BUS_NOTIFY_ADD_DEVICE True demo_pci_dev (zero_platform\<lparr>g_proc_root := 1\<rparr>) demo_world
      = ((NOTIFY_DONE, demo_fw_platform\<lparr>g_next_dev_id := 1\<rparr>), w')"
    by (simp add: pcie_pci_bus_notify_def pcie_handle_add_locked_def slot kind pcie_init_slot_def pcie_create_proc_nodes_def
        proc_node_names_def pci_dev_get_def demo_fw_platform_def demo_platform_def set_entry_def demo_entry_def
        zero_platform_def zero_entry_def Let_def kcall_def kdo_def split: prod.splits)
  then show ?thesis unfolding fresh_sys_def by (blast intro: step_notify)
qed

lemma demo_booting:
  obtains s where "run (driver_step demo_fw_kernel shl32) (fresh_sys 1 demo_world)
      [Notify BUS_NOTIFY_ADD_DEVICE True demo_pci_dev, Ioctl AMBA_PCI_XFER_FIRMWARE 0x1000 0] s"
    "abs_slot (g_devs (sys_plat s) ! 0) = Card AMBA_PCI_STATE_BOOTING (Some demo_pci_dev)"
proof -
  obtain w1 where found: "driver_step demo_fw_kernel shl32 (fresh_sys 1 demo_world) (Notify BUS_NOTIFY_ADD_DEVICE True demo_pci_dev)
     \<lparr>sys_plat = demo_fw_platform\<lparr>g_next_dev_id := 1\<rparr>, sys_world = w1, sys_run = {}\<rparr>"
    using demo_found_platform by blast
  let ?g = "demo_fw_platform\<lparr>g_next_dev_id := 1\<rparr>"
  have ok: "plat_ok ?g" using demo_fw_platform_ok by (simp add: plat_ok_def)
  have req: "fw_xfer_of_bytes (fw_xfer_bytes demo_req) = demo_req" "fw_request_ok shl32 demo_req"
    using demo_prompt_request(2,4) by simp_all
  have slot: "unat (fx_slot_id demo_req) = 0" by (simp add: demo_req_def)
  have at: "g_devs demo_fw_platform ! 0 = demo_entry"
    by (simp add: demo_fw_platform_def set_entry_def demo_platform_def zero_platform_def)
  obtain e' w2 where l: "xfer_firmware_locked demo_fw_kernel demo_req demo_entry (kdo demo_fw_kernel KC_mutex_lock w1)
      = Some ((Ret 0, e', True), w2)" using demo_locked by blast
  obtain g' w' where run: "pcie_ioctl_xfer_firmware demo_fw_kernel shl32 removal_later 0x1000 ?g w1 = Some ((Ret 0, g'), w')"
    using demo_copy_req
    by (cases "e_pdev e'") (auto simp: pcie_ioctl_xfer_firmware_def req slot at l removal_later_def Let_def)
  then have "pcie_file_ioctl demo_fw_kernel shl32 removal_later AMBA_PCI_XFER_FIRMWARE 0x1000 ?g w1 = Some ((Ret 0, g'), w')"
    by (simp add: pcie_file_ioctl_def ioctl_numbers)
  from step_ioctl [OF this] found
  have steps: "run (driver_step demo_fw_kernel shl32) (fresh_sys 1 demo_world)
      [Notify BUS_NOTIFY_ADD_DEVICE True demo_pci_dev, Ioctl AMBA_PCI_XFER_FIRMWARE 0x1000 0]
      \<lparr>sys_plat = g', sys_world = w', sys_run = {}\<rparr>"
    by (blast intro: run.intros)
  have "abs_slot (g_devs g' ! 0) = Card AMBA_PCI_STATE_BOOTING (Some demo_pci_dev)"
    using run ok
  proof (cases rule: boot_started)
    case (1 bs i e)
    then have "i = 0" using demo_copy_req req(1) slot by (simp add: size_of_abi)
    with 1 at show ?thesis by (simp add: abs_slot_def demo_entry_def)
  qed
  with that [OF steps] show thesis by simp
qed

theorem booting_card_times_out_witness:
  "\<exists>s ls t. run (driver_step demo_fw_kernel shl32) (fresh_sys 1 demo_world)
      [Notify BUS_NOTIFY_ADD_DEVICE True demo_pci_dev, Ioctl AMBA_PCI_XFER_FIRMWARE 0x1000 0] s \<and>
     e_state (g_devs (sys_plat s) ! 0) = AMBA_PCI_STATE_BOOTING \<and> run (driver_step demo_fw_kernel shl32) s ls t \<and>
     abs_slot (g_devs (sys_plat t) ! 0) = Card AMBA_PCI_STATE_BOOT_FAILED (Some demo_pci_dev)"
proof (rule demo_booting)
  fix s assume run: "run (driver_step demo_fw_kernel shl32) (fresh_sys 1 demo_world)
      [Notify BUS_NOTIFY_ADD_DEVICE True demo_pci_dev, Ioctl AMBA_PCI_XFER_FIRMWARE 0x1000 0] s"
    and "abs_slot (g_devs (sys_plat s) ! 0) = Card AMBA_PCI_STATE_BOOTING (Some demo_pci_dev)"
  then have e: "e_state (g_devs (sys_plat s) ! 0) = AMBA_PCI_STATE_BOOTING" "e_pdev (g_devs (sys_plat s) ! 0) = Some demo_pci_dev"
    by (auto simp: abs_slot_def split: if_splits)
  have "calls demo_world = []" by (simp add: calls_def demo_world_def)
  from booting_card_times_out [OF run this _ e(1)] run e show ?thesis by (metis zero_less_numeral)
qed

end
