(* ===== verification/Proc_Deadlock.thy ===== *)
theory Proc_Deadlock
  imports Lock_Trace Proc_Correct
begin

section \<open>Removing a card while its files are used\<close>

text \<open>
  \<open>pcie_release_dev\<close> removes the proc directory of a slot while the mutex is held. The kernel's
  \<open>remove_proc_subtree\<close> returns only when no handler of a file of the directory is running; but the reader
  of \<open>dev_info\<close> takes the mutex, and the reboot handler removes its own card. Two contexts, each with
  the events it has still to go through, show where this leads: \<open>Handler\<close> is inside a handler of a file
  of the directory \<open>dir\<close>, \<open>Notifier\<close> is the bus notifier. The traces are those of the code itself.
\<close>

datatype side = Handler | Notifier

fun may_go :: "string \<Rightarrow> side option \<Rightarrow> event list \<Rightarrow> event \<Rightarrow> bool" where
  "may_go dir owner reader (Call c r) =
     ((c = KC_mutex_lock \<longrightarrow> owner = None) \<and> (c = KC_remove_proc_subtree dir \<longrightarrow> reader = []))"
| "may_go dir owner reader (Readl a v) = True"
| "may_go dir owner reader (Writel a v) = True"
| "may_go dir owner reader (MemcpyToio a bs) = True"

definition owner_after :: "side \<Rightarrow> event \<Rightarrow> side option \<Rightarrow> side option" where
  "owner_after s e owner = (if takes_mutex e then Some s else if gives_mutex e then None else owner)"

inductive contend ::
  "string \<Rightarrow> side option \<times> event list \<times> event list \<Rightarrow> side option \<times> event list \<times> event list \<Rightarrow> bool" for dir where
  reader_goes: "may_go dir owner (e # reader) e \<Longrightarrow>
    contend dir (owner, e # reader, remover) (owner_after Handler e owner, reader, remover)"
| remover_goes: "may_go dir owner reader e \<Longrightarrow>
    contend dir (owner, reader, e # remover) (owner_after Notifier e owner, reader, remover)"

inductive_cases contend_stuck: "contend dir (owner, Call c r # reader, Call d q # remover) x"

text \<open>The mutex held by the other side, and a directory that cannot go away: nobody can go on.\<close>

lemma deadlocked:
  "\<not> contend dir (Some Notifier, Call KC_mutex_lock r # reader, Call (KC_remove_proc_subtree dir) q # remover) x"
  by (auto elim!: contend_stuck)

text \<open>Events that wait for nothing and leave the mutex alone.\<close>

fun plain :: "event \<Rightarrow> bool" where
  "plain (Call c r) = (lock_free c \<and> (\<forall>n. c \<noteq> KC_remove_proc_subtree n))"
| "plain (Readl a v) = True"
| "plain (Writel a v) = True"
| "plain (MemcpyToio a bs) = True"

lemma plain_goes: "plain e \<Longrightarrow> may_go dir owner reader e \<and> owner_after s e owner = owner"
  by (cases e) (auto simp: owner_after_def)

lemma handler_runs: "\<forall>e \<in> set evs. plain e \<Longrightarrow> (contend dir)\<^sup>*\<^sup>* (owner, evs @ reader, remover) (owner, reader, remover)"
proof (induction evs)
  case (Cons e evs)
  then have "contend dir (owner, e # evs @ reader, remover) (owner, evs @ reader, remover)"
    using reader_goes [of dir owner e "evs @ reader" remover] plain_goes [of e] by simp
  with Cons show ?case by (simp add: converse_rtranclp_into_rtranclp)
qed simp

lemma remover_runs: "\<forall>e \<in> set evs. plain e \<Longrightarrow> (contend dir)\<^sup>*\<^sup>* (owner, reader, evs @ remover) (owner, reader, remover)"
proof (induction evs)
  case (Cons e evs)
  then have "contend dir (owner, reader, e # evs @ remover) (owner, reader, evs @ remover)"
    using remover_goes [of dir owner reader e "evs @ remover"] plain_goes [of e] by simp
  with Cons show ?case by (simp add: converse_rtranclp_into_rtranclp)
qed simp

subsection \<open>What the two handlers do\<close>

lemma detach_plain: "did plain w (snd (pcie_entry_detach_pdev K e w))"
  by (simp add: pcie_entry_detach_pdev_def pcie_boot_bar_unmap_def Let_def case_prod_beta split: option.split)

lemma release_trace:
  assumes "slot_ok i e" "e_in_use e"
  obtains mid q where "w_trc (snd (pcie_release_dev K i e w)) = w_trc w @ mid @ [Call (KC_remove_proc_subtree (slot_proc_name i)) q]"
    "\<forall>x \<in> set mid. plain x"
proof -
  obtain e1 w1 where d: "pcie_entry_detach_pdev K e w = (e1, w1)" by (metis prod.exhaust)
  then have e1: "e_proc_dir e1 = e_proc_dir e" "e_proc_name e1 = e_proc_name e"
    using detach_result [of K e w] by (auto split: if_splits)
  have "e_proc_dir e \<noteq> 0" "e_proc_name e = slot_proc_name i" using assms by (simp_all add: slot_ok_def)
  then have rel: "snd (pcie_release_dev K i e w) =
      kdo K (KC_remove_proc_subtree (slot_proc_name i)) (kdo K (KC_cancel_delayed_work i) w1)"
    using d e1 assms(2) by (simp add: pcie_release_dev_def Let_def)
  have "did plain w (kdo K (KC_cancel_delayed_work i) w1)"
    using detach_plain [of w K e] d by simp
  then obtain mid where "w_trc (kdo K (KC_cancel_delayed_work i) w1) = w_trc w @ mid" "\<forall>x \<in> set mid. plain x"
    by (auto simp: did_def)
  with that rel show thesis by (simp add: kdo_trc)
qed

lemma removal_trace:
  assumes "pcie_pci_bus_notify K BUS_NOTIFY_DEL_DEVICE True pd g w = ((r, g'), w')" "plat_ok g"
    and "get_pci_slot_id pd = int i" "e_in_use (g_devs g ! i)" "e_state (g_devs g ! i) \<noteq> AMBA_PCI_STATE_BOOTING"
  obtains mid q1 q2 q3 where "w_trc w' = w_trc w @ Call KC_mutex_lock q1 # mid @
      [Call (KC_remove_proc_subtree (slot_proc_name i)) q2, Call KC_mutex_unlock q3]"
    "\<forall>x \<in> set mid. plain x"
proof -
  have i: "i < AMBA_PCI_DEV_MAX" using slot.slot_less [of pd] assms(3) by simp
  let ?w1 = "kdo K KC_mutex_lock w"
  obtain mid q where m: "w_trc (snd (pcie_release_dev K i (g_devs g ! i) ?w1)) =
      w_trc ?w1 @ mid @ [Call (KC_remove_proc_subtree (slot_proc_name i)) q]" "\<forall>x \<in> set mid. plain x"
    by (rule release_trace [OF plat_ok_slot [OF assms(2) i] assms(4)])
  have "w' = kdo K KC_mutex_unlock (snd (pcie_release_dev K i (g_devs g ! i) ?w1))"
    using assms(1,3,4,5) by (auto simp: pcie_pci_bus_notify_def pcie_handle_del_locked_def Let_def split: prod.splits)
  with m that show thesis by (simp add: kdo_trc)
qed

lemma simple_read_extends: "did (\<lambda>e. True) u w \<Longrightarrow> did (\<lambda>e. True) u (snd (simple_read_from_buffer K buf n pos page w))"
  by (simp add: simple_read_from_buffer_def Let_def case_prod_beta)

lemma reader_trace:
  assumes "pcie_proc_dev_info_read K i buf n pos g w = ((r, pos', g'), w')"
    and "kcall K (KC_kmalloc PAGE_SIZE) w = (kb, w1)" "kb \<noteq> 0"
  obtains q rest where "w_trc w' = w_trc w1 @ Call KC_mutex_lock q # rest"
proof -
  let ?w2 = "kdo K KC_mutex_lock w1"
  have "did (\<lambda>e. True) ?w2 (snd (pcie_query_dev_info_locked K e (int i) ?w2))" for e
    by (rule did_mono [OF query_did [OF did_refl]]) simp
  then have rd: "did (\<lambda>e. True) ?w2 (snd (pcie_dev_info_read_entry K i e PAGE_SIZE w1))" for e
    by (simp add: pcie_dev_info_read_entry_def Let_def case_prod_beta)
  have "w' = snd (pcie_proc_dev_info_read K i buf n pos g w)" using assms(1) by simp
  then have "did (\<lambda>e. True) ?w2 w'"
    using assms(2,3) rd
    by (simp add: pcie_proc_dev_info_read_def pcie_proc_read_page_def Let_def case_prod_beta simple_read_extends)
  with that show thesis by (auto simp: did_def kdo_trc)
qed

text \<open>C28: Reading \<open>dev_info\<close> while the card is unplugged can block both for good. Take any card that is not
  booting, a read of its \<open>dev_info\<close> that has got its buffer, and the bus notifier that comes in right
  then for the removal of the card: the two reach a point where the notifier holds the mutex and
  waits for the reader to leave the directory, and the reader waits for the mutex. Neither can go on,
  and the mutex is never free again.\<close>

theorem proc_read_blocks_removal:
  assumes "plat_ok g" and "get_pci_slot_id pd = int i"
    and "e_in_use (g_devs g ! i)" and "e_state (g_devs g ! i) \<noteq> AMBA_PCI_STATE_BOOTING"
    and "pcie_proc_dev_info_read K i buf n pos g w = ((r, pos', g'), w')"
    and "kcall K (KC_kmalloc PAGE_SIZE) w = (kb, w1)" and "kb \<noteq> 0"
    and "pcie_pci_bus_notify K BUS_NOTIFY_DEL_DEVICE True pd g w1 = (res, w2)"
  shows "\<exists>reader remover reader' remover'. w_trc w' = w_trc w @ reader \<and> w_trc w2 = w_trc w1 @ remover \<and>
    (contend (slot_proc_name i))\<^sup>*\<^sup>* (None, reader, remover) (Some Notifier, reader', remover') \<and>
    reader' \<noteq> [] \<and> remover' \<noteq> [] \<and>
    (\<forall>x. \<not> contend (slot_proc_name i) (Some Notifier, reader', remover') x)"
proof -
  let ?dir = "slot_proc_name i"
  obtain q rest where rd: "w_trc w' = w_trc w1 @ Call KC_mutex_lock q # rest" by (rule reader_trace [OF assms(5-7)])
  obtain x y where "res = (x, y)" by (metis prod.exhaust)
  with assms(8) obtain mid q1 q2 q3 where rm: "w_trc w2 = w_trc w1 @ Call KC_mutex_lock q1 # mid @
      [Call (KC_remove_proc_subtree ?dir) q2, Call KC_mutex_unlock q3]" and mid: "\<forall>x \<in> set mid. plain x"
    by (metis removal_trace [OF _ assms(1-4)])
  have w1: "w_trc w1 = w_trc w @ [Call (KC_kmalloc PAGE_SIZE) kb]"
    using assms(6) by (auto simp: kcall_def split: prod.splits)
  let ?reader = "Call KC_mutex_lock q # rest"
  let ?left = "[Call (KC_remove_proc_subtree ?dir) q2, Call KC_mutex_unlock q3]"
  have s1: "contend ?dir (None, Call (KC_kmalloc PAGE_SIZE) kb # ?reader, Call KC_mutex_lock q1 # mid @ ?left)
      (None, ?reader, Call KC_mutex_lock q1 # mid @ ?left)"
    using reader_goes [of ?dir None "Call (KC_kmalloc PAGE_SIZE) kb" ?reader] by (simp add: owner_after_def)
  have s2: "contend ?dir (None, ?reader, Call KC_mutex_lock q1 # mid @ ?left) (Some Notifier, ?reader, mid @ ?left)"
    using remover_goes [of ?dir None ?reader "Call KC_mutex_lock q1" "mid @ ?left"] by (simp add: owner_after_def)
  have s3: "(contend ?dir)\<^sup>*\<^sup>* (Some Notifier, ?reader, mid @ ?left) (Some Notifier, ?reader, ?left)"
    by (rule remover_runs [OF mid])
  note runs = converse_rtranclp_into_rtranclp [of "contend ?dir", OF s1 converse_rtranclp_into_rtranclp [OF s2 s3]]
  show ?thesis
    by (rule exI [of _ "Call (KC_kmalloc PAGE_SIZE) kb # ?reader"], rule exI [of _ "Call KC_mutex_lock q1 # mid @ ?left"],
        rule exI [of _ ?reader], rule exI [of _ ?left]) (use rd rm w1 runs deadlocked in simp)
qed

theorem proc_read_blocks_removal_witness:
  "\<exists>reader remover reader' remover'.
     w_trc (snd (pcie_proc_dev_info_read demo_kernel 0 0x1000 64 0 connected_platform demo_world)) = reader \<and>
     (contend (slot_proc_name 0))\<^sup>*\<^sup>* (None, reader, remover) (Some Notifier, reader', remover') \<and> reader' \<noteq> [] \<and> remover' \<noteq> []"
proof -
  obtain r pos' g' w' where rd: "pcie_proc_dev_info_read demo_kernel 0 0x1000 64 0 connected_platform demo_world = ((r, pos', g'), w')"
    by (metis prod.exhaust)
  obtain kb w1 where km: "kcall demo_kernel (KC_kmalloc PAGE_SIZE) demo_world = (kb, w1)" by (metis prod.exhaust)
  then have kb: "kb \<noteq> 0" by (auto simp: kcall_def demo_kernel_def)
  obtain res w2 where rm: "pcie_pci_bus_notify demo_kernel BUS_NOTIFY_DEL_DEVICE True demo_pci_dev connected_platform w1 = (res, w2)"
    by (metis prod.exhaust)
  have e: "get_pci_slot_id demo_pci_dev = int 0" "e_in_use (g_devs connected_platform ! 0)"
    "e_state (g_devs connected_platform ! 0) \<noteq> AMBA_PCI_STATE_BOOTING"
    by (simp_all add: connected_platform_entry connected_entry_def demo_entry_def demo_pci_dev_def get_pci_slot_id_cases)
  have "w_trc demo_world = []" by (simp add: demo_world_def)
  with proc_read_blocks_removal [OF connected_platform_ok e rd km kb rm] rd show ?thesis by auto
qed

subsection \<open>Rebooting\<close>

inductive_cases contend_alone: "contend dir (owner, Call c r # handler, []) x"

lemma contend_lock: "owner = None \<Longrightarrow> contend dir (owner, Call KC_mutex_lock r # handler, remover) (Some Handler, handler, remover)"
  using reader_goes [of dir None "Call KC_mutex_lock r" handler remover] by (simp add: owner_after_def)

lemma contend_unlock: "contend dir (owner, Call KC_mutex_unlock r # handler, remover) (None, handler, remover)"
  using reader_goes [of dir owner "Call KC_mutex_unlock r" handler remover] by (simp add: owner_after_def)

lemma stuck_in_own_directory:
  "\<not> contend dir (Some Handler, Call (KC_remove_proc_subtree dir) q # handler, []) x"
  "\<not> contend dir (Some Handler, Call (KC_remove_proc_subtree dir) q # handler, Call KC_mutex_lock r # other) x"
  by (auto elim!: contend_alone contend_stuck)

lemma reboot_trace:
  assumes "pcie_proc_reboot_write K (bus_remove K) i buf cnt ppos g w = ((r, pos, g'), w')"
    and "plat_ok g" and "i < AMBA_PCI_DEV_MAX" and "0 \<le> r"
  obtains kb q1 q2 st mid h q3 q4 q5 q6 where
    "w_trc w' = w_trc w @ Call (KC_kmalloc (cnt + 1)) kb # Call KC_mutex_lock q1 # Call KC_mutex_unlock q2 #
       Call (KC_pci_stop_and_remove h) st # Call KC_mutex_lock q3 # mid @
       [Call (KC_remove_proc_subtree (slot_proc_name i)) q4, Call KC_mutex_unlock q5, Call KC_kfree q6]"
    "\<forall>x \<in> set mid. plain x"
  using assms(1)
proof (cases rule: reboot_write_cases)
  case refused
  then show ?thesis using assms(4) by auto
next
  case (ran cmd w1 r1 w2 kb)
  have r1: "0 \<le> r1" using ran(7) assms(4) by (auto split: if_splits)
  from ran(5) show ?thesis
  proof (cases rule: reboot_entry_cases)
    case refused
    then show ?thesis using r1 by auto
  next
    case (accepted pd w3)
    let ?e = "(g_devs g ! i)\<lparr>e_state := AMBA_PCI_STATE_REBOOTING\<rparr>"
    let ?g = "set_entry g i ?e"
    let ?w4 = "kdo K (KC_pci_stop_and_remove (pd_handle pd)) w3"
    note ok = plat_ok_slot [OF assms(2,3)]
    have g: "plat_ok ?g" by (rule set_entry_ok [OF assms(2,3) rebooting_ok [OF ok accepted(5,4)]])
    have "length (g_devs g) = 4" using assms(2) by (simp add: plat_ok_def)
    then have at: "g_devs ?g ! i = ?e" using assms(3) by (simp add: set_entry_nth)
    obtain x where n: "pcie_pci_bus_notify K BUS_NOTIFY_DEL_DEVICE True pd ?g ?w4 = ((x, g'), w2)"
      using accepted(8) by (auto simp: bus_remove_def split: prod.splits)
    have slot: "get_pci_slot_id pd = int i" using ok accepted(4) by (simp add: slot_ok_def)
    obtain mid p1 p2 p3 where m: "w_trc w2 = w_trc ?w4 @ Call KC_mutex_lock p1 # mid @
        [Call (KC_remove_proc_subtree (slot_proc_name i)) p2, Call KC_mutex_unlock p3]" "\<forall>x \<in> set mid. plain x"
      by (rule removal_trace [OF n g slot]) (use at accepted(1) in simp_all)
    have w1: "w_trc w1 = w_trc w @ [Call (KC_kmalloc (cnt + 1)) kb]"
      using ran(9) by (auto simp: kcall_def split: prod.splits)
    show ?thesis
      by (rule that [of kb _ _ "pd_handle pd" _ p1 mid p2 p3, OF _ m(2)])
        (simp add: ran(6) accepted(10) m(1) w1 kdo_trc)
  qed
qed

text \<open>C29: A reboot that is accepted never comes back: the handler hands its own card over for removal, the
  bus notifier runs in its context, takes the mutex and removes the directory that holds the reboot
  file itself, and waits there for the handler to return. From then on nobody else gets the mutex
  either.\<close>

theorem reboot_blocks_on_itself:
  assumes "pcie_proc_reboot_write K (bus_remove K) i buf cnt ppos g w = ((r, pos, g'), w')"
    and "plat_ok g" and "i < AMBA_PCI_DEV_MAX" and "0 \<le> r"
  shows "\<exists>handler handler'. w_trc w' = w_trc w @ handler \<and> handler' \<noteq> [] \<and>
    (contend (slot_proc_name i))\<^sup>*\<^sup>* (None, handler, []) (Some Handler, handler', []) \<and>
    (\<forall>x. \<not> contend (slot_proc_name i) (Some Handler, handler', []) x) \<and>
    (\<forall>q other x. \<not> contend (slot_proc_name i) (Some Handler, handler', Call KC_mutex_lock q # other) x)"
proof -
  let ?dir = "slot_proc_name i"
  obtain kb q1 q2 st mid h q3 q4 q5 q6 where
    t: "w_trc w' = w_trc w @ Call (KC_kmalloc (cnt + 1)) kb # Call KC_mutex_lock q1 # Call KC_mutex_unlock q2 #
       Call (KC_pci_stop_and_remove h) st # Call KC_mutex_lock q3 # mid @
       [Call (KC_remove_proc_subtree ?dir) q4, Call KC_mutex_unlock q5, Call KC_kfree q6]"
    and mid: "\<forall>x \<in> set mid. plain x" by (rule reboot_trace [OF assms])
  let ?blocked = "[Call (KC_remove_proc_subtree ?dir) q4, Call KC_mutex_unlock q5, Call KC_kfree q6]"
  let ?h3 = "Call KC_mutex_lock q3 # mid @ ?blocked"
  let ?h2 = "Call (KC_pci_stop_and_remove h) st # ?h3"
  let ?h1 = "Call KC_mutex_lock q1 # Call KC_mutex_unlock q2 # ?h2"
  have s1: "(contend ?dir)\<^sup>*\<^sup>* (None, Call (KC_kmalloc (cnt + 1)) kb # ?h1, []) (None, ?h1, [])"
    using handler_runs [of "[Call (KC_kmalloc (cnt + 1)) kb]"] by simp
  have s2: "(contend ?dir)\<^sup>*\<^sup>* (None, ?h1, []) (None, ?h2, [])"
    by (rule converse_rtranclp_into_rtranclp [of "contend ?dir", OF contend_lock [OF refl]],
        rule r_into_rtranclp [of "contend ?dir"], rule contend_unlock)
  have s3: "(contend ?dir)\<^sup>*\<^sup>* (None, ?h2, []) (None, ?h3, [])"
    using handler_runs [of "[Call (KC_pci_stop_and_remove h) st]"] by simp
  have s4: "(contend ?dir)\<^sup>*\<^sup>* (None, ?h3, []) (Some Handler, ?blocked, [])"
    by (rule converse_rtranclp_into_rtranclp [of "contend ?dir", OF contend_lock [OF refl]], rule handler_runs [OF mid])
  note runs = rtranclp_trans [of "contend ?dir", OF rtranclp_trans [of "contend ?dir", OF s1 s2]
      rtranclp_trans [of "contend ?dir", OF s3 s4]]
  show ?thesis
    by (rule exI [of _ "Call (KC_kmalloc (cnt + 1)) kb # ?h1"], rule exI [of _ ?blocked])
      (use t runs stuck_in_own_directory in simp)
qed

theorem reboot_blocks_on_itself_witness:
  "\<exists>g' w' handler'. pcie_proc_reboot_write reboot_kernel (bus_remove reboot_kernel) 0 0x1000 2 0 connected_platform demo_world
       = ((2, 2, g'), w') \<and>
     (contend (slot_proc_name 0))\<^sup>*\<^sup>* (None, w_trc w', []) (Some Handler, handler', []) \<and> handler' \<noteq> []"
proof -
  obtain g' w' where run: "pcie_proc_reboot_write reboot_kernel (bus_remove reboot_kernel) 0 0x1000 2 0 connected_platform demo_world
      = ((2, 2, g'), w')" using reboot_run by blast
  have "w_trc demo_world = []" by (simp add: demo_world_def)
  with reboot_blocks_on_itself [OF run connected_platform_ok] run show ?thesis by auto
qed

end
