(* ===== verification/Ring_Protocol.thy ===== *)
theory Ring_Protocol
  imports Ring_Xfer_Props
begin

section \<open>Messages in flight\<close>

text \<open>
  The driver may fill a descriptor and a data block again only after the endpoint is through with the
  message that used them before. This theory watches the trace of a transfer the way an observer of
  the bus would: a bump of \<open>used\<close> hands over what was written since the last one, and a value of
  \<open>avail\<close> the driver reads tells how many of the handed-over messages the endpoint has taken out, in
  their order. The endpoint is honest if it never reports more than were handed over; the driver is
  clean if it never writes into a message that is still in flight.
\<close>

subsection \<open>The observer\<close>

record ring_view =
  rv_done :: u32
  rv_flight :: "(u64 \<times> nat) list list"
  rv_open :: "(u64 \<times> nat) list"

definition idle_ring :: "u32 \<Rightarrow> ring_view" where
  "idle_ring avail = \<lparr>rv_done = avail, rv_flight = [], rv_open = []\<rparr>"

fun watch :: "u64 \<Rightarrow> event \<Rightarrow> ring_view \<Rightarrow> ring_view" where
  "watch base (Writel a v) V =
     (if a = base + RH_USED_OFF then V\<lparr>rv_flight := rv_flight V @ [rv_open V], rv_open := []\<rparr>
      else V\<lparr>rv_open := rv_open V @ [(a, 4)]\<rparr>)"
| "watch base (MemcpyToio a bs) V = V\<lparr>rv_open := rv_open V @ [(a, length bs)]\<rparr>"
| "watch base (Readl a v) V =
     (if a = base + RH_AVAIL_OFF
      then V\<lparr>rv_flight := drop (unat (v - rv_done V)) (rv_flight V), rv_done := v\<rparr> else V)"
| "watch base (Call c r) V = V"

fun ep_honest :: "u64 \<Rightarrow> event \<Rightarrow> ring_view \<Rightarrow> bool" where
  "ep_honest base (Readl a v) V \<longleftrightarrow> (a = base + RH_AVAIL_OFF \<longrightarrow> unat (v - rv_done V) \<le> length (rv_flight V))"
| "ep_honest base (Writel a v) V \<longleftrightarrow> True"
| "ep_honest base (MemcpyToio a bs) V \<longleftrightarrow> True"
| "ep_honest base (Call c r) V \<longleftrightarrow> True"

definition not_in_flight :: "ring_view \<Rightarrow> u64 \<Rightarrow> nat \<Rightarrow> bool" where
  "not_in_flight V a n \<longleftrightarrow> (\<forall>m \<in> set (rv_flight V). \<forall>(b, k) \<in> set m. disjoint_span a n b k)"

fun write_clean :: "u64 \<Rightarrow> event \<Rightarrow> ring_view \<Rightarrow> bool" where
  "write_clean base (Writel a v) V \<longleftrightarrow> a = base + RH_USED_OFF \<or> not_in_flight V a 4"
| "write_clean base (MemcpyToio a bs) V \<longleftrightarrow> not_in_flight V a (length bs)"
| "write_clean base (Readl a v) V \<longleftrightarrow> True"
| "write_clean base (Call c r) V \<longleftrightarrow> True"

fun all_events :: "(event \<Rightarrow> ring_view \<Rightarrow> bool) \<Rightarrow> u64 \<Rightarrow> event list \<Rightarrow> ring_view \<Rightarrow> bool" where
  "all_events P base [] V \<longleftrightarrow> True"
| "all_events P base (e # es) V \<longleftrightarrow> P e V \<and> all_events P base es (watch base e V)"

definition honest_run :: "u64 \<Rightarrow> event list \<Rightarrow> ring_view \<Rightarrow> bool" where
  "honest_run base = all_events (ep_honest base) base"

definition clean_run :: "u64 \<Rightarrow> event list \<Rightarrow> ring_view \<Rightarrow> bool" where
  "clean_run base = all_events (write_clean base) base"

abbreviation watch_run :: "u64 \<Rightarrow> event list \<Rightarrow> ring_view \<Rightarrow> ring_view" where
  "watch_run base \<equiv> fold (watch base)"

lemma all_events_append:
  "all_events P base (es @ es') V \<longleftrightarrow> all_events P base es V \<and> all_events P base es' (watch_run base es V)"
  by (induction es arbitrary: V) auto

lemma monitor_append:
  "honest_run base (es @ es') V \<longleftrightarrow> honest_run base es V \<and> honest_run base es' (watch_run base es V)"
  "clean_run base (es @ es') V \<longleftrightarrow> clean_run base es V \<and> clean_run base es' (watch_run base es V)"
  by (simp_all add: honest_run_def clean_run_def all_events_append)

lemma monitor_simps [simp]:
  "honest_run base [] V" "clean_run base [] V"
  "honest_run base (e # es) V \<longleftrightarrow> ep_honest base e V \<and> honest_run base es (watch base e V)"
  "clean_run base (e # es) V \<longleftrightarrow> write_clean base e V \<and> clean_run base es (watch base e V)"
  by (simp_all add: honest_run_def clean_run_def)

text \<open>A stretch of the trace that, against an honest endpoint, is clean and leads from one
  condition on the view to another.\<close>

definition leads :: "u64 \<Rightarrow> (ring_view \<Rightarrow> bool) \<Rightarrow> 'd world \<Rightarrow> (ring_view \<Rightarrow> bool) \<Rightarrow> 'd world \<Rightarrow> bool" where
  "leads base P w Q w' \<longleftrightarrow>
     (\<exists>t. w_trc w' = w_trc w @ t \<and>
       (\<forall>V. P V \<longrightarrow> honest_run base t V \<longrightarrow> clean_run base t V \<and> Q (watch_run base t V)))"

lemma leads_refl: "leads base P w P w"
  by (simp add: leads_def)

lemma leads_trans: "leads base P w Q w1 \<Longrightarrow> leads base Q w1 R w2 \<Longrightarrow> leads base P w R w2"
  unfolding leads_def by (elim exE conjE) (rule exI, auto simp: monitor_append)

lemma leads_weaken: "leads base P w Q w' \<Longrightarrow> (\<And>V. Q V \<Longrightarrow> R V) \<Longrightarrow> leads base P w R w'"
  unfolding leads_def by blast

lemma leadsI:
  assumes "w_trc w' = w_trc w @ t"
    and "\<And>V. P V \<Longrightarrow> honest_run base t V \<Longrightarrow> clean_run base t V \<and> Q (watch_run base t V)"
  shows "leads base P w Q w'"
  using assms unfolding leads_def by blast

lemma leads_kcall: "(\<And>V. P V \<Longrightarrow> Q V) \<Longrightarrow> leads base P w Q (snd (kcall K c w))"
  by (rule leadsI [where t = "[Call c (fst (kcall K c w))]"]) (simp_all add: kcall_def split: prod.splits)

lemma leads_kdo: "(\<And>V. P V \<Longrightarrow> Q V) \<Longrightarrow> leads base P w Q (kdo K c w)"
  unfolding kdo_def by (rule leads_kcall)

subsection \<open>Positions\<close>

text \<open>Descriptors and blocks are chosen by a 32-bit position that runs on without bound, modulo
  their number. Close positions get different places, across the wrap of the counter too, exactly
  if the number divides $2^{32}$.\<close>

lemma mod_positions:
  fixes x n :: u32
  assumes "unat n dvd 2 ^ 32" "0 < i" "i < unat n"
  shows "(x - of_nat i) mod n \<noteq> x mod n"
proof
  assume eq: "(x - of_nat i) mod n = x mod n"
  have "int (unat n) dvd int (2 ^ 32)" using assms(1) by (simp only: of_nat_dvd_iff)
  then have dvd: "uint n dvd 2 ^ 32" by (simp only: uint_nat of_nat_power of_nat_numeral)
  have "unat (of_nat i :: u32) = i" 
    using assms(3) unat_u32_less [of n] by (simp add: unsigned_of_nat take_bit_nat_eq_self)
  then have i: "uint (of_nat i :: u32) = int i" by (simp only: uint_nat)
  have "uint ((x - of_nat i) mod n) = (uint x - int i) mod 2 ^ 32 mod uint n"
    unfolding uint_mod uint_word_ariths i by simp
  also have "\<dots> = (uint x - int i) mod uint n" by (rule mod_mod_cancel [OF dvd])
  finally have "(uint x - int i) mod uint n = uint x mod uint n" unfolding eq uint_mod by (rule sym)
  then have "uint n dvd (uint x - int i) - uint x" by (simp only: mod_eq_dvd_iff)
  then have "uint n dvd int i" by simp
  then have "int (unat n) dvd int i" by (simp only: uint_nat)
  then have "unat n dvd i" by (simp only: of_nat_dvd_iff)
  with assms(2,3) show False by (auto dest: dvd_imp_le)
qed

lemma desc_injective: "pcie_ring_desc base a num = pcie_ring_desc base b num \<longleftrightarrow> a mod num = b mod num"
proof -
  have at: "pcie_ring_desc base x num = base + of_nat (80 + 20 * unat (x mod num))" for x
    by (simp add: pcie_ring_desc_def pcie_ring_ptr_def of_nat_unat_32_64)
  have small: "80 + 20 * unat (x mod num) < 2 ^ 64" for x using unat_u32_less [of "x mod num"] by simp
  have "pcie_ring_desc base a num = pcie_ring_desc base b num
      \<longleftrightarrow> (of_nat (80 + 20 * unat (a mod num)) :: u64) = of_nat (80 + 20 * unat (b mod num))"
    unfolding at by simp
  also have "\<dots> \<longleftrightarrow> unat (a mod num) = unat (b mod num)"
    by (subst of_nat_u64_inject [OF small small]) simp
  also have "\<dots> \<longleftrightarrow> a mod num = b mod num" by (simp only: word_unat_eq_iff)
  finally show ?thesis .
qed

text \<open>C24: The descriptor of a position is \<open>cur_avail % num\<close> with a 32-bit \<open>cur_avail\<close> that runs on
  from transfer to transfer. Any \<open>num\<close> consecutive positions have different descriptors exactly if
  \<open>num\<close> divides $2^{32}$: with any other number of descriptors, which the code accepts, the wrap of
  the counter puts a message on a descriptor that may still be in flight.\<close>

theorem desc_positions_distinct:
  assumes "num \<noteq> 0"
  shows "(\<forall>a. inj_on (\<lambda>i. pcie_ring_desc base (a + of_nat i) num) {..<unat num}) \<longleftrightarrow> unat num dvd 2 ^ 32"
proof
  assume "unat num dvd 2 ^ 32"
  then have "(a + of_nat i) mod num \<noteq> (a + of_nat j) mod num" if "i < j" "j < unat num" for a i j
    using that mod_positions [of num "j - i" "a + of_nat j"] by (simp add: of_nat_diff)
  then have "pcie_ring_desc base (a + of_nat i) num \<noteq> pcie_ring_desc base (a + of_nat j) num"
    if "i < j" "j < unat num" for a i j
    using that unfolding desc_injective by blast
  then show "\<forall>a. inj_on (\<lambda>i. pcie_ring_desc base (a + of_nat i) num) {..<unat num}"
    by (intro allI linorder_inj_onI') auto
next
  assume inj: "\<forall>a. inj_on (\<lambda>i. pcie_ring_desc base (a + of_nat i) num) {..<unat num}"
  show "unat num dvd 2 ^ 32"
  proof (rule ccontr)
    let ?n = "unat num"
    define r where "r = 2 ^ 32 mod ?n"
    assume "\<not> ?n dvd 2 ^ 32"
    then have r: "0 < r" "r < ?n" using assms by (auto simp: r_def mod_greater_zero_iff_not_dvd unat_gt_0)
    have le: "r \<le> 2 ^ 32" using r(2) unat_u32_less [of num] by simp
    have "- (of_nat r :: u32) = of_nat (2 ^ 32 - r)" using le by (simp add: of_nat_diff)
    moreover have "2 ^ 32 - r < 2 ^ 32" using r(1) by simp
    ultimately have "unat (- (of_nat r :: u32)) = 2 ^ 32 - r"
      by (simp only: unsigned_of_nat) (simp add: take_bit_nat_eq_self)
    moreover have "(2 ^ 32 - r) mod ?n = 0" by (simp add: r_def minus_mod_eq_mult_div)
    ultimately have "(- of_nat r) mod num = (0 :: u32) mod num"
      by (simp add: word_unat_eq_iff unat_mod)
    then have "pcie_ring_desc base (- of_nat r + of_nat 0) num = pcie_ring_desc base (- of_nat r + of_nat r) num"
      by (simp add: desc_injective)
    from inj_onD [OF inj [rule_format] this] r show False by simp
  qed
qed

theorem desc_positions_distinct_witness:
  "(\<forall>a. inj_on (\<lambda>i. pcie_ring_desc 0x10000 (a + of_nat i) 4) {..<4}) \<and>
   \<not> (\<forall>a. inj_on (\<lambda>i. pcie_ring_desc 0x10000 (a + of_nat i) 3) {..<3})"
  using desc_positions_distinct [of 4 "0x10000"] desc_positions_distinct [of 3 "0x10000"] by simp

subsection \<open>Where a message lives\<close>

text \<open>A part of a message lies in descriptor \<open>s\<close> or in data block \<open>b\<close>.\<close>

definition part_of :: "u64 \<Rightarrow> u32 \<Rightarrow> u32 \<Rightarrow> u64 \<Rightarrow> nat \<Rightarrow> bool" where
  "part_of base s b a n \<longleftrightarrow>
     (\<exists>off. a = base + of_nat off \<and>
       (80 + 20 * unat s \<le> off \<and> off + n \<le> 100 + 20 * unat s \<or>
        (unat b + 1) * 512 \<le> off \<and> off + n \<le> (unat b + 2) * 512))"

text \<open>The geometry the protocol works with: the descriptors fit the header block, both numbers are
  powers of two, and every message in flight has a block of its own.\<close>

definition sound_ring :: "u32 \<Rightarrow> u32 \<Rightarrow> bool" where
  "sound_ring num mb \<longleftrightarrow> unat num dvd 2 ^ 32 \<and> unat mb dvd 2 ^ 32 \<and> num \<le> mb \<and> num \<le> 21"

lemma sound_ring_nonzero: "sound_ring num mb \<Longrightarrow> num \<noteq> 0 \<and> mb \<noteq> 0"
  by (auto simp: sound_ring_def)

lemma part_of_used: "part_of base s b a n \<Longrightarrow> a \<noteq> base + 12"
proof
  assume "part_of base s b a n" "a = base + 12"
  then obtain off where off: "base + of_nat off = base + 12" "80 \<le> off" "off \<le> (unat b + 2) * 512 + 100 + 20 * unat s"
    by (auto simp: part_of_def)
  then have "off < 2 ^ 64" using unat_u32_less [of b] unat_u32_less [of s] by simp
  moreover have "(of_nat off :: u64) = of_nat 12" using off(1) by simp
  ultimately have "off = 12" by (subst (asm) of_nat_u64_inject) simp_all
  with off(2) show False by simp
qed

lemma part_of_disjoint:
  assumes "part_of base s b x n" "part_of base s' b' y k" and "s \<noteq> s'" "b \<noteq> b'" "unat s < 21" "unat s' < 21"
  shows "disjoint_span x n y k"
proof -
  obtain i where i: "x = base + of_nat i" "80 + 20 * unat s \<le> i \<and> i + n \<le> 100 + 20 * unat s \<or>
      (unat b + 1) * 512 \<le> i \<and> i + n \<le> (unat b + 2) * 512" using assms(1) by (auto simp: part_of_def)
  obtain j where j: "y = base + of_nat j" "80 + 20 * unat s' \<le> j \<and> j + k \<le> 100 + 20 * unat s' \<or>
      (unat b' + 1) * 512 \<le> j \<and> j + k \<le> (unat b' + 2) * 512" using assms(2) by (auto simp: part_of_def)
  have ne: "unat s \<noteq> unat s'" "unat b \<noteq> unat b'" using assms(3,4) by (simp_all add: word_unat_eq_iff)
  have apart: "i + n \<le> j \<or> j + k \<le> i"
  proof (cases "80 + 20 * unat s \<le> i \<and> i + n \<le> 100 + 20 * unat s")
    case True
    with j(2) ne(1) assms(5,6) show ?thesis by (auto simp: algebra_simps)
  next
    case False
    with i(2) j(2) ne(2) assms(5,6) show ?thesis by (auto simp: algebra_simps)
  qed
  have "i + n \<le> 2 ^ 64" "j + k \<le> 2 ^ 64"
    using i(2) j(2) unat_u32_less [of b] unat_u32_less [of b'] assms(5,6) by auto
  with apart show ?thesis unfolding i(1) j(1)
    using disjoint_span_offsets [of i n j k base] disjoint_span_sym [OF disjoint_span_offsets [of j k i n base]] by blast
qed

text \<open>The place of the message \<open>back\<close> positions before the next one.\<close>

definition place :: "pcie_ring_ctx \<Rightarrow> nat \<Rightarrow> u64 \<Rightarrow> nat \<Rightarrow> bool" where
  "place ctx back = part_of (rc_base ctx) ((rc_cur_avail ctx - of_nat back) mod rc_num ctx)
     ((rc_cur_blk ctx - of_nat back) mod rc_max_blk ctx)"

lemma place_disjoint:
  assumes "sound_ring (rc_num ctx) (rc_max_blk ctx)" "place ctx 0 x n" "place ctx back y k"
    and "0 < back" "back < unat (rc_num ctx)"
  shows "disjoint_span x n y k"
proof -
  have r: "unat (rc_num ctx) dvd 2 ^ 32" "unat (rc_max_blk ctx) dvd 2 ^ 32" "rc_num ctx \<le> rc_max_blk ctx"
    "unat (rc_num ctx) \<le> 21"
    using assms(1) by (simp_all add: sound_ring_def word_le_nat_alt)
  then have "back < unat (rc_max_blk ctx)" using assms(5) by (simp add: word_le_nat_alt)
  then have ne: "rc_cur_avail ctx mod rc_num ctx \<noteq> (rc_cur_avail ctx - of_nat back) mod rc_num ctx"
    "rc_cur_blk ctx mod rc_max_blk ctx \<noteq> (rc_cur_blk ctx - of_nat back) mod rc_max_blk ctx"
    using mod_positions [OF r(1) assms(4,5)] mod_positions [OF r(2) assms(4)] by metis+
  have "unat (z mod rc_num ctx) < 21" for z
    using unat_mod_less [of "rc_num ctx" z] sound_ring_nonzero [OF assms(1)] r(4) by simp
  from part_of_disjoint [OF assms(2,3) [unfolded place_def] _ _ this this] ne show ?thesis by simp
qed

subsection \<open>The invariant of the driver's context\<close>

text \<open>The messages in flight are the last ones posted, in order, and at most \<open>num\<close> of them; the
  credit \<open>cur_avail\<close> counts them. Between the wait and the bump a further one is being written.\<close>

definition counted :: "pcie_ring_ctx \<Rightarrow> ring_view \<Rightarrow> bool" where
  "counted ctx V \<longleftrightarrow> rv_done V + of_nat (length (rv_flight V)) = rc_cur_avail ctx + rc_num ctx \<and>
     length (rv_flight V) \<le> unat (rc_num ctx) \<and>
     (\<forall>j < length (rv_flight V). \<forall>(a, n) \<in> set (rv_flight V ! j). place ctx (length (rv_flight V) - j) a n)"

definition flying :: "pcie_ring_ctx \<Rightarrow> ring_view \<Rightarrow> bool" where
  "flying ctx V \<longleftrightarrow> counted ctx V \<and> rv_open V = []"

definition posting :: "pcie_ring_ctx \<Rightarrow> ring_view \<Rightarrow> bool" where
  "posting ctx V \<longleftrightarrow> counted ctx V \<and> length (rv_flight V) < unat (rc_num ctx) \<and>
     (\<forall>(a, n) \<in> set (rv_open V). place ctx 0 a n)"

lemma counted_read:
  assumes "counted ctx V" "ep_honest base (Readl a v) V"
  shows "counted ctx (watch base (Readl a v) V)"
proof (cases "a = base + RH_AVAIL_OFF")
  case True
  let ?d = "unat (v - rv_done V)" and ?n = "length (rv_flight V)"
  have d: "?d \<le> ?n" using assms(2) True by simp
  have "v + of_nat (?n - ?d) = rv_done V + of_nat ?n" using d by (simp add: of_nat_diff)
  moreover have "rv_flight V ! (?d + j) = drop ?d (rv_flight V) ! j \<and> ?n - (?d + j) = ?n - ?d - j" if "j < ?n - ?d" for j
    using that by simp
  ultimately show ?thesis using assms(1) True d
    by (auto simp: counted_def less_diff_conv add.commute)
qed (use assms in simp)

lemma flying_reads:
  assumes "\<forall>e \<in> set t. \<not> is_iow e" "flying ctx V" "honest_run base t V"
  shows "clean_run base t V \<and> flying ctx (watch_run base t V)"
  using assms
proof (induction t arbitrary: V)
  case (Cons e t)
  have "flying ctx (watch base e V) \<and> write_clean base e V"
  proof (cases e)
    case (Readl a v)
    have "rv_open (watch base e V) = rv_open V" unfolding Readl by simp
    moreover have "counted ctx (watch base e V)"
      using counted_read [of ctx V base a v] Cons.prems(2,3) unfolding Readl flying_def by simp
    ultimately show ?thesis using Cons.prems(2) unfolding Readl flying_def by simp
  qed (use Cons.prems in auto)
  then show ?case using Cons.IH Cons.prems by simp
qed simp

text \<open>A free descriptor is known as soon as \<open>avail\<close> was read with another value than \<open>cur_avail\<close>.\<close>

lemma flying_credit:
  assumes "flying ctx V" "rv_done V \<noteq> rc_cur_avail ctx"
  shows "posting ctx V"
proof -
  have "length (rv_flight V) \<noteq> unat (rc_num ctx)"
    using assms by (auto simp: flying_def counted_def)
  then show ?thesis using assms(1) by (auto simp: flying_def posting_def counted_def)
qed

fun own_write :: "pcie_ring_ctx \<Rightarrow> event \<Rightarrow> bool" where
  "own_write ctx (Writel a v) \<longleftrightarrow> place ctx 0 a 4"
| "own_write ctx (MemcpyToio a bs) \<longleftrightarrow> place ctx 0 a (length bs)"
| "own_write ctx (Readl a v) \<longleftrightarrow> False"
| "own_write ctx (Call c r) \<longleftrightarrow> False"

lemma place_clean:
  assumes "sound_ring (rc_num ctx) (rc_max_blk ctx)" "posting ctx V" "place ctx 0 a n"
  shows "not_in_flight V a n"
proof -
  have "disjoint_span a n b k" if "m \<in> set (rv_flight V)" "(b, k) \<in> set m" for m b k
  proof -
    obtain j where j: "j < length (rv_flight V)" "rv_flight V ! j = m" using \<open>m \<in> _\<close> by (auto simp: in_set_conv_nth)
    then have "place ctx (length (rv_flight V) - j) b k"
      using assms(2) that(2) by (auto simp: posting_def counted_def)
    then show ?thesis using place_disjoint [OF assms(1,3)] j(1) assms(2) by (auto simp: posting_def)
  qed
  then show ?thesis by (auto simp: not_in_flight_def)
qed

lemma own_writes:
  assumes "sound_ring (rc_num ctx) (rc_max_blk ctx)" "\<forall>e \<in> set t. own_write ctx e" "posting ctx V"
  shows "clean_run (rc_base ctx) t V \<and> posting ctx (watch_run (rc_base ctx) t V)"
  using assms(2,3)
proof (induction t arbitrary: V)
  case (Cons e t)
  have "write_clean (rc_base ctx) e V \<and> posting ctx (watch (rc_base ctx) e V)"
  proof (cases e)
    case (Writel a v)
    then have p: "place ctx 0 a 4" using Cons.prems(1) by simp
    from part_of_used [OF p [unfolded place_def]] have "a \<noteq> rc_base ctx + 12" .
    with p place_clean [OF assms(1) Cons.prems(2) p] Cons.prems(2) show ?thesis
      unfolding Writel by (auto simp: posting_def counted_def)
  next
    case (MemcpyToio a bs)
    then have p: "place ctx 0 a (length bs)" using Cons.prems(1) by simp
    with place_clean [OF assms(1) Cons.prems(2) p] Cons.prems(2) show ?thesis
      unfolding MemcpyToio by (auto simp: posting_def counted_def)
  qed (use Cons.prems in simp_all)
  then show ?case using Cons.IH Cons.prems(1) by simp
qed simp

subsection \<open>The driver's routines\<close>

lemma wait_leads:
  assumes "pcie_ring_wait_u32 K (rc_base ctx) RH_AVAIL_OFF (rc_cur_avail ctx) False ms w = Some (r, w')"
  shows "leads (rc_base ctx) (flying ctx) w (\<lambda>V. if r = 0 then posting ctx V \<and> rv_open V = [] else flying ctx V) w'"
proof -
  obtain t where t: "w_trc w' = w_trc w @ t" "\<forall>e \<in> set t. polls (rc_base ctx + 8) e"
    "r = 0 \<longrightarrow> (\<exists>t0 v. t = t0 @ [Readl (rc_base ctx + 8) v] \<and> wait_done (rc_cur_avail ctx) False v)"
    using wait_u32_loop_trc [OF assms [unfolded pcie_ring_wait_u32_def]] by auto
  have quiet: "\<forall>e \<in> set t. \<not> is_iow e" using t(2) polls_no_write by blast
  have "rv_done (watch_run (rc_base ctx) t V) \<noteq> rc_cur_avail ctx" if "r = 0" for V
    using t(3) that by (auto simp: wait_done_def)
  with flying_reads [OF quiet] flying_credit show ?thesis
    by (intro leadsI [OF t(1)]) (auto simp: flying_def)
qed

lemma own_desc:
  assumes "e \<in> set (desc_writes (ring_desc_of ctx) cmd sz addr blk)"
  shows "own_write ctx e"
proof -
  obtain k v where e: "k < 5" "e = Writel (ring_desc_of ctx + of_nat (4 * k)) v" by (rule desc_writes_words [OF assms])
  show ?thesis unfolding e(2) desc_word own_write.simps place_def part_of_def
    by (rule exI [of _ "80 + 20 * unat (rc_cur_avail ctx mod rc_num ctx) + 4 * k"]) (use e(1) in simp)
qed

lemma own_block:
  assumes "rc_max_blk ctx \<noteq> 0" "length bs \<le> 512"
  shows "own_write ctx (MemcpyToio (ring_blk_of ctx) bs)"
  unfolding own_write.simps place_def part_of_def blk_at [OF assms(1)]
  by (rule exI [of _ "(unat (rc_cur_blk ctx mod rc_max_blk ctx) + 1) * 512"]) (use assms(2) in simp)

text \<open>The bump hands over what was written, and the context moves on.\<close>

lemma bump_leads:
  assumes "ctx' = ctx\<lparr>rc_cur_blk := rc_cur_blk ctx + 1, rc_cur_avail := rc_cur_avail ctx + 1\<rparr>"
  shows "leads (rc_base ctx) (posting ctx) w (flying ctx') (bump_used K (rc_base ctx) w)"
proof -
  obtain u where t: "w_trc (bump_used K (rc_base ctx) w) = w_trc w @ [Readl (rc_base ctx + 12) u, Writel (rc_base ctx + 12) (u + 1)]"
    using bump_trc by blast
  have shift: "place ctx' (Suc k) = place ctx k" for k
    unfolding assms place_def by (simp add: algebra_simps)
  have "flying ctx' (V\<lparr>rv_flight := rv_flight V @ [rv_open V], rv_open := []\<rparr>)" if post: "posting ctx V" for V
  proof -
    let ?n = "length (rv_flight V)"
    have "place ctx' (Suc ?n - j) a n" if lt: "j < Suc ?n" and m: "(a, n) \<in> set ((rv_flight V @ [rv_open V]) ! j)" for j a n
    proof (cases "j = ?n")
      case True
      then show ?thesis using post m shift [of 0] by (auto simp: posting_def nth_append)
    next
      case False
      with lt have "j < ?n" by simp
      with post m have "place ctx (?n - j) a n" by (auto simp: posting_def counted_def nth_append)
      with \<open>j < ?n\<close> shift [of "?n - j"] show ?thesis by (simp add: Suc_diff_le)
    qed
    with post show ?thesis by (auto simp: flying_def posting_def counted_def assms algebra_simps)
  qed
  then show ?thesis by (intro leadsI [OF t]) simp
qed

text \<open>A command has no block; its position is counted all the same.\<close>

lemma post_data_leads:
  assumes "pcie_ring_post_data K ctx chunk csz addr w = Some ((r, ctx'), w')"
    and "sound_ring (rc_num ctx) (rc_max_blk ctx)" "unat csz \<le> 512"
  shows "leads (rc_base ctx) (flying ctx) w (flying ctx') w'"
proof -
  obtain ret w1 where wait: "pcie_ring_wait_u32 K (rc_base ctx) RH_AVAIL_OFF (rc_cur_avail ctx) False 5000 w = Some (ret, w1)"
    using assms by (auto simp: pcie_ring_post_data_def bind_eq_Some_conv)
  note wl = wait_leads [OF wait]
  show ?thesis
  proof (cases "ret = 0")
    case False
    with assms(1) wait have "ctx' = ctx" "w' = w1" by (simp_all add: pcie_ring_post_data_def)
    with wl False show ?thesis by simp
  next
    case True
    let ?bs = "take (unat csz) chunk" and ?blk = "rc_cur_blk ctx mod rc_max_blk ctx"
    let ?w3 = "memcpy_toio K (ring_blk_of ctx) ?bs (write_desc K (ring_desc_of ctx) RING_CMD_DATA csz addr ?blk w1)"
    let ?t = "desc_writes (ring_desc_of ctx) RING_CMD_DATA csz addr ?blk @ [MemcpyToio (ring_blk_of ctx) ?bs]"
    from assms(1) wait True have ctx': "ctx' = ctx\<lparr>rc_cur_blk := rc_cur_blk ctx + 1, rc_cur_avail := rc_cur_avail ctx + 1\<rparr>"
      and w': "w' = bump_used K (rc_base ctx) ?w3"
      by (simp_all add: pcie_ring_post_data_def Let_def ring_desc_of_def ring_blk_of_def)
    have "length ?bs \<le> 512" using assms(3) by simp
    then have "\<forall>e \<in> set ?t. own_write ctx e" 
      using own_desc own_block [of ctx ?bs] sound_ring_nonzero [OF assms(2)] by auto
    from own_writes [OF assms(2) this] have "leads (rc_base ctx) (posting ctx) w1 (posting ctx) ?w3"
      by (intro leadsI [where t = ?t]) (simp_all add: write_desc_trc memcpy_trc)
    moreover have "leads (rc_base ctx) (flying ctx) w (posting ctx) w1" using leads_weaken [OF wl] True by simp
    ultimately show ?thesis using bump_leads [OF ctx'] w' leads_trans by blast
  qed
qed

lemma post_cmd_leads:
  assumes "pcie_ring_post_cmd K ctx cmd sz addr w = Some ((r, ctx'), w')"
    and "sound_ring (rc_num ctx) (rc_max_blk ctx)"
  shows "leads (rc_base ctx) (flying ctx) w (\<lambda>V. \<exists>c. flying c V) w'"
proof -
  obtain ret w1 where wait: "pcie_ring_wait_u32 K (rc_base ctx) RH_AVAIL_OFF (rc_cur_avail ctx) False 5000 w = Some (ret, w1)"
    using assms by (auto simp: pcie_ring_post_cmd_def bind_eq_Some_conv)
  note wl = wait_leads [OF wait]
  show ?thesis
  proof (cases "ret = 0")
    case False
    with assms(1) wait have "w' = w1" by (simp add: pcie_ring_post_cmd_def)
    with wl False show ?thesis by (auto elim: leads_weaken)
  next
    case True
    let ?w2 = "write_desc K (ring_desc_of ctx) cmd sz addr 0 w1"
    let ?t = "desc_writes (ring_desc_of ctx) cmd sz addr 0"
    from assms(1) wait True have w': "w' = bump_used K (rc_base ctx) ?w2"
      by (simp add: pcie_ring_post_cmd_def Let_def ring_desc_of_def)
    have "\<forall>e \<in> set ?t. own_write ctx e" using own_desc by blast
    from own_writes [OF assms(2) this] have "leads (rc_base ctx) (posting ctx) w1 (posting ctx) ?w2"
      by (intro leadsI [where t = ?t]) (simp_all add: write_desc_trc)
    moreover have "leads (rc_base ctx) (flying ctx) w (posting ctx) w1" using leads_weaken [OF wl] True by simp
    moreover have "leads (rc_base ctx) (posting ctx) ?w2 (\<lambda>V. \<exists>c. flying c V) w'"
      unfolding w' by (rule leads_weaken [OF bump_leads [OF refl]]) blast
    ultimately show ?thesis using leads_trans by blast
  qed
qed

lemma xfer_chunks_leads:
  assumes "xfer_chunks K src data_len load_addr tot pos chunk ctx w = Some ((r, ctx'), w')"
    and "length chunk = 512" and "sound_ring (rc_num ctx) (rc_max_blk ctx)"
  shows "leads (rc_base ctx) (flying ctx) w (flying ctx') w'"
  using assms
proof (induction "unat tot - unat pos" arbitrary: pos chunk ctx w rule: less_induct)
  case less
  let ?cs = "chunk_size tot pos"
  show ?case
  proof (cases "pos < tot")
    case False
    from less.prems(1) show ?thesis unfolding xfer_chunks_done [OF False] by (simp add: leads_refl)
  next
    case lt: True
    note step = chunk_step [OF lt]
    show ?thesis
    proof (cases "fill_chunk K src data_len pos ?cs chunk")
      case None
      from less.prems(1) show ?thesis unfolding xfer_chunks_fault [OF lt None] by (simp add: leads_refl)
    next
      case (Some c)
      from fill_chunk_image [OF less.prems(2) step(4), of K src data_len pos] Some
      have c: "length c = 512" by simp
      from less.prems(1) obtain r1 ctx1 w1 where
        post: "pcie_ring_post_data K ctx c ?cs (load_addr + pos) w = Some ((r1, ctx1), w1)"
        and rest: "(if r1 \<noteq> 0 then Some ((r1, ctx1), w1)
           else xfer_chunks K src data_len load_addr tot (pos + ucast ?cs) c ctx1 w1) = Some ((r, ctx'), w')"
        unfolding xfer_chunks_step [OF lt Some] by (auto split: option.splits)
      note one = post_data_leads [OF post less.prems(3) step(4)]
      show ?thesis
      proof (cases "r1 = 0")
        case False
        with one rest show ?thesis by simp
      next
        case True
        from post_data_result(3) [OF post True]
        have ctx1: "ctx1 = ctx\<lparr>rc_cur_blk := rc_cur_blk ctx + 1, rc_cur_avail := rc_cur_avail ctx + 1\<rparr>" by blast
        have smaller: "unat tot - unat (pos + ucast ?cs) < unat tot - unat pos"
          using step(1,3) lt by (simp add: word_less_nat_alt)
        from rest True have "xfer_chunks K src data_len load_addr tot (pos + ucast ?cs) c ctx1 w1 = Some ((r, ctx'), w')"
          by simp
        from less.hyps [OF smaller this c] less.prems(3) ctx1
        have "leads (rc_base ctx) (flying ctx1) w1 (flying ctx') w'" by simp
        with one show ?thesis by (rule leads_trans)
      qed
    qed
  qed
qed

lemma ctx_init_leads:
  assumes "pcie_ring_ctx_init K base map_size ctx w = ((r, ctx'), w')"
  shows "leads base (\<lambda>V. V = idle_ring a) w (\<lambda>V. r = 0 \<longrightarrow> flying ctx' V) w'"
proof -
  let ?w1 = "snd (pcie_ring_r32 K base 16 w)" let ?w2 = "snd (pcie_ring_r32 K base 20 ?w1)"
  let ?num = "fst (pcie_ring_r32 K base 16 w)" and ?mb = "fst (pcie_ring_r32 K base 20 ?w1)"
  let ?av = "fst (pcie_ring_r32 K base 8 ?w2)" and ?w3 = "snd (pcie_ring_r32 K base 8 ?w2)"
  have t2: "w_trc ?w2 = w_trc w @ [Readl (base + 16) ?num, Readl (base + 20) ?mb]" by (simp add: r32_trc)
  have t3: "w_trc ?w3 = w_trc w @ [Readl (base + 16) ?num, Readl (base + 20) ?mb, Readl (base + 8) ?av]"
    by (simp add: r32_trc)
  show ?thesis
  proof (cases "r = 0")
    case False
    with assms have "w' = ?w2" by (auto simp: pcie_ring_ctx_init_def case_prod_beta Let_def split: if_splits)
    with t2 False show ?thesis by (intro leadsI [where t = "[Readl (base + 16) ?num, Readl (base + 20) ?mb]"]) simp_all
  next
    case True
    with assms have "w' = ?w3" "ctx' = ctx\<lparr>rc_base := base, rc_num := ?num, rc_max_blk := ?mb, rc_cur_avail := ?av - ?num, rc_cur_blk := 0\<rparr>"
      by (auto simp: pcie_ring_ctx_init_def case_prod_beta Let_def split: if_splits)
    with t3 show ?thesis
      by (intro leadsI [where t = "[Readl (base + 16) ?num, Readl (base + 20) ?mb, Readl (base + 8) ?av]"])
        (simp_all add: idle_ring_def flying_def counted_def)
  qed
qed

lemma poll_leads:
  assumes "pcie_ring_xfer_poll K base ms w = Some (r, w')"
  shows "leads base (\<lambda>V. \<exists>c. flying c V) w (\<lambda>V. True) w'"
proof -
  obtain t where "w_trc w' = w_trc w @ t" "\<forall>e \<in> set t. \<not> is_iow e"
    using xfer_poll_loop_trc assms by (metis pcie_ring_xfer_poll_def)
  then show ?thesis using flying_reads by (intro leadsI) auto
qed

lemma xfer_user_body_leads:
  assumes "xfer_user_body K base map_size user_base img w = Some (r, w')"
    and "length (k_junk K 512) = 512" and geo: "ring_geometry K base w = (num, mb)" "sound_ring num mb"
  shows "leads base (\<lambda>V. V = idle_ring a) w (\<lambda>V. True) w'"
proof -
  have start: "leads base (\<lambda>V. V = idle_ring a) w (flying ctx) w1 \<and> rc_base ctx = base \<and> sound_ring (rc_num ctx) (rc_max_blk ctx)"
    if "pcie_ring_ctx_init K base map_size zero_ring_ctx w = ((0, ctx), w1)" for ctx w1
    using ctx_init_leads [OF that, of a] ctx_init_result(4) [OF that] ctx_init_geometry [OF that] geo by simp
  have chunks_lead: "leads base (\<lambda>V. V = idle_ring a) w (flying ctx2) w2 \<and> rc_base ctx2 = base \<and>
      sound_ring (rc_num ctx2) (rc_max_blk ctx2)"
    if "pcie_ring_ctx_init K base map_size zero_ring_ctx w = ((0, ctx), w1)"
      "xfer_chunks K src len addr tot 0 (k_junk K 512) ctx w1 = Some ((r2, ctx2), w2)" for ctx w1 ctx2 w2 src len addr tot r2
  proof -
    note s = start [OF that(1)]
    have "rc_num ctx \<noteq> 0" "rc_max_blk ctx \<noteq> 0" using s sound_ring_nonzero by auto
    then have "same_window ctx ctx2" using xfer_chunks_writes [OF that(2) assms(2)] by simp
    with s show ?thesis using leads_trans [OF conjunct1 [OF s]] xfer_chunks_leads [OF that(2) assms(2)]
      by (simp add: same_window_def)
  qed
  from assms(1) show ?thesis
  proof (cases rule: xfer_user_body_cases)
    case (init ctx)
    show ?thesis by (rule leads_weaken [OF ctx_init_leads [OF init(1)]]) simp
  next
    case (chunks ctx w1 ctx2)
    show ?thesis by (rule leads_weaken [OF conjunct1 [OF chunks_lead [OF chunks(1,2)]]]) simp
  next
    case (cmd ctx w1 ctx2 w2 ctx3)
    note c = chunks_lead [OF cmd(1,2)]
    from c post_cmd_leads [OF cmd(3)] have "leads base (flying ctx2) w2 (\<lambda>V. \<exists>c. flying c V) w'" by simp
    from leads_weaken [OF leads_trans [OF conjunct1 [OF c] this]] show ?thesis by simp
  next
    case (poll ctx w1 ctx2 w2 ctx3 w3)
    note c = chunks_lead [OF poll(1,2)]
    from c post_cmd_leads [OF poll(3)] have "leads base (flying ctx2) w2 (\<lambda>V. \<exists>c. flying c V) w3" by simp
    from leads_trans [OF leads_trans [OF conjunct1 [OF c] this] poll_leads [OF poll(4)]] show ?thesis .
  qed
qed

lemma xfer_user_leads:
  assumes "pcie_ring_xfer_user K base map_size user_base img w = Some (r, w')"
    and "length (k_junk K 512) = 512"
    and "ring_geometry K base (snd (kcall K (KC_kmalloc 512) w)) = (num, mb)" and "sound_ring num mb"
  shows "leads base (\<lambda>V. V = idle_ring a) w (\<lambda>V. True) w'"
proof -
  obtain p w1 where km: "kcall K (KC_kmalloc 512) w = (p, w1)" by (metis prod.exhaust)
  have alloc: "leads base (\<lambda>V. V = idle_ring a) w (\<lambda>V. V = idle_ring a) w1"
    using leads_kcall [of "\<lambda>V. V = idle_ring a" "\<lambda>V. V = idle_ring a" base w K "KC_kmalloc 512"] km by simp
  show ?thesis
  proof (cases "p = 0")
    case True
    with assms(1) km have "w' = kdo K KC_kfree w1" by (simp add: pcie_ring_xfer_user_def)
    then show ?thesis using leads_trans [OF alloc leads_kdo] by simp
  next
    case False
    with assms(1) km obtain w2 where b: "xfer_user_body K base map_size user_base img w1 = Some (r, w2)" "w' = kdo K KC_kfree w2"
      by (auto simp: pcie_ring_xfer_user_def bind_eq_Some_conv)
    have "ring_geometry K base w1 = (num, mb)" using assms(3) km by simp
    note body = xfer_user_body_leads [OF b(1) assms(2) this assms(4), of a]
    show ?thesis unfolding b(2) by (rule leads_trans [OF leads_trans [OF alloc body] leads_kdo]) simp
  qed
qed

text \<open>C13: The flow control of the ring works: against an endpoint that reports no more messages as taken
  out than were handed over, a transfer that starts on an idle ring never writes to a descriptor or
  data block of a message the endpoint has not taken out yet, whatever else the endpoint does and
  wherever the transfer fails. The numbers of descriptors and blocks must be powers of two, at
  most 21 descriptors, and at least as many blocks.\<close>

theorem messages_not_overwritten:
  assumes "pcie_ring_xfer_user K base map_size user_base img w = Some (r, w')"
    and "w_trc w' = w_trc w @ t" and "honest_run base t (idle_ring a)"
    and "length (k_junk K 512) = 512"
    and "ring_geometry K base (snd (kcall K (KC_kmalloc 512) w)) = (num, mb)" and "sound_ring num mb"
  shows "clean_run base t (idle_ring a)"
  using xfer_user_leads [OF assms(1,4-6), of a] assms(2,3) by (auto simp: leads_def)

theorem messages_not_overwritten_witness:
  "\<exists>w'. pcie_ring_xfer_user demo_kernel 0x10000 0x10000 0x1000 demo_img demo_world = Some (0, w') \<and>
     w_trc w' \<noteq> [] \<and> clean_run 0x10000 (w_trc w') (idle_ring 10)"
proof -
  have "\<exists>w'. pcie_ring_xfer_user demo_kernel 0x10000 0x10000 0x1000 demo_img demo_world = Some (0, w') \<and>
      w_trc w' \<noteq> [] \<and> honest_run 0x10000 (w_trc w') (idle_ring 10)"
    by (simp add: xfer_eval demo_img_def idle_ring_def)
  then obtain w' where ok: "pcie_ring_xfer_user demo_kernel 0x10000 0x10000 0x1000 demo_img demo_world = Some (0, w')"
    "w_trc w' \<noteq> []" "honest_run 0x10000 (w_trc w') (idle_ring 10)" by blast
  have geo: "ring_geometry demo_kernel 0x10000 (snd (kcall demo_kernel (KC_kmalloc 512) demo_world)) = (4, 4)"
    by (simp add: ring_geometry_def demo_eval)
  have "sound_ring 4 4" by (simp add: sound_ring_def)
  moreover have "w_trc w' = w_trc demo_world @ w_trc w'" by (simp add: demo_world_def)
  ultimately show ?thesis using messages_not_overwritten [OF ok(1) _ ok(3) demo_junk geo] ok by blast
qed

end
