(* ===== verification/Foreign_Ioctls.thy ===== *)
theory Foreign_Ioctls
  imports Ioctl_Ops Demo_Kernel
begin

section \<open>The ioctls of the neighbour modules\<close>

text \<open>
  \<open>include/pci_rdma_ioctl.h\<close> and \<open>include/pci-turbo-ioctl.h\<close>: the requests of the RDMA and turbo
  devices that user space sends to their own device nodes. The handlers are in those modules; the
  headers here fix the structs, their layout on a 64-bit kernel and the numbers.
\<close>

record pci_rdma_req =
  rdma_src :: u64
  rdma_dest :: u64
  rdma_size :: u64

record pci_rdma_rate =
  rate_max :: u64
  rate_min :: u64
  rate_avg :: u64

record pci_turbo_req =
  tr_dev_addr :: u64
  tr_host_addr :: u64
  tr_size :: u64
  tr_flags :: u32

record pci_turbo_buf =
  tb_size :: u64
  tb_host_addr :: u64
  tb_flags :: u32
  tb_offset :: u64

definition rdma_req_layout :: "cfield list" where "rdma_req_layout = [f_u64, f_u64, f_u64]"
definition rdma_rate_layout :: "cfield list" where "rdma_rate_layout = [f_u64, f_u64, f_u64]"
definition turbo_req_layout :: "cfield list" where "turbo_req_layout = [f_u64, f_u64, f_u64, f_u32]"
definition turbo_buf_layout :: "cfield list" where "turbo_buf_layout = [f_u64, f_u64, f_u32, f_u64]"

definition IO :: "u32 \<Rightarrow> u32 \<Rightarrow> u32" where
  "IO ty nr = IOC 0 ty nr 0"

abbreviation (input) PCI_IOC_MAGIC :: u32 where "PCI_IOC_MAGIC \<equiv> 0x70" \<comment> \<open>the character p\<close>

definition PCI_RDMA_INBOUND :: u32 where "PCI_RDMA_INBOUND = IO PCI_IOC_MAGIC 0"
definition PCI_RDMA_OUTBOUND :: u32 where "PCI_RDMA_OUTBOUND = IO PCI_IOC_MAGIC 1"
definition PCI_RDMA_INBOUND_RATE :: u32 where "PCI_RDMA_INBOUND_RATE = IO PCI_IOC_MAGIC 2"
definition PCI_RDMA_OUTBOUND_RATE :: u32 where "PCI_RDMA_OUTBOUND_RATE = IO PCI_IOC_MAGIC 3"
definition PCI_TURBO_REQ_H2D :: u32 where "PCI_TURBO_REQ_H2D = IO PCI_IOC_MAGIC 4"
definition PCI_TURBO_REQ_D2H :: u32 where "PCI_TURBO_REQ_D2H = IO PCI_IOC_MAGIC 5"
definition PCI_TURBO_BUF_ALLOC :: u32 where "PCI_TURBO_BUF_ALLOC = IO PCI_IOC_MAGIC 6"
definition PCI_TURBO_BUF_FREE :: u32 where "PCI_TURBO_BUF_FREE = IO PCI_IOC_MAGIC 7"
definition PCI_TURBO_BUF_SUBMIT :: u32 where "PCI_TURBO_BUF_SUBMIT = IO PCI_IOC_MAGIC 8"

definition rdma_ioctls :: "u32 list" where
  "rdma_ioctls = [PCI_RDMA_INBOUND, PCI_RDMA_OUTBOUND, PCI_RDMA_INBOUND_RATE, PCI_RDMA_OUTBOUND_RATE]"

definition turbo_ioctls :: "u32 list" where
  "turbo_ioctls = [PCI_TURBO_REQ_H2D, PCI_TURBO_REQ_D2H, PCI_TURBO_BUF_ALLOC, PCI_TURBO_BUF_FREE, PCI_TURBO_BUF_SUBMIT]"

definition platform_ioctls :: "u32 list" where
  "platform_ioctls = [AMBA_PCI_QUERY_PLATFORM_INFO, AMBA_PCI_XFER_FIRMWARE, AMBA_PCI_H2D_SEND_FILE, AMBA_PCI_H2D_SEND_BUFFER]"

lemmas foreign_numbers = PCI_RDMA_INBOUND_def PCI_RDMA_OUTBOUND_def PCI_RDMA_INBOUND_RATE_def
  PCI_RDMA_OUTBOUND_RATE_def PCI_TURBO_REQ_H2D_def PCI_TURBO_REQ_D2H_def PCI_TURBO_BUF_ALLOC_def
  PCI_TURBO_BUF_FREE_def PCI_TURBO_BUF_SUBMIT_def IO_def IOC_def rdma_ioctls_def turbo_ioctls_def platform_ioctls_def

lemma foreign_sizes:
  "size_of rdma_req_layout = 24" "size_of rdma_rate_layout = 24" "size_of turbo_req_layout = 32" "size_of turbo_buf_layout = 32"
  by (simp_all add: layout_eval rdma_req_layout_def rdma_rate_layout_def turbo_req_layout_def turbo_buf_layout_def)

lemma all_numbers_distinct: "distinct (platform_ioctls @ rdma_ioctls @ turbo_ioctls)"
  by (simp add: foreign_numbers ioctl_numbers)

text \<open>The control device answers its own four ioctl numbers only: any other number is refused with
  ENOTTY, with no effect on the driver and without a single kernel call. The thirteen numbers of the
  platform, the RDMA and the turbo devices are pairwise different, so a request that reaches the
  wrong node is always refused here.\<close>

theorem foreign_ioctls_refused:
  assumes "cmd \<notin> set platform_ioctls"
  shows "pcie_file_ioctl K shl rm cmd arg g w = Some ((Ret (- ENOTTY), g), w) \<and>
    distinct (platform_ioctls @ rdma_ioctls @ turbo_ioctls)"
  using assms all_numbers_distinct by (simp add: pcie_file_ioctl_def platform_ioctls_def)

theorem foreign_ioctls_refused_witness:
  "pcie_file_ioctl demo_kernel id (\<lambda>p g w. (g, w)) PCI_RDMA_INBOUND 0x1000 zero_platform demo_world =
     Some ((Ret (- 25), zero_platform), demo_world) \<and>
   pcie_file_ioctl demo_kernel id (\<lambda>p g w. (g, w)) PCI_TURBO_BUF_FREE 0x1000 zero_platform demo_world =
     Some ((Ret (- 25), zero_platform), demo_world)"
proof -
  have "PCI_RDMA_INBOUND \<notin> set platform_ioctls" "PCI_TURBO_BUF_FREE \<notin> set platform_ioctls"
    by (simp_all add: foreign_numbers ioctl_numbers)
  from this [THEN foreign_ioctls_refused] show ?thesis by blast
qed

end
