(* ===== verification/Spec2Isabelle.thy ===== *)
theory Spec2Isabelle
  imports Fw_Liveness Proc_Correct Pci_Headers Query_Correct H2d_Correct Boot_Races Module_Exit Lock_Discipline
    Handover_Races Boot_Cycle Proc_Deadlock Ring_Protocol Foreign_Ioctls
begin

text \<open>
  \<^bold>\<open>Verification of the Linux driver \<open>amba_pci_platform\<close>\<close>

  The driver runs on a host (the root complex) with up to four accelerator cards. It watches the PCI
  bus for cards, boots a bare card by streaming three images (device tree, root filesystem, kernel)
  into its memory through a descriptor ring in a BAR that card and host share, waits for the booted
  system to appear on the bus, sends data to running cards, and shows every slot under \<open>/proc\<close>.

  \<^bold>\<open>Parts of the program and how they interact\<close>

  All state is the static \<open>g_pcie_drv\<close>: the module's handles and four slots (\<open>pcie_dev_entry\<close>), under
  one mutex. Five kinds of handlers work on it: the bus notifier (\<open>pcie_pci_bus_notify\<close>, hotplug), the
  ioctls of the control device, the proc files of the slots, the boot timeout of each slot, run by a
  work queue, and load and unload. The firmware ioctl calls the ring transfer of
  \<open>amba_pci_platform_transfer.c\<close>, arms the timeout and hands the device over for removal, which comes
  back through the bus notifier; the booted card comes back through the notifier too and stops the
  timeout.

  \<^bold>\<open>Theories and the code they model\<close>

  \<^item> \<open>Base_Prelude\<close>, \<open>C_Layout\<close>, \<open>C_Format\<close>: integer types, errno values, byte encodings, runs of a step
    relation and the locale \<open>invariant_system\<close>; the struct layout rule of the C ABI; \<open>scnprintf\<close> and the
    format conversions the driver uses.
  \<^item> \<open>Kernel_Model\<close>: the environment. A record \<open>kernel\<close> of functions over an outside state stands for
    the kernel services, the endpoint, the clock, user memory; a \<open>world\<close> is the I/O memory, the outside
    state and the trace of everything the driver did. The locale \<open>byte_store\<close> is the interface of the
    I/O memory to the ring code.
  \<^item> \<open>Amba_Ioctl_Abi\<close>, \<open>Abi_Codec\<close> (\<open>include/amba_pci_ioctl.h\<close>) and \<open>Foreign_Ioctls\<close>
    (\<open>include/pci_rdma_ioctl.h\<close>, \<open>include/pci-turbo-ioctl.h\<close>): structs, layouts, codecs, ioctl numbers.
  \<^item> \<open>Dev_Entry\<close> (\<open>amba_pci_platform_internal.h\<close>, \<open>amba_pci_platform_table.c\<close>): slots, platform state, slot
    table, \<open>get_pci_slot_id\<close>.
  \<^item> \<open>Ring_Io\<close>, \<open>Ring_Xfer\<close>, \<open>Boot_Bar\<close> (\<open>amba_pci_platform_transfer.c\<close>, \<open>.h\<close>): register access, polling loops,
    the image transfer; choosing, mapping and unmapping of the boot BAR.
  \<^item> \<open>Slot_Ops\<close>, \<open>Hotplug\<close>, \<open>Ioctl_Ops\<close>, \<open>Proc_Ops\<close>, \<open>File_Ops\<close>, \<open>Module_Life\<close>
    (\<open>amba_pci_platform_main.c\<close>): slot operations and boot timeout; notifier and initial scan; the
    four ioctls; the five proc files; the operation tables; load and unload.
  \<^item> \<open>Driver_System\<close>: the handlers as labelled steps of one system (\<open>driver_step\<close>). A handler is one step
    up to the hand-over of a device; a boot timeout takes two, expiring and running, because
    \<open>cancel_delayed_work\<close> only stops the first.
  \<^item> \<open>Pci_Headers\<close> (\<open>include/pci-virtio.h\<close>, \<open>include/pci-sg.h\<close>): enumerations, requests, the
    structs of devices, buses and drivers, inline functions.

  A definition has the name of the C function or type it models; a part of a function that is a loop or
  a branch of its own has a name of its own beside it (\<open>xfer_chunks\<close>, \<open>scan_slots\<close>). Results are the
  negative errno values of the code, an oops is the outcome \<open>Null_Deref\<close>.

  \<^bold>\<open>What the lemmas show\<close>

  \<^item> \<open>Ring_Trace\<close>, \<open>Ring_Reader\<close>: the events of a posted message, and the specification of the endpoint's
    reading of the ring. It replays the driver's writes in a memory of its own and looks everything up by
    address there: the descriptor at its position, its five words, and the block it names; whatever
    does not follow the protocol is \<open>MBad\<close>. The code of the endpoint is not part of the repository: the
    reader states the protocol the two sides share, and no assumption on the endpoint rests on it.
  \<^item> \<open>Ring_Poll\<close>, \<open>Ring_Xfer_Correct\<close>, \<open>Ring_Xfer_Props\<close>: results and termination of the polling loops; what
    this reader finds is the image, padded, and one command; writes stay inside
    the mapping. \<open>Ring_Protocol\<close>: nothing is written over a message in flight. \<open>Ring_Liveness\<close>: against
    a prompt endpoint a transfer succeeds, and so does one of a length that wraps. \<open>Board_Info\<close>: board
    information and readiness.
  \<^item> \<open>Fw_Request\<close>, \<open>Fw_Xfer\<close>, \<open>Fw_Xfer_Props\<close>, \<open>Fw_Liveness\<close>: the firmware ioctl, from the request checks
    to the messages of the three images and the endpoint's memory after them; its failures; its
    progress; sizes nothing checks.
  \<^item> \<open>Slot_Invariant\<close>, \<open>Hotplug_Correct\<close>: the invariant \<open>plat_ok\<close> of the slots and the abstract hotplug
    specification the notifier refines. \<open>Query_Correct\<close>, \<open>H2d_Correct\<close>, \<open>Proc_Correct\<close>, \<open>Proc_Reads\<close>: the
    other ioctls and the proc files.
  \<^item> \<open>Resource_Ledger\<close>: a ledger weighs the kernel calls that take and return a resource. The locale
    \<open>ledger\<close> proves balances once for every resource; it is interpreted for mappings, proc directories,
    device references and the module's own resources. \<open>Quiet_Calls\<close>, \<open>Card_Access\<close>: the locales \<open>ring_closed\<close>,
    \<open>send_closed\<close>, \<open>call_closed\<close> and \<open>card_closed\<close> carry any predicate of the world through a ring transfer, a
    send and the accesses to a card; they are interpreted for the ledgers, the mutex and the absence of writes.
  \<^item> \<open>System_Safety\<close>, \<open>Boot_Races\<close>: invariants of all runs of the handlers, the slot state machine, and a
    race of the boot timeout. \<open>Lock_Trace\<close>, \<open>Lock_Discipline\<close>: a scan of the trace that checks the mutex, and
    that the trace of every load, run and unload passes it: which accesses and calls need the mutex,
    and which of those that may wait are made under it: the removal of a proc directory, no other.
    \<open>Proc_Deadlock\<close>: the notifier that removes a proc directory
    under the mutex and a reader in that directory wait for each other, and the reboot handler for itself.
    \<open>Handover_Races\<close> cuts the reboot handler
    where it releases the mutex and shows what may come in between; \<open>Boot_Cycle\<close> composes the steps of
    one boot, and shows that a boot that never finishes times out. \<open>Module_Correct\<close>, \<open>Module_Exit\<close>: failed loads,
    and load, run and unload as a whole.

  Properties are the theorems with a claim number in the text before them. A theorem \<open>t\<close> with
  hypotheses has a \<open>t_witness\<close> that applies it on the environment of \<open>Demo_Kernel\<close> or a variant of it.

  \<^bold>\<open>Parameters, bounds, loops\<close>

  \<^item> \<open>shl\<close> is \<open>1U << n\<close>, which C leaves undefined for \<open>n\<close> of 32 or more; theorems name what they need of it.
  \<^item> \<open>removal_later\<close> and other functions of type \<open>remove_fn\<close> stand for the removal of a device by the PCI
    core, which calls the bus notifier; \<open>net_text\<close> and \<open>log_text\<close> for texts of the buzz module.
  \<^item> The polling loops and the loops that depend on a device or a file are \<open>partial_function\<close>s, \<open>None\<close>
    meaning that the code never returns; that they return is proved from \<open>steady_clock\<close>: time does not
    run backwards, \<open>usleep_range\<close> sleeps at least its lower bound, timeouts are below $2^{62}$ ticks. The
    initial scan returns if \<open>pci_get_device\<close> comes to the end of its list. No fuel is used anywhere.
  \<^item> \<open>k_junk\<close>, the old contents of a fresh buffer, is assumed to have the length that was asked for.

  \<^bold>\<open>Not modelled\<close>

  \<^item> Prototypes (\<open>include/pci-buzz.h\<close>, \<open>include/pci-turbo.h\<close>, the end of \<open>include/pci-virtio.h\<close>): their
    code is in other modules. \<open>xfer_checksum\<close> has an empty body, and the macro \<open>pci_sg_addr\<close> names fields that
    no struct has. What \<open>include/pci-virtio.h\<close> adds for older kernels are other names of kernel functions.
  \<^item> Reading user memory leaves no event in the trace, so that the time it may take, which in the firmware
    transfer is spent under the mutex, is not judged.
  \<^item> Log messages (\<open>pr_err\<close>, \<open>dev_err\<close>, \<open>WARN_ONCE\<close>), reference counts inside the kernel, and memory
    orderings of the I/O accesses, which the model takes in program order.
  \<^item> Interleavings inside a handler other than the reboot handler, the boot timeout and the two contexts
    of \<open>Proc_Deadlock\<close>. Critical sections are serialised by the mutex and one handler is one step; the
    firmware ioctl reads the device pointer once more after the unlock, and the readers of \<open>status\<close>,
    \<open>net\<close> and \<open>dev_log\<close> look at the slot without the mutex, which is in the same step.
\<close>

end
